(* ===== verification/Tcfs_Prelude.thy ===== *)
theory Tcfs_Prelude
  imports Main "HOL-Library.Word" "HOL-Library.List_Lexorder" "HOL-Library.Char_ord"
begin

text \<open>
  Shared vocabulary of the tcfs verification library: machine integers, the error values of
  the fallible operations, and the parts of Rust's \<^verbatim>\<open>str\<close> and integer formatting/parsing that
  the crates use. A Rust \<^verbatim>\<open>String\<close> is the \<^typ>\<open>string\<close> of its UTF-8 bytes, so \<^verbatim>\<open>len()\<close> is
  \<^const>\<open>length\<close> and \<^verbatim>\<open>str::cmp\<close> is the lexicographic order of bytes; a \<^verbatim>\<open>Vec<u8>\<close> is a list of
  8-bit words.
\<close>

named_theorems str_simps \<open>facts about the string operations of the Rust standard library\<close>
named_theorems io_simps \<open>facts about the file-system and object-store operations\<close>

section \<open>Types\<close>

type_synonym u8 = "8 word"
type_synonym u32 = "32 word"
type_synonym u64 = "64 word"
type_synonym usize = "64 word"
type_synonym bytes = "u8 list"

text \<open>
  The errors of the fallible operations. \<^verbatim>\<open>anyhow::Error\<close> carries a message; the model keeps
  which check failed and on which object.
\<close>

datatype err =
    EIo string string
  | EStorage string string
  | EUtf8 string
  | EEmptyManifest string
  | ENoEncryption string
  | EDecode string
  | ECrypto string
  | ETooShort nat nat
  | EWrongSize nat nat
  | EChunkIntegrity string string string
  | EFileIntegrity string string string
  | ESerialize string
  | EParse string string
  | EMissing string
  | EUnsupported string
  | EAlreadyExists string
  | EPanic string

type_synonym 'a res = "err + 'a"

abbreviation Ok :: "'a \<Rightarrow> 'a res" where "Ok \<equiv> Inr"
abbreviation Err :: "err \<Rightarrow> 'a res" where "Err \<equiv> Inl"

definition is_ok :: "'a res \<Rightarrow> bool" where
  "is_ok r = (case r of Inl _ \<Rightarrow> False | Inr _ \<Rightarrow> True)"

lemma is_ok_simps [simp]: "is_ok (Inl e) = False" "is_ok (Inr x) = True"
  by (simp_all add: is_ok_def)

definition ok_or :: "err \<Rightarrow> 'a option \<Rightarrow> 'a res" where
  "ok_or e x = (case x of None \<Rightarrow> Err e | Some v \<Rightarrow> Ok v)"

lemma ok_or_simps [simp]: "ok_or e None = Inl e" "ok_or e (Some v) = Inr v"
  by (simp_all add: ok_or_def)

section \<open>Lists\<close>

lemma find_append:
  "List.find P (xs @ ys) = (case List.find P xs of None \<Rightarrow> List.find P ys | Some x \<Rightarrow> Some x)"
  by (induction xs) auto

lemma find_SomeD: "List.find P xs = Some x \<Longrightarrow> x \<in> set xs \<and> P x"
  by (induction xs) (auto split: if_splits)

section \<open>Strings\<close>

abbreviation nl :: char where "nl \<equiv> CHR 0x0A"
abbreviation cr :: char where "cr \<equiv> CHR 0x0D"
abbreviation slash :: char where "slash \<equiv> CHR ''/''"

text \<open>\<^verbatim>\<open>str::strip_prefix\<close> and \<^verbatim>\<open>str::strip_suffix\<close>.\<close>

fun strip_prefix :: "string \<Rightarrow> string \<Rightarrow> string option" where
  "strip_prefix [] s = Some s"
| "strip_prefix (p # ps) [] = None"
| "strip_prefix (p # ps) (c # s) = (if p = c then strip_prefix ps s else None)"

definition strip_suffix :: "string \<Rightarrow> string \<Rightarrow> string option" where
  "strip_suffix p s = map_option rev (strip_prefix (rev p) (rev s))"

definition starts_with :: "string \<Rightarrow> string \<Rightarrow> bool" where
  "starts_with p s \<longleftrightarrow> strip_prefix p s \<noteq> None"

definition ends_with :: "string \<Rightarrow> string \<Rightarrow> bool" where
  "ends_with p s \<longleftrightarrow> strip_suffix p s \<noteq> None"

lemma strip_prefix_iff [str_simps]: "strip_prefix p s = Some t \<longleftrightarrow> s = p @ t"
  by (induction p s rule: strip_prefix.induct) auto

lemma strip_prefix_append [simp]: "strip_prefix p (p @ s) = Some s"
  by (simp add: strip_prefix_iff)

lemma strip_suffix_iff [str_simps]: "strip_suffix p s = Some t \<longleftrightarrow> s = t @ p"
proof -
  have "strip_suffix p s = Some t \<longleftrightarrow> strip_prefix (rev p) (rev s) = Some (rev t)"
    by (cases "strip_prefix (rev p) (rev s)") (auto simp: strip_suffix_def)
  also have "\<dots> \<longleftrightarrow> rev s = rev (t @ p)"
    by (simp add: strip_prefix_iff)
  finally show ?thesis
    by (simp only: rev_is_rev_conv)
qed

lemma strip_suffix_append [simp]: "strip_suffix p (s @ p) = Some s"
  by (simp add: strip_suffix_iff)

lemma starts_with_iff [str_simps]: "starts_with p s \<longleftrightarrow> (\<exists>t. s = p @ t)"
  by (metis not_None_eq option.sel starts_with_def strip_prefix_iff)

lemma ends_with_iff [str_simps]: "ends_with p s \<longleftrightarrow> (\<exists>t. s = t @ p)"
  by (metis ends_with_def not_None_eq strip_suffix_iff)

text \<open>\<^verbatim>\<open>trim_end_matches(c)\<close> and \<^verbatim>\<open>trim_start_matches(c)\<close> for one character.\<close>

definition trim_end_matches :: "char \<Rightarrow> string \<Rightarrow> string" where
  "trim_end_matches c s = rev (dropWhile (\<lambda>x. x = c) (rev s))"

definition trim_start_matches :: "char \<Rightarrow> string \<Rightarrow> string" where
  "trim_start_matches c s = dropWhile (\<lambda>x. x = c) s"

lemma trim_end_matches_last: "trim_end_matches c s \<noteq> [] \<Longrightarrow> last (trim_end_matches c s) \<noteq> c"
  using hd_dropWhile[of "\<lambda>x. x = c" "rev s"] by (simp add: trim_end_matches_def last_rev)

lemma trim_end_matches_id: "s \<noteq> [] \<Longrightarrow> last s \<noteq> c \<Longrightarrow> trim_end_matches c s = s"
  by (cases s rule: rev_cases) (auto simp: trim_end_matches_def)

lemma trim_end_matches_Nil [simp]: "trim_end_matches c [] = []"
  by (simp add: trim_end_matches_def)

lemma trim_end_matches_idem [simp]: "trim_end_matches c (trim_end_matches c s) = trim_end_matches c s"
  by (metis trim_end_matches_Nil trim_end_matches_id trim_end_matches_last)

lemma trim_start_matches_id: "s \<noteq> [] \<Longrightarrow> hd s \<noteq> c \<Longrightarrow> trim_start_matches c s = s"
  by (cases s) (auto simp: trim_start_matches_def)

lemma trim_start_matches_hd:
  "trim_start_matches c s \<noteq> [] \<Longrightarrow> hd (trim_start_matches c s) \<noteq> c"
  using hd_dropWhile[of "\<lambda>x. x = c" s] by (simp add: trim_start_matches_def)

text \<open>\<^verbatim>\<open>split_once(c)\<close>, \<^verbatim>\<open>split(c)\<close> and the first item of \<^verbatim>\<open>rsplit(c)\<close>.\<close>

definition split_once :: "char \<Rightarrow> string \<Rightarrow> (string \<times> string) option" where
  "split_once c s =
     (case dropWhile (\<lambda>x. x \<noteq> c) s of [] \<Rightarrow> None | _ # r \<Rightarrow> Some (takeWhile (\<lambda>x. x \<noteq> c) s, r))"

definition rsplit_first :: "char \<Rightarrow> string \<Rightarrow> string" where
  "rsplit_first c s = rev (takeWhile (\<lambda>x. x \<noteq> c) (rev s))"

function split_on :: "char \<Rightarrow> string \<Rightarrow> string list" where
  "split_on c s =
     (case dropWhile (\<lambda>x. x \<noteq> c) s of
        [] \<Rightarrow> [s]
      | _ # r \<Rightarrow> takeWhile (\<lambda>x. x \<noteq> c) s # split_on c r)"
  by pat_completeness auto
termination
proof (relation "measure (\<lambda>(c, s). length s)", goal_cases)
  case (2 c s x r)
  have "length (x # r) \<le> length s"
    unfolding 2(1)[symmetric] by (rule length_dropWhile_le)
  then show ?case by simp
qed simp

declare split_on.simps [simp del]

lemma split_once_append: "c \<notin> set k \<Longrightarrow> split_once c (k @ c # v) = Some (k, v)"
proof -
  assume "c \<notin> set k"
  then have "\<And>x. x \<in> set k \<Longrightarrow> x \<noteq> c" by auto
  then show ?thesis
    by (simp add: split_once_def dropWhile_append2 takeWhile_append2)
qed

lemma rsplit_first_append: "c \<notin> set k \<Longrightarrow> rsplit_first c (p @ c # k) = k"
proof -
  assume "c \<notin> set k"
  then have "takeWhile (\<lambda>x. x \<noteq> c) (rev k @ c # rev p) = rev k"
    by (subst takeWhile_append2) auto
  then show ?thesis
    by (simp add: rsplit_first_def)
qed

lemma rsplit_first_no_sep: "c \<notin> set k \<Longrightarrow> rsplit_first c k = k"
proof -
  assume "c \<notin> set k"
  then have "\<forall>x \<in> set (rev k). x \<noteq> c" by auto
  then have "takeWhile (\<lambda>x. x \<noteq> c) (rev k) = rev k"
    by (simp only: takeWhile_eq_all_conv)
  then show ?thesis by (simp only: rsplit_first_def rev_rev_ident)
qed

lemma split_on_no_sep: "c \<notin> set s \<Longrightarrow> split_on c s = [s]"
proof -
  assume "c \<notin> set s"
  then have "dropWhile (\<lambda>x. x \<noteq> c) s = []"
    by (auto simp: dropWhile_eq_Nil_conv)
  then show ?thesis
    by (simp only: split_on.simps[of c s] list.case)
qed

lemma split_on_append: "c \<notin> set k \<Longrightarrow> split_on c (k @ c # s) = k # split_on c s"
proof -
  assume "c \<notin> set k"
  then have "\<And>x. x \<in> set k \<Longrightarrow> x \<noteq> c" by auto
  then show ?thesis
    by (subst split_on.simps) (simp add: dropWhile_append2 takeWhile_append2)
qed

text \<open>
  \<^verbatim>\<open>str::lines\<close>: pieces terminated by a newline, the newline and one carriage return before it
  removed; a last piece without newline is a line of its own, and no empty line is produced
  after a final newline.
\<close>

definition strip_cr :: "string \<Rightarrow> string" where
  "strip_cr l = (case strip_suffix [cr] l of None \<Rightarrow> l | Some l' \<Rightarrow> l')"

function str_lines :: "string \<Rightarrow> string list" where
  "str_lines s =
     (if s = [] then []
      else (case dropWhile (\<lambda>x. x \<noteq> nl) s of
              [] \<Rightarrow> [s]
            | _ # r \<Rightarrow> strip_cr (takeWhile (\<lambda>x. x \<noteq> nl) s) # str_lines r))"
  by pat_completeness auto
termination
proof (relation "measure length", goal_cases)
  case (2 s x r)
  have "length (x # r) \<le> length s"
    unfolding 2(2)[symmetric] by (rule length_dropWhile_le)
  then show ?case by simp
qed simp

declare str_lines.simps [simp del]

lemma strip_cr_id: "cr \<notin> set l \<Longrightarrow> strip_cr l = l"
proof -
  assume "cr \<notin> set l"
  moreover have "cr \<in> set l" if "strip_suffix [cr] l = Some l'" for l'
    using that unfolding strip_suffix_iff by simp
  ultimately have "strip_suffix [cr] l = None"
    by (cases "strip_suffix [cr] l") auto
  then show ?thesis by (simp add: strip_cr_def)
qed

lemma str_lines_Nil [simp]: "str_lines [] = []"
  by (subst str_lines.simps) simp

lemma str_lines_append:
  "nl \<notin> set l \<Longrightarrow> str_lines (l @ nl # s) = strip_cr l # str_lines s"
proof -
  assume "nl \<notin> set l"
  then have "\<And>x. x \<in> set l \<Longrightarrow> x \<noteq> nl" by auto
  then show ?thesis
    by (subst str_lines.simps) (simp add: dropWhile_append2 takeWhile_append2)
qed

lemma str_lines_single: "nl \<notin> set l \<Longrightarrow> l \<noteq> [] \<Longrightarrow> str_lines l = [l]"
proof -
  assume "nl \<notin> set l" and "l \<noteq> []"
  then have "dropWhile (\<lambda>x. x \<noteq> nl) l = []"
    by (auto simp: dropWhile_eq_Nil_conv)
  then show ?thesis
    using \<open>l \<noteq> []\<close> by (simp only: str_lines.simps[of l] if_False list.case)
qed

text \<open>A text line: what a field of the line formats may hold.\<close>

definition plain_line :: "string \<Rightarrow> bool" where
  "plain_line s \<longleftrightarrow> nl \<notin> set s \<and> cr \<notin> set s"

lemma str_lines_plain:
  "plain_line l \<Longrightarrow> str_lines (l @ nl # s) = l # str_lines s"
  by (simp add: plain_line_def str_lines_append strip_cr_id)

text \<open>A text of lines, each ended by a newline.\<close>

definition unlines :: "string list \<Rightarrow> string" where
  "unlines ls = concat (map (\<lambda>l. l @ [nl]) ls)"

lemma str_lines_unlines: "list_all plain_line ls \<Longrightarrow> str_lines (unlines ls) = ls"
  by (induction ls) (simp_all add: unlines_def str_lines_plain)

lemma plain_line_append [simp]: "plain_line (a @ b) \<longleftrightarrow> plain_line a \<and> plain_line b"
  by (auto simp: plain_line_def)

section \<open>Decimal numbers\<close>

definition digit_char :: "nat \<Rightarrow> char" where
  "digit_char d = char_of (48 + d)"

definition digit_val :: "char \<Rightarrow> nat option" where
  "digit_val c = (let n = (of_char c :: nat) in if 48 \<le> n \<and> n \<le> 57 then Some (n - 48) else None)"

fun dec_of_nat :: "nat \<Rightarrow> string" where
  "dec_of_nat n =
     (if n < 10 then [digit_char n] else dec_of_nat (n div 10) @ [digit_char (n mod 10)])"

declare dec_of_nat.simps [simp del]

fun parse_digits :: "nat \<Rightarrow> string \<Rightarrow> nat option" where
  "parse_digits acc [] = Some acc"
| "parse_digits acc (c # s) =
     (case digit_val c of None \<Rightarrow> None | Some d \<Rightarrow> parse_digits (10 * acc + d) s)"

text \<open>
  \<^verbatim>\<open>str::parse::<u64>()\<close>: an optional leading plus sign, at least one digit, an error when the
  value does not fit.
\<close>

definition parse_nat :: "string \<Rightarrow> nat option" where
  "parse_nat s =
     (case s of
        [] \<Rightarrow> None
      | c # r \<Rightarrow> if c = CHR ''+'' then (if r = [] then None else parse_digits 0 r)
                 else parse_digits 0 s)"

definition parse_u64 :: "string \<Rightarrow> u64 option" where
  "parse_u64 s =
     (case parse_nat s of
        None \<Rightarrow> None
      | Some n \<Rightarrow> if n < 2 ^ 64 then Some (word_of_nat n) else None)"

definition dec_of_u64 :: "u64 \<Rightarrow> string" where
  "dec_of_u64 w = dec_of_nat (unat w)"

lemma digit_val_digit_char [simp]: "d < 10 \<Longrightarrow> digit_val (digit_char d) = Some d"
  by (simp add: digit_val_def digit_char_def Let_def)

lemma parse_digits_append:
  "parse_digits acc (s @ t) =
     (case parse_digits acc s of None \<Rightarrow> None | Some a \<Rightarrow> parse_digits a t)"
  by (induction acc s rule: parse_digits.induct) (auto split: option.splits)

lemma parse_digits_dec_of_nat: "parse_digits 0 (dec_of_nat n) = Some n"
proof (induction n rule: dec_of_nat.induct)
  case (1 n)
  show ?case
  proof (cases "n < 10")
    case True
    then show ?thesis by (simp add: dec_of_nat.simps[of n])
  next
    case False
    with 1 have "parse_digits 0 (dec_of_nat (n div 10)) = Some (n div 10)" by simp
    with False show ?thesis
      by (simp add: dec_of_nat.simps[of n] parse_digits_append)
  qed
qed

lemma dec_of_nat_digits: "c \<in> set (dec_of_nat n) \<Longrightarrow> digit_val c \<noteq> None"
proof (induction n rule: dec_of_nat.induct)
  case (1 n)
  then show ?case
    by (auto simp: dec_of_nat.simps[of n] split: if_splits)
qed

lemma dec_of_nat_nonempty [simp]: "dec_of_nat n \<noteq> []"
  by (subst dec_of_nat.simps) simp

lemma parse_nat_dec_of_nat: "parse_nat (dec_of_nat n) = Some n"
proof -
  obtain c r where s: "dec_of_nat n = c # r"
    by (cases "dec_of_nat n") auto
  then have "digit_val c \<noteq> None"
    using dec_of_nat_digits[of c n] by simp
  then have "c \<noteq> CHR ''+''"
    by (auto simp: digit_val_def Let_def split: if_splits)
  then show ?thesis
    using parse_digits_dec_of_nat[of n] by (simp add: parse_nat_def s)
qed

lemma parse_u64_dec_of_u64 [simp]: "parse_u64 (dec_of_u64 w) = Some w"
proof -
  have "unat w < 2 ^ 64"
    using unsigned_less[of w] by simp
  then show ?thesis
    by (simp add: parse_u64_def dec_of_u64_def parse_nat_dec_of_nat)
qed

lemma plain_dec_of_u64 [simp]: "plain_line (dec_of_u64 w)"
  using dec_of_nat_digits[of _ "unat w"]
  by (fastforce simp: plain_line_def dec_of_u64_def digit_val_def Let_def)

section \<open>UTF-8\<close>

text \<open>\<^verbatim>\<open>String::from_utf8\<close> checks well-formedness (Unicode table 3-7).\<close>

definition utf8_cont :: "u8 \<Rightarrow> bool" where
  "utf8_cont b \<longleftrightarrow> 0x80 \<le> b \<and> b \<le> 0xBF"

fun utf8_valid :: "bytes \<Rightarrow> bool" where
  "utf8_valid [] = True"
| "utf8_valid (a # s) =
     (if a \<le> 0x7F then utf8_valid s
      else if 0xC2 \<le> a \<and> a \<le> 0xDF then
        (case s of b # r \<Rightarrow> utf8_cont b \<and> utf8_valid r | _ \<Rightarrow> False)
      else if 0xE0 \<le> a \<and> a \<le> 0xEF then
        (case s of b # c # r \<Rightarrow>
            (if a = 0xE0 then 0xA0 \<le> b \<and> b \<le> 0xBF
             else if a = 0xED then 0x80 \<le> b \<and> b \<le> 0x9F
             else utf8_cont b) \<and> utf8_cont c \<and> utf8_valid r
         | _ \<Rightarrow> False)
      else if 0xF0 \<le> a \<and> a \<le> 0xF4 then
        (case s of b # c # d # r \<Rightarrow>
            (if a = 0xF0 then 0x90 \<le> b \<and> b \<le> 0xBF
             else if a = 0xF4 then 0x80 \<le> b \<and> b \<le> 0x8F
             else utf8_cont b) \<and> utf8_cont c \<and> utf8_cont d \<and> utf8_valid r
         | _ \<Rightarrow> False)
      else False)"

definition bytes_of_str :: "string \<Rightarrow> bytes" where
  "bytes_of_str s = map (\<lambda>c. word_of_nat (of_char c)) s"

definition str_of_bytes :: "bytes \<Rightarrow> string" where
  "str_of_bytes bs = map (\<lambda>b. char_of (unat b)) bs"

definition from_utf8 :: "bytes \<Rightarrow> string option" where
  "from_utf8 bs = (if utf8_valid bs then Some (str_of_bytes bs) else None)"

definition ascii_str :: "string \<Rightarrow> bool" where
  "ascii_str s \<longleftrightarrow> (\<forall>c \<in> set s. (of_char c :: nat) < 128)"

lemma str_of_bytes_of_str [simp]: "str_of_bytes (bytes_of_str s) = s"
proof -
  have "unat (word_of_nat (of_char c) :: u8) = of_char c" for c
    by (simp add: unat_of_nat of_char_mod_256)
  then show ?thesis
    by (simp add: str_of_bytes_def bytes_of_str_def comp_def)
qed

lemma bytes_of_str_of_bytes [simp]: "bytes_of_str (str_of_bytes bs) = bs"
proof -
  have "word_of_nat (of_char (char_of (unat b) :: char)) = b" for b :: u8
  proof -
    have "unat b < 256"
      using unsigned_less[of b] by simp
    then show ?thesis by simp
  qed
  then show ?thesis
    by (simp add: str_of_bytes_def bytes_of_str_def comp_def)
qed

lemma bytes_of_str_append [simp]: "bytes_of_str (s @ t) = bytes_of_str s @ bytes_of_str t"
  by (simp add: bytes_of_str_def)

lemma length_bytes_of_str [simp]: "length (bytes_of_str s) = length s"
  by (simp add: bytes_of_str_def)

lemma bytes_of_str_inj: "bytes_of_str s = bytes_of_str t \<longleftrightarrow> s = t"
  by (metis str_of_bytes_of_str)

lemma utf8_valid_ascii: "(\<And>b. b \<in> set bs \<Longrightarrow> b \<le> 0x7F) \<Longrightarrow> utf8_valid bs"
  by (induction bs) auto

lemma ascii_byte: "(of_char c :: nat) < 128 \<Longrightarrow> (word_of_nat (of_char c) :: u8) \<le> 0x7F"
  by (simp add: word_le_nat_alt unat_of_nat)

lemma from_utf8_ascii [simp]: "ascii_str s \<Longrightarrow> from_utf8 (bytes_of_str s) = Some s"
proof -
  assume "ascii_str s"
  then have "utf8_valid (bytes_of_str s)"
    by (intro utf8_valid_ascii) (auto simp: ascii_str_def bytes_of_str_def intro: ascii_byte)
  then show ?thesis by (simp add: from_utf8_def)
qed

lemma from_utf8_SomeD: "from_utf8 bs = Some s \<Longrightarrow> bs = bytes_of_str s"
  by (auto simp: from_utf8_def split: if_splits)

text \<open>
  \<^verbatim>\<open>String::from_utf8_lossy\<close>: every maximal part that starts no character becomes U+FFFD.
  \<open>utf8_step\<close> is the length of the first character, or of the first ill-formed part.
\<close>

definition utf8_second :: "u8 \<Rightarrow> u8 \<Rightarrow> bool" where
  "utf8_second a b =
     (if a = 0xE0 then 0xA0 \<le> b \<and> b \<le> 0xBF
      else if a = 0xED then 0x80 \<le> b \<and> b \<le> 0x9F
      else if a = 0xF0 then 0x90 \<le> b \<and> b \<le> 0xBF
      else if a = 0xF4 then 0x80 \<le> b \<and> b \<le> 0x8F
      else utf8_cont b)"

definition utf8_step :: "u8 \<Rightarrow> bytes \<Rightarrow> nat \<times> bool" where
  "utf8_step a s =
     (let ok2 = (case s of b # _ \<Rightarrow> utf8_second a b | _ \<Rightarrow> False);
          ok3 = (case s of _ # c # _ \<Rightarrow> utf8_cont c | _ \<Rightarrow> False);
          ok4 = (case s of _ # _ # d # _ \<Rightarrow> utf8_cont d | _ \<Rightarrow> False)
      in if a \<le> 0x7F then (1, True)
         else if \<not> (0xC2 \<le> a \<and> a \<le> 0xF4) \<or> \<not> ok2 then (1, False)
         else if a \<le> 0xDF then (2, True)
         else if \<not> ok3 then (2, False)
         else if a \<le> 0xEF then (3, True)
         else if \<not> ok4 then (3, False) else (4, True))"

lemma utf8_step_pos: "0 < fst (utf8_step a s)"
  by (simp add: utf8_step_def Let_def)

function utf8_lossy :: "bytes \<Rightarrow> bytes" where
  "utf8_lossy [] = []"
| "utf8_lossy (a # s) =
     (case utf8_step a s of
        (n, True) \<Rightarrow> take n (a # s) @ utf8_lossy (drop n (a # s))
      | (n, False) \<Rightarrow> [0xEF, 0xBF, 0xBD] @ utf8_lossy (drop n (a # s)))"
  by pat_completeness auto
termination
proof (relation "measure length")
  fix a :: u8 and s n b
  assume "(n, b) = utf8_step a s"
  then have "0 < n" using utf8_step_pos[of a s] by (metis fst_conv)
  then show "(drop n (a # s), a # s) \<in> measure length" by simp
next
  fix a :: u8 and s n b
  assume "(n, b) = utf8_step a s"
  then have "0 < n" using utf8_step_pos[of a s] by (metis fst_conv)
  then show "(drop n (a # s), a # s) \<in> measure length" by simp
qed simp

definition from_utf8_lossy :: "bytes \<Rightarrow> string" where
  "from_utf8_lossy bs = str_of_bytes (utf8_lossy bs)"

lemma utf8_valid_step:
  assumes "utf8_valid (a # s)"
  obtains n where "utf8_step a s = (n, True)" "utf8_valid (drop n (a # s))"
proof -
  consider "a \<le> 0x7F" | "\<not> a \<le> 0x7F" "0xC2 \<le> a \<and> a \<le> 0xDF"
    | "\<not> a \<le> 0x7F" "\<not> (0xC2 \<le> a \<and> a \<le> 0xDF)" "0xE0 \<le> a \<and> a \<le> 0xEF"
    | "\<not> a \<le> 0x7F" "\<not> (0xC2 \<le> a \<and> a \<le> 0xDF)" "\<not> (0xE0 \<le> a \<and> a \<le> 0xEF)" "0xF0 \<le> a \<and> a \<le> 0xF4"
    using assms by (simp only: utf8_valid.simps) argo
  then show thesis
  proof cases
    case 1
    then show ?thesis using that[of 1] assms by (simp add: utf8_step_def)
  next
    case 2
    then obtain b r where s: "s = b # r" "utf8_cont b" "utf8_valid r"
      using assms by (cases s) auto
    from 2 have "a \<le> 0xF4" by (auto simp: word_le_nat_alt)
    moreover have "utf8_second a b" using 2 s(2) by (auto simp: utf8_second_def)
    ultimately show ?thesis using 2 s that[of 2] by (simp add: utf8_step_def)
  next
    case 3
    then have "a \<noteq> 0xF0" "a \<noteq> 0xF4" by auto
    with 3 obtain b c r where s: "s = b # c # r" "utf8_second a b" "utf8_cont c" "utf8_valid r"
      using assms by (cases s; cases "tl s") (auto simp: utf8_second_def split: if_splits)
    from 3 have "a \<le> 0xF4" "0xC2 \<le> a" "\<not> a \<le> 0xDF" by (auto simp: word_le_nat_alt)
    with 3 s show ?thesis using that[of 3] by (simp add: utf8_step_def)
  next
    case 4
    then have "a \<noteq> 0xE0" "a \<noteq> 0xED" by auto
    with 4 obtain b c d r where s: "s = b # c # d # r" "utf8_second a b" "utf8_cont c" "utf8_cont d" "utf8_valid r"
      using assms by (cases s; cases "tl s"; cases "tl (tl s)") (auto simp: utf8_second_def split: if_splits)
    from 4 have "0xC2 \<le> a" "\<not> a \<le> 0xDF" "\<not> a \<le> 0xEF" by (auto simp: word_le_nat_alt)
    with 4 s show ?thesis using that[of 4] by (simp add: utf8_step_def)
  qed
qed

lemma utf8_lossy_valid: "utf8_valid bs \<Longrightarrow> utf8_lossy bs = bs"
proof (induction bs rule: utf8_lossy.induct)
  case (2 a s)
  then obtain n where n: "utf8_step a s = (n, True)" and v: "utf8_valid (drop n (a # s))"
    by (metis utf8_valid_step)
  have "utf8_lossy (drop n (a # s)) = drop n (a # s)"
    by (rule "2.IH"(1)[OF n[symmetric] refl v])
  with n show ?case by simp
qed simp

lemma from_utf8_lossy_valid: "from_utf8 bs = Some s \<Longrightarrow> from_utf8_lossy bs = s"
  by (auto simp: from_utf8_def from_utf8_lossy_def utf8_lossy_valid split: if_splits)

end
