(* ===== verification/Tcfs_Fs.thy ===== *)
theory Tcfs_Fs
  imports Tcfs_Prelude "HOL-Library.Sublist"
begin

text \<open>
  The parts of \<^verbatim>\<open>std::path\<close> and \<^verbatim>\<open>std::fs\<close> the crates use. A path is its list of components
  (\<^verbatim>\<open>Path\<close> compares by components); the file system maps paths to files and directories and
  carries the faults of the environment: which operation fails on which path, and what a failed
  write leaves behind. File names are taken to be UTF-8, so \<^verbatim>\<open>to_string_lossy\<close> of a path is its
  text. Reading the clock (\<^verbatim>\<open>SystemTime::now\<close>) is a field of the same record.
\<close>

section \<open>Paths\<close>

record path =
  p_abs :: bool
  p_comps :: "string list"

definition path_of :: "string \<Rightarrow> path" where
  "path_of s =
     (let ab = starts_with ''/'' s; raw = split_on slash s;
          lead = (if \<not> ab \<and> take 1 raw = [''.''] then [''.''] else [])
      in \<lparr>p_abs = ab, p_comps = lead @ filter (\<lambda>c. c \<noteq> [] \<and> c \<noteq> ''.'') raw\<rparr>)"

fun intercalate_slash :: "string list \<Rightarrow> string" where
  "intercalate_slash [] = []"
| "intercalate_slash [c] = c"
| "intercalate_slash (c # cs) = c @ slash # intercalate_slash cs"

definition path_str :: "path \<Rightarrow> string" where
  "path_str p = (if p_abs p then ''/'' else []) @ intercalate_slash (p_comps p)"

definition path_join :: "path \<Rightarrow> path \<Rightarrow> path" where
  "path_join p q =
     (if p_abs q then q
      else \<lparr>p_abs = p_abs p,
            p_comps = p_comps p @
              (if p_comps p = [] \<and> \<not> p_abs p then p_comps q
               else filter (\<lambda>c. c \<noteq> ''.'') (p_comps q))\<rparr>)"

text \<open>Joining one file name.\<close>

definition path_child :: "path \<Rightarrow> string \<Rightarrow> path" where
  "path_child d n = d\<lparr>p_comps := p_comps d @ [n]\<rparr>"

definition path_parent :: "path \<Rightarrow> path option" where
  "path_parent p = (if p_comps p = [] then None else Some (p\<lparr>p_comps := butlast (p_comps p)\<rparr>))"

definition file_name :: "path \<Rightarrow> string option" where
  "file_name p =
     (case rev (p_comps p) of
        [] \<Rightarrow> None
      | c # _ \<Rightarrow> if c = ''..'' \<or> c = ''.'' then None else Some c)"

text \<open>
  Splitting a file name at its last dot; a name whose only dot is the first character has no
  extension.
\<close>

definition rsplit_dot :: "string \<Rightarrow> string \<times> string option" where
  "rsplit_dot n =
     (case dropWhile (\<lambda>c. c \<noteq> CHR ''.'') (rev n) of
        [] \<Rightarrow> (n, None)
      | _ # r \<Rightarrow> if r = [] then (n, None)
                 else (rev r, Some (rev (takeWhile (\<lambda>c. c \<noteq> CHR ''.'') (rev n)))))"

definition extension :: "path \<Rightarrow> string option" where
  "extension p = Option.bind (file_name p) (\<lambda>n. snd (rsplit_dot n))"

definition file_stem :: "path \<Rightarrow> string option" where
  "file_stem p = map_option (\<lambda>n. fst (rsplit_dot n)) (file_name p)"

definition with_extension :: "path \<Rightarrow> string \<Rightarrow> path" where
  "with_extension p e =
     (case file_stem p of
        None \<Rightarrow> p
      | Some st \<Rightarrow> p\<lparr>p_comps := butlast (p_comps p) @ [if e = [] then st else st @ CHR ''.'' # e]\<rparr>)"

definition path_strip_prefix :: "path \<Rightarrow> path \<Rightarrow> path option" where
  "path_strip_prefix base p =
     (if p_abs base = p_abs p \<and> prefix (p_comps base) (p_comps p)
      then Some \<lparr>p_abs = False, p_comps = drop (length (p_comps base)) (p_comps p)\<rparr>
      else None)"

definition is_ancestor :: "path \<Rightarrow> path \<Rightarrow> bool" where
  "is_ancestor q p \<longleftrightarrow> p_abs q = p_abs p \<and> prefix (p_comps q) (p_comps p)"

lemma file_name_child [simp]: "p_comps (path_child d n) = p_comps d @ [n]"
  by (simp add: path_child_def)

lemma is_ancestor_refl [simp]: "is_ancestor p p"
  by (simp add: is_ancestor_def)

lemma rsplit_dot_append:
  "CHR ''.'' \<notin> set e \<Longrightarrow> st \<noteq> [] \<Longrightarrow> rsplit_dot (st @ CHR ''.'' # e) = (st, Some e)"
proof -
  assume e: "CHR ''.'' \<notin> set e" and st: "st \<noteq> []"
  have all: "\<And>x. x \<in> set (rev e) \<Longrightarrow> x \<noteq> CHR ''.''" using e by auto
  have "dropWhile (\<lambda>c. c \<noteq> CHR ''.'') (rev e @ CHR ''.'' # rev st) = CHR ''.'' # rev st"
    using all by (subst dropWhile_append2) auto
  moreover have "takeWhile (\<lambda>c. c \<noteq> CHR ''.'') (rev e @ CHR ''.'' # rev st) = rev e"
    using all by (subst takeWhile_append2) auto
  ultimately show ?thesis using st by (simp add: rsplit_dot_def)
qed

lemma path_parent_with_extension: "path_parent (with_extension p e) = path_parent p"
  by (auto simp: with_extension_def path_parent_def file_stem_def file_name_def
      split: option.splits list.splits if_splits)

text \<open>The scratch name of an atomic replacement differs from the file itself.\<close>

lemma with_extension_neq:
  assumes "CHR ''.'' \<notin> set e" and "e \<noteq> []" and "file_name p \<noteq> None" and "extension p \<noteq> Some e"
  shows "with_extension p e \<noteq> p"
proof
  assume eq: "with_extension p e = p"
  obtain c cs where rc: "rev (p_comps p) = c # cs" and c: "c \<noteq> ''..''" "c \<noteq> ''.''"
    and fn: "file_name p = Some c"
    using assms(3) by (auto simp: file_name_def split: list.splits if_splits)
  have last: "p_comps p = rev cs @ [c]"
    using rc by (metis rev.simps(2) rev_rev_ident)
  have "p_comps (with_extension p e) = p_comps p"
    by (simp only: eq)
  then have split: "c = fst (rsplit_dot c) @ CHR ''.'' # e"
    using assms(2) by (simp add: with_extension_def file_stem_def fn last)
  have "fst (rsplit_dot c) \<noteq> []"
    using c split by (auto simp: rsplit_dot_def split: list.splits)
  with split have "snd (rsplit_dot c) = Some e"
    by (metis assms(1) rsplit_dot_append snd_conv)
  then show False
    using assms(4) by (simp add: extension_def fn)
qed

section \<open>The file system\<close>

datatype fs_op = OpStat | OpRead | OpWrite | OpRename | OpMkdir | OpRemove | OpReadDir | OpCreate

record fnode =
  f_data :: bytes
  f_mtime :: "int option"

record fs =
  files :: "path \<Rightarrow> fnode option"
  dirs :: "path \<Rightarrow> bool"
  dirmeta :: "path \<Rightarrow> u64 \<times> int option"
  canon :: "path \<Rightarrow> path option"
  fault :: "fs_op \<Rightarrow> path \<Rightarrow> bool"
  torn :: "path \<Rightarrow> fnode option"
  mclock :: "int option"
  fs_now :: u64

definition u64_len :: "'a list \<Rightarrow> u64" where
  "u64_len xs = word_of_nat (length xs)"

definition fs_metadata :: "fs \<Rightarrow> path \<Rightarrow> (u64 \<times> int option) res" where
  "fs_metadata f p =
     (if fault f OpStat p then Err (EIo ''stat'' (path_str p))
      else (case files f p of
              Some x \<Rightarrow> Ok (u64_len (f_data x), f_mtime x)
            | None \<Rightarrow> if dirs f p then Ok (dirmeta f p) else Err (EIo ''stat'' (path_str p))))"

text \<open>Modification time in seconds; unreported and pre-epoch times count as zero.\<close>

definition mtime_secs :: "int option \<Rightarrow> u64" where
  "mtime_secs m = (case m of None \<Rightarrow> 0 | Some t \<Rightarrow> if t < 0 then 0 else word_of_int t)"

definition fs_exists :: "fs \<Rightarrow> path \<Rightarrow> bool" where
  "fs_exists f p \<longleftrightarrow> \<not> fault f OpStat p \<and> (files f p \<noteq> None \<or> dirs f p)"

definition fs_is_file :: "fs \<Rightarrow> path \<Rightarrow> bool" where
  "fs_is_file f p \<longleftrightarrow> \<not> fault f OpStat p \<and> files f p \<noteq> None"

definition fs_is_dir :: "fs \<Rightarrow> path \<Rightarrow> bool" where
  "fs_is_dir f p \<longleftrightarrow> \<not> fault f OpStat p \<and> files f p = None \<and> dirs f p"

text \<open>\<^verbatim>\<open>canonicalize\<close> resolves links and fails on what does not exist.\<close>

definition fs_canonicalize :: "fs \<Rightarrow> path \<Rightarrow> path option" where
  "fs_canonicalize f p = (if files f p \<noteq> None \<or> dirs f p then canon f p else None)"

definition fs_read :: "fs \<Rightarrow> path \<Rightarrow> bytes res" where
  "fs_read f p =
     (if fault f OpRead p then Err (EIo ''read'' (path_str p))
      else (case files f p of
              None \<Rightarrow> Err (EIo ''read'' (path_str p))
            | Some x \<Rightarrow> Ok (f_data x)))"

definition fs_write :: "fs \<Rightarrow> path \<Rightarrow> bytes \<Rightarrow> unit res \<times> fs" where
  "fs_write f p d =
     (if dirs f p \<or> (case path_parent p of None \<Rightarrow> True | Some q \<Rightarrow> \<not> dirs f q)
      then (Err (EIo ''write'' (path_str p)), f)
      else if fault f OpWrite p
      then (Err (EIo ''write'' (path_str p)), f\<lparr>files := (files f)(p := torn f p)\<rparr>)
      else (Ok (), f\<lparr>files := (files f)(p := Some \<lparr>f_data = d, f_mtime = mclock f\<rparr>)\<rparr>))"

definition fs_rename :: "fs \<Rightarrow> path \<Rightarrow> path \<Rightarrow> unit res \<times> fs" where
  "fs_rename f a b =
     (if fault f OpRename a \<or> dirs f b
         \<or> (case path_parent b of None \<Rightarrow> True | Some q \<Rightarrow> \<not> dirs f q)
      then (Err (EIo ''rename'' (path_str b)), f)
      else (case files f a of
              None \<Rightarrow> (Err (EIo ''rename'' (path_str b)), f)
            | Some x \<Rightarrow> (Ok (), f\<lparr>files := ((files f)(a := None))(b := Some x)\<rparr>)))"

definition fs_remove_file :: "fs \<Rightarrow> path \<Rightarrow> unit res \<times> fs" where
  "fs_remove_file f p =
     (if fault f OpRemove p \<or> files f p = None
      then (Err (EIo ''remove'' (path_str p)), f)
      else (Ok (), f\<lparr>files := (files f)(p := None)\<rparr>))"

text \<open>\<^verbatim>\<open>fs::copy\<close>: the content of a readable file, written to the target.\<close>

definition fs_copy :: "fs \<Rightarrow> path \<Rightarrow> path \<Rightarrow> unit res \<times> fs" where
  "fs_copy f a b = (case fs_read f a of Inl e \<Rightarrow> (Inl e, f) | Inr d \<Rightarrow> fs_write f b d)"

text \<open>
  \<^verbatim>\<open>create_dir_all\<close> fails when a proper prefix of the path, or the path itself, is a file. The
  directories a failing call may have created on the way are not observable by the callers and
  are left out.
\<close>

definition ancestors :: "path \<Rightarrow> path list" where
  "ancestors p = map (\<lambda>n. p\<lparr>p_comps := take n (p_comps p)\<rparr>) [0..<Suc (length (p_comps p))]"

definition fs_create_dir_all :: "fs \<Rightarrow> path \<Rightarrow> unit res \<times> fs" where
  "fs_create_dir_all f p =
     (if fault f OpMkdir p \<or> list_ex (\<lambda>q. files f q \<noteq> None) (ancestors p)
      then (Err (EIo ''mkdir'' (path_str p)), f)
      else (Ok (), f\<lparr>dirs := (\<lambda>q. dirs f q \<or> is_ancestor q p)\<rparr>))"

text \<open>
  The idiom \<^verbatim>\<open>if let Some(parent) = p.parent() { create_dir_all(parent)? }\<close>, and a replacement
  of a file through a scratch file: write, then rename over the target.
\<close>

definition fs_ensure_parent :: "fs \<Rightarrow> path \<Rightarrow> unit res \<times> fs" where
  "fs_ensure_parent f p =
     (case path_parent p of None \<Rightarrow> (Ok (), f) | Some q \<Rightarrow> fs_create_dir_all f q)"

definition fs_replace :: "fs \<Rightarrow> path \<Rightarrow> path \<Rightarrow> bytes \<Rightarrow> unit res \<times> fs" where
  "fs_replace f tmp p d =
     (case fs_write f tmp d of
        (Inl e, f') \<Rightarrow> (Inl e, f')
      | (Inr _, f') \<Rightarrow> fs_rename f' tmp p)"

lemma ensure_parent_files [io_simps]: "files (snd (fs_ensure_parent f p)) = files f"
  by (auto simp: fs_ensure_parent_def fs_create_dir_all_def split: option.splits)

lemma ensure_parent_env [io_simps]:
  "fault (snd (fs_ensure_parent f p)) = fault f"
  "canon (snd (fs_ensure_parent f p)) = canon f"
  "mclock (snd (fs_ensure_parent f p)) = mclock f"
  "fs_now (snd (fs_ensure_parent f p)) = fs_now f"
  by (auto simp: fs_ensure_parent_def fs_create_dir_all_def split: option.splits)

lemma ensure_parent_dir:
  "fst (fs_ensure_parent f p) = Inr u \<Longrightarrow> path_parent p = Some q \<Longrightarrow> dirs (snd (fs_ensure_parent f p)) q"
  by (auto simp: fs_ensure_parent_def fs_create_dir_all_def split: if_splits)

lemma ensure_parent_keeps_dir:
  assumes "path_parent q = path_parent q'" and "path_parent q' \<noteq> None" and "path_parent q \<noteq> None"
  shows "dirs (snd (fs_ensure_parent g q')) q = dirs g q"
proof -
  obtain par where par: "path_parent q = Some par" using assms(3) by auto
  then have "\<not> is_ancestor q par"
    by (cases "p_comps q") (auto simp: path_parent_def is_ancestor_def split: if_splits dest!: prefix_length_le)
  with par assms(1) show ?thesis
    by (auto simp: fs_ensure_parent_def fs_create_dir_all_def)
qed

lemma fs_write_env:
  "fs_write f p d = (r, f') \<Longrightarrow> fault f' = fault f \<and> canon f' = canon f \<and> dirs f' = dirs f \<and> fs_now f' = fs_now f"
  by (auto simp: fs_write_def split: if_splits option.splits)

lemma fs_write_content:
  "fs_write f p d = (Inr u, f') \<Longrightarrow> files f' = (files f)(p := Some \<lparr>f_data = d, f_mtime = mclock f\<rparr>)"
  by (auto simp: fs_write_def split: if_splits option.splits)

lemma fs_write_frame: "fs_write f p d = (r, f') \<Longrightarrow> q \<noteq> p \<Longrightarrow> files f' q = files f q"
  by (auto simp: fs_write_def split: if_splits option.splits)

text \<open>An atomic replacement either installs the new content or leaves the target alone.\<close>

lemma fs_replace_ok:
  "fs_replace f tmp p d = (Inr u, f') \<Longrightarrow>
   files f' = ((files f)(tmp := None))(p := Some \<lparr>f_data = d, f_mtime = mclock f\<rparr>)"
  by (auto simp: fs_replace_def fs_write_def fs_rename_def split: if_splits option.splits)

lemma fs_replace_err:
  "fs_replace f tmp p d = (Inl e, f') \<Longrightarrow> q \<noteq> tmp \<Longrightarrow> files f' q = files f q"
  by (auto simp: fs_replace_def fs_write_def fs_rename_def split: if_splits option.splits)

lemma fs_replace_env:
  "fs_replace f tmp p d = (r, f') \<Longrightarrow>
   fault f' = fault f \<and> canon f' = canon f \<and> mclock f' = mclock f \<and> fs_now f' = fs_now f \<and> dirs f' = dirs f"
  by (auto simp: fs_replace_def fs_write_def fs_rename_def split: if_splits option.splits)

lemma fs_replace_succeeds:
  assumes "path_parent p = Some q" and "path_parent tmp = Some q" and "dirs f q"
    and "\<not> dirs f p" and "\<not> dirs f tmp"
    and "\<not> fault f OpWrite tmp" and "\<not> fault f OpRename tmp"
  shows "fst (fs_replace f tmp p d) = Inr ()"
  using assms by (simp add: fs_replace_def fs_write_def fs_rename_def)

end
