(* ===== verification/Hex_Codec.thy ===== *)
theory Hex_Codec
  imports Tcfs_Prelude
begin

text \<open>
  The private \<^verbatim>\<open>hex\<close> module of \<^verbatim>\<open>crates/tcfs-crypto/src/names.rs\<close>, and the interface every
  encode/decode pair of the program is held to (locale \<open>text_codec\<close>).
\<close>

locale text_codec =
  fixes enc :: "'a \<Rightarrow> 'b"
    and dec :: "'b \<Rightarrow> 'a res"
    and valid :: "'a \<Rightarrow> bool"
  assumes round_trip: "valid x \<Longrightarrow> dec (enc x) = Inr x"
begin

lemma enc_inj: "valid x \<Longrightarrow> valid y \<Longrightarrow> enc x = enc y \<longleftrightarrow> x = y"
  using round_trip by (metis sum.inject(2))

lemma reencode_stable: "dec y = Inr x \<Longrightarrow> valid x \<Longrightarrow> dec (enc x) = dec y"
  by (simp add: round_trip)

end

section \<open>Model\<close>

definition hex_char :: "nat \<Rightarrow> char" where
  "hex_char n = (if n < 10 then char_of (48 + n) else char_of (87 + n))"

text \<open>\<^verbatim>\<open>format!("{:02x}", byte)\<close>\<close>

definition hex_byte :: "u8 \<Rightarrow> string" where
  "hex_byte b = [hex_char (unat b div 16), hex_char (unat b mod 16)]"

fun hex_encode :: "bytes \<Rightarrow> string" where
  "hex_encode [] = []"
| "hex_encode (b # bs) = hex_byte b @ hex_encode bs"

definition hex_val :: "char \<Rightarrow> nat option" where
  "hex_val c =
     (let n = (of_char c :: nat)
      in if 48 \<le> n \<and> n \<le> 57 then Some (n - 48)
         else if 97 \<le> n \<and> n \<le> 102 then Some (n - 87)
         else if 65 \<le> n \<and> n \<le> 70 then Some (n - 55)
         else None)"

text \<open>
  \<^verbatim>\<open>u8::from_str_radix(s, 16)\<close> on the two bytes of a slice: a leading plus sign is accepted, a
  leading minus sign is an invalid digit.
\<close>

definition u8_from_hex :: "char \<Rightarrow> char \<Rightarrow> u8 option" where
  "u8_from_hex c d =
     (if c = CHR ''+'' then map_option word_of_nat (hex_val d)
      else (case (hex_val c, hex_val d) of
              (Some m, Some n) \<Rightarrow> Some (word_of_nat (16 * m + n))
            | _ \<Rightarrow> None))"

text \<open>A slice whose end falls inside a multi-byte character panics.\<close>

definition is_cont :: "char \<Rightarrow> bool" where
  "is_cont c \<longleftrightarrow> 128 \<le> (of_char c :: nat) \<and> (of_char c :: nat) < 192"

fun hex_decode_pairs :: "string \<Rightarrow> bytes res" where
  "hex_decode_pairs (c # d # r) =
     (if is_cont c \<or> (case r of [] \<Rightarrow> False | x # _ \<Rightarrow> is_cont x)
      then Err (EPanic ''str slice'')
      else (case u8_from_hex c d of
              None \<Rightarrow> Err (EParse ''invalid hex'' [c, d])
            | Some b \<Rightarrow> (case hex_decode_pairs r of Inl e \<Rightarrow> Inl e | Inr bs \<Rightarrow> Ok (b # bs))))"
| "hex_decode_pairs _ = Ok []"

definition hex_decode :: "string \<Rightarrow> bytes res" where
  "hex_decode s =
     (if length s mod 2 \<noteq> 0 then Err (EParse ''odd-length hex string'' s) else hex_decode_pairs s)"

section \<open>Round trip\<close>

lemma hex_char_code: "n < 16 \<Longrightarrow> (of_char (hex_char n) :: nat) = (if n < 10 then 48 + n else 87 + n)"
  by (simp add: hex_char_def)

lemma hex_val_hex_char [simp]: "n < 16 \<Longrightarrow> hex_val (hex_char n) = Some n"
  by (simp add: hex_val_def hex_char_code Let_def)

lemma hex_char_not_cont [simp]: "n < 16 \<Longrightarrow> \<not> is_cont (hex_char n)"
  by (simp add: is_cont_def hex_char_code)

lemma hex_char_not_plus [simp]: "n < 16 \<Longrightarrow> hex_char n \<noteq> CHR ''+''"
  using hex_char_code[of n] by (auto split: if_splits)

lemma u8_nibbles: "unat (b :: u8) div 16 < 16"
proof -
  have "unat b < 256" using unsigned_less[of b] by simp
  then show ?thesis by auto
qed

lemma u8_from_hex_byte: "u8_from_hex (hex_char (unat b div 16)) (hex_char (unat b mod 16)) = Some b"
  using u8_nibbles[of b] by (simp add: u8_from_hex_def)

lemma hex_encode_hd: "hex_encode bs = x # r \<Longrightarrow> \<not> is_cont x"
  using u8_nibbles by (cases bs) (auto simp: hex_byte_def)

lemma length_hex_encode [simp]: "length (hex_encode bs) = 2 * length bs"
  by (induction bs) (simp_all add: hex_byte_def)

lemma hex_decode_pairs_encode: "hex_decode_pairs (hex_encode bs) = Inr bs"
proof (induction bs)
  case (Cons b bs)
  then show ?case
    using u8_nibbles[of b] hex_encode_hd[of bs]
    by (auto simp: hex_byte_def u8_from_hex_byte split: list.splits)
qed simp

interpretation hex: text_codec hex_encode hex_decode "\<lambda>_. True"
  by unfold_locales (simp add: hex_decode_def hex_decode_pairs_encode)

definition hex_digit :: "char \<Rightarrow> bool" where
  "hex_digit c \<longleftrightarrow> c \<in> set ''0123456789abcdef''"

lemma hex_digit_char: "n < 16 \<Longrightarrow> hex_digit (hex_char n)"
proof -
  have "list_all (\<lambda>n. hex_digit (hex_char n)) [0..<16]" by code_simp
  then show "n < 16 \<Longrightarrow> hex_digit (hex_char n)" by (simp only: list_all_iff set_upt) simp
qed

lemma hex_encode_digits: "list_all hex_digit (hex_encode bs)"
  using u8_nibbles by (induction bs) (simp_all add: hex_byte_def hex_digit_char)

text \<open>
  Hexadecimal encoding of encrypted names is reversible and injective, doubles the
  length, and the decoder also accepts text the encoder never writes: a plus sign in the first
  place of a pair (so \<^verbatim>\<open>+f\<close> decodes to the byte 15).
\<close>

theorem hex_round_trip:
  "hex_decode (hex_encode bs) = Inr bs \<and>
   (hex_encode bs = hex_encode bs' \<longleftrightarrow> bs = bs') \<and>
   length (hex_encode bs) = 2 * length bs \<and>
   hex_decode ''+f'' = Inr [15]"
proof -
  have "hex_decode ''+f'' = Inr [15]" by code_simp
  then show ?thesis
    using hex.round_trip hex.enc_inj by simp
qed

end
