(* ===== verification/Object_Store.thy ===== *)
theory Object_Store
  imports Tcfs_Fs Hex_Codec
begin

text \<open>
  Interfaces of third-party code the crates call: the OpenDAL \<^verbatim>\<open>Operator\<close> over the S3 bucket
  and the BLAKE3 implementation. They are parameters of the model, records of functions; what
  the code relies on is stated by \<open>store_laws\<close> and \<open>hasher_laws\<close>. The in-memory instances at the
  end show that the laws can hold.
\<close>

record 's operator =
  op_read :: "'s \<Rightarrow> string \<Rightarrow> bytes res"
  op_write :: "'s \<Rightarrow> string \<Rightarrow> bytes \<Rightarrow> unit res \<times> 's"
  op_exists :: "'s \<Rightarrow> string \<Rightarrow> bool res"
  op_list :: "'s \<Rightarrow> string \<Rightarrow> string list res"

text \<open>
  A successful write is visible to the next read and to \<open>exists\<close>; a write, successful or not,
  touches only its own key; and object writes are atomic: one that reports an error either had no
  effect or has stored the whole object.
\<close>

definition store_laws :: "'s operator \<Rightarrow> bool" where
  "store_laws opr \<longleftrightarrow>
     (\<forall>s k d u s'. op_write opr s k d = (Inr u, s') \<longrightarrow>
        op_read opr s' k = Inr d \<and> op_exists opr s' k = Inr True) \<and>
     (\<forall>s k d r s' k'. op_write opr s k d = (r, s') \<longrightarrow> k' \<noteq> k \<longrightarrow>
        op_read opr s' k' = op_read opr s k' \<and> op_exists opr s' k' = op_exists opr s k') \<and>
     (\<forall>s k d e s'. op_write opr s k d = (Inl e, s') \<longrightarrow>
        (op_read opr s' k = op_read opr s k \<and> op_exists opr s' k = op_exists opr s k) \<or>
        (op_read opr s' k = Inr d \<and> op_exists opr s' k = Inr True))"

lemma store_write_read:
  "store_laws opr \<Longrightarrow> op_write opr s k d = (Inr u, s') \<Longrightarrow> op_read opr s' k = Inr d"
  by (auto simp: store_laws_def)

lemma store_write_exists:
  "store_laws opr \<Longrightarrow> op_write opr s k d = (Inr u, s') \<Longrightarrow> op_exists opr s' k = Inr True"
  by (auto simp: store_laws_def)

lemma store_write_frame:
  "store_laws opr \<Longrightarrow> op_write opr s k d = (r, s') \<Longrightarrow> k' \<noteq> k \<Longrightarrow> op_read opr s' k' = op_read opr s k'"
  by (auto simp: store_laws_def)

lemma store_write_frame_exists:
  "store_laws opr \<Longrightarrow> op_write opr s k d = (r, s') \<Longrightarrow> k' \<noteq> k \<Longrightarrow>
   op_exists opr s' k' = op_exists opr s k'"
  by (auto simp: store_laws_def)

lemma store_write_atomic:
  assumes "store_laws opr" and "op_write opr s k d = (r, s')"
  shows "(op_read opr s' k = op_read opr s k \<and> op_exists opr s' k = op_exists opr s k) \<or>
         (op_read opr s' k = Inr d \<and> op_exists opr s' k = Inr True)"
  using assms by (cases r) (auto simp: store_laws_def)

text \<open>\<^verbatim>\<open>op.exists(k).await.unwrap_or(false)\<close>\<close>

definition exists_or_false :: "'s operator \<Rightarrow> 's \<Rightarrow> string \<Rightarrow> bool" where
  "exists_or_false opr s k = (case op_exists opr s k of Inl _ \<Rightarrow> False | Inr b \<Rightarrow> b)"

record hasher =
  h_hash :: "bytes \<Rightarrow> bytes"
  h_to_hex :: "bytes \<Rightarrow> string"
  h_from_hex :: "string \<Rightarrow> bytes option"

definition hasher_laws :: "hasher \<Rightarrow> bool" where
  "hasher_laws H \<longleftrightarrow>
     (\<forall>d. length (h_hash H d) = 32) \<and>
     (\<forall>x. length x = 32 \<longrightarrow>
        h_from_hex H (h_to_hex H x) = Some x \<and>
        length (h_to_hex H x) = 64 \<and> list_all hex_digit (h_to_hex H x))"

lemma hasher_hash_length: "hasher_laws H \<Longrightarrow> length (h_hash H d) = 32"
  by (simp add: hasher_laws_def)

lemma hasher_hex_length: "hasher_laws H \<Longrightarrow> length (h_to_hex H (h_hash H d)) = 64"
  by (simp add: hasher_laws_def)

lemma hasher_hex_digits: "hasher_laws H \<Longrightarrow> list_all hex_digit (h_to_hex H (h_hash H d))"
  by (simp add: hasher_laws_def)

lemma hasher_hex_inj:
  "hasher_laws H \<Longrightarrow> h_to_hex H (h_hash H a) = h_to_hex H (h_hash H b) \<longleftrightarrow> h_hash H a = h_hash H b"
  by (metis hasher_laws_def option.inject)

lemma not_hex_digit: "\<not> hex_digit slash" "\<not> hex_digit nl" "\<not> hex_digit cr"
  by (simp_all add: hex_digit_def)

lemma hex_no_slash: "list_all hex_digit s \<Longrightarrow> slash \<notin> set s"
  using not_hex_digit unfolding list_all_iff by blast

lemma hex_plain: "list_all hex_digit s \<Longrightarrow> plain_line s"
  using not_hex_digit unfolding list_all_iff plain_line_def by blast

section \<open>In-memory instances\<close>

definition mem_operator :: "(string \<Rightarrow> bytes option) operator" where
  "mem_operator =
     \<lparr>op_read = (\<lambda>s k. case s k of None \<Rightarrow> Err (EStorage ''read'' k) | Some d \<Rightarrow> Ok d),
      op_write = (\<lambda>s k d. (Ok (), s(k := Some d))),
      op_exists = (\<lambda>s k. Ok (s k \<noteq> None)),
      op_list = (\<lambda>s p. Ok [])\<rparr>"

lemma mem_operator_laws: "store_laws mem_operator"
  by (simp add: store_laws_def mem_operator_def)

text \<open>A digest that holds data of at most 31 bytes in full: the data padded, and its length.\<close>

definition toy_hasher :: hasher where
  "toy_hasher =
     \<lparr>h_hash = (\<lambda>d. take 31 (d @ replicate 31 0) @ [word_of_nat (length d)]),
      h_to_hex = hex_encode,
      h_from_hex = (\<lambda>s. case hex_decode s of Inl _ \<Rightarrow> None | Inr b \<Rightarrow> Some b)\<rparr>"

lemma toy_hasher_laws: "hasher_laws toy_hasher"
  by (auto simp: hasher_laws_def toy_hasher_def hex.round_trip hex_encode_digits)

lemma toy_hash_inj:
  assumes "length a \<le> 31" and "length b \<le> 31" and "h_hash toy_hasher a = h_hash toy_hasher b"
  shows "a = b"
proof -
  have len: "length a = length b"
  proof -
    have "(word_of_nat (length a) :: u8) = word_of_nat (length b)"
      using assms(3) by (simp add: toy_hasher_def)
    then have "unat (word_of_nat (length a) :: u8) = unat (word_of_nat (length b) :: u8)" by simp
    with assms(1,2) show ?thesis by (simp add: unat_of_nat)
  qed
  have "take 31 (a @ replicate 31 0) = take 31 (b @ replicate 31 0)"
    using assms(3) by (simp add: toy_hasher_def)
  then have "take (length a) (take 31 (a @ replicate 31 0)) =
             take (length a) (take 31 (b @ replicate 31 0))"
    by (rule arg_cong)
  with assms(1) len show ?thesis by (simp add: min_absorb1)
qed

end
