(* ===== verification/Content_Chunks.thy ===== *)
theory Content_Chunks
  imports Object_Store
begin

text \<open>
  \<^verbatim>\<open>crates/tcfs-chunks\<close>: BLAKE3 hashing (\<^verbatim>\<open>blake3.rs\<close>), content-defined chunking
  (\<^verbatim>\<open>fastcdc.rs\<close>) and the seekable zstd container (\<^verbatim>\<open>seekable_zstd.rs\<close>). The FastCDC cut-point
  search and the zstd codec are parameters; \<open>cdc_laws\<close> and \<open>zstd_laws\<close> state what they promise.
  Slices out of range are panics, written \<open>EPanic\<close>.
\<close>

section \<open>Hashing (blake3.rs)\<close>

definition hash_bytes :: "hasher \<Rightarrow> bytes \<Rightarrow> bytes" where
  "hash_bytes H d = h_hash H d"

definition hash_to_hex :: "hasher \<Rightarrow> bytes \<Rightarrow> string" where
  "hash_to_hex H h = h_to_hex H h"

definition hash_from_hex :: "hasher \<Rightarrow> string \<Rightarrow> bytes res" where
  "hash_from_hex H s = ok_or (EParse ''invalid BLAKE3 hex'' s) (h_from_hex H s)"

definition hash_file :: "hasher \<Rightarrow> fs \<Rightarrow> path \<Rightarrow> bytes res" where
  "hash_file H f p = (case fs_read f p of Inl e \<Rightarrow> Inl e | Inr d \<Rightarrow> Ok (hash_bytes H d))"

text \<open>
  The streaming variant reads buffers of at most 64 KiB; how much each \<^verbatim>\<open>read\<close> returns is up to the
  operating system (\<open>rd\<close>, at least one byte before the end of the file).
\<close>

function stream_loop ::
  "('h \<Rightarrow> bytes \<Rightarrow> 'h) \<Rightarrow> (nat \<Rightarrow> nat) \<Rightarrow> nat \<Rightarrow> 'h \<Rightarrow> bytes \<Rightarrow> 'h" where
  "stream_loop upd rd i h d =
     (if d = [] then h
      else let n = max 1 (min (64 * 1024) (rd i))
           in stream_loop upd rd (Suc i) (upd h (take n d)) (drop n d))"
  by pat_completeness auto
termination
  by (relation "measure (\<lambda>(upd, rd, i, h, d). length d)") auto

declare stream_loop.simps [simp del]

definition hash_file_streaming ::
  "'h \<Rightarrow> ('h \<Rightarrow> bytes \<Rightarrow> 'h) \<Rightarrow> ('h \<Rightarrow> bytes) \<Rightarrow> (nat \<Rightarrow> nat) \<Rightarrow> fs \<Rightarrow> path \<Rightarrow> bytes res" where
  "hash_file_streaming ini upd fin rd f p =
     (case fs_read f p of Inl e \<Rightarrow> Inl e | Inr d \<Rightarrow> Ok (fin (stream_loop upd rd 0 ini d)))"

section \<open>Content-defined chunking (fastcdc.rs)\<close>

record Chunk =
  ch_offset :: nat
  ch_length :: nat
  ch_hash :: bytes

record ChunkSizes =
  min_size :: u32
  avg_size :: u32
  max_size :: u32

definition SMALL :: ChunkSizes where
  "SMALL = \<lparr>min_size = 2 * 1024, avg_size = 4 * 1024, max_size = 16 * 1024\<rparr>"

definition PACK :: ChunkSizes where
  "PACK = \<lparr>min_size = 32 * 1024, avg_size = 64 * 1024, max_size = 256 * 1024\<rparr>"

definition for_path :: "path \<Rightarrow> ChunkSizes" where
  "for_path p =
     (case extension p of
        Some e \<Rightarrow> if e = ''pack'' \<or> e = ''bin'' \<or> e = ''iso'' \<or> e = ''img'' then PACK else SMALL
      | None \<Rightarrow> SMALL)"

text \<open>
  \<^verbatim>\<open>fastcdc::v2020::FastCDC::new\<close> followed by its iterator: the offsets and lengths of the cuts, or
  \<open>None\<close> when the constructor panics because a size is outside the bounds it asserts.
\<close>

type_synonym cdc = "bytes \<Rightarrow> u32 \<Rightarrow> u32 \<Rightarrow> u32 \<Rightarrow> (nat \<times> nat) list option"

text \<open>\<^verbatim>\<open>&data[o..o + l]\<close>\<close>

definition slice :: "bytes \<Rightarrow> nat \<Rightarrow> nat \<Rightarrow> bytes res" where
  "slice d off l = (if off + l \<le> length d then Ok (take l (drop off d)) else Err (EPanic ''slice''))"

fun map_res :: "('a \<Rightarrow> 'b res) \<Rightarrow> 'a list \<Rightarrow> 'b list res" where
  "map_res g [] = Ok []"
| "map_res g (x # xs) =
     (case g x of Inl e \<Rightarrow> Inl e
      | Inr y \<Rightarrow> (case map_res g xs of Inl e \<Rightarrow> Inl e | Inr ys \<Rightarrow> Ok (y # ys)))"

definition chunk_data :: "hasher \<Rightarrow> cdc \<Rightarrow> bytes \<Rightarrow> ChunkSizes \<Rightarrow> Chunk list res" where
  "chunk_data H cdc d sz =
     (if d = [] then Ok []
      else (case cdc d (min_size sz) (avg_size sz) (max_size sz) of
              None \<Rightarrow> Err (EPanic ''FastCDC::new'')
            | Some cuts \<Rightarrow>
                map_res (\<lambda>(off, l).
                  case slice d off l of
                    Inl e \<Rightarrow> Inl e
                  | Inr c \<Rightarrow> Ok \<lparr>ch_offset = off, ch_length = l, ch_hash = hash_bytes H c\<rparr>) cuts))"

definition chunk_file :: "hasher \<Rightarrow> cdc \<Rightarrow> fs \<Rightarrow> path \<Rightarrow> (Chunk list \<times> bytes) res" where
  "chunk_file H cdc f p =
     (case fs_read f p of
        Inl e \<Rightarrow> Inl e
      | Inr d \<Rightarrow> (case chunk_data H cdc d (for_path p) of
                   Inl e \<Rightarrow> Inl e | Inr cs \<Rightarrow> Ok (cs, d)))"

definition chunk_slice :: "hasher \<Rightarrow> cdc \<Rightarrow> bytes \<Rightarrow> ChunkSizes \<Rightarrow> Chunk list res" where
  "chunk_slice H cdc d sz = chunk_data H cdc d sz"

text \<open>
  What \<^verbatim>\<open>fastcdc\<close> documents. \<^verbatim>\<open>FastCDC::new\<close> asserts that each of the three sizes lies between the
  constants \<^verbatim>\<open>MINIMUM_MIN\<close> to \<^verbatim>\<open>MAXIMUM_MAX\<close> of the crate, and panics otherwise. With sizes in range
  the iterator yields chunks that follow each other without gap or overlap until the end of the
  data; unless the minimum exceeds the maximum, all but the last have at least the minimum size.
\<close>

definition cdc_range :: "u32 \<Rightarrow> u32 \<Rightarrow> u32 \<Rightarrow> bool" where
  "cdc_range mn av mx \<longleftrightarrow>
     64 \<le> mn \<and> mn \<le> 1048576 \<and> 256 \<le> av \<and> av \<le> 4194304 \<and> 1024 \<le> mx \<and> mx \<le> 16777216"

fun covers :: "nat \<Rightarrow> (nat \<times> nat) list \<Rightarrow> nat \<Rightarrow> bool" where
  "covers pos [] n = (pos = n)"
| "covers pos ((off, l) # r) n = (off = pos \<and> 0 < l \<and> covers (pos + l) r n)"

definition cdc_laws :: "cdc \<Rightarrow> bool" where
  "cdc_laws cdc \<longleftrightarrow>
     (\<forall>d mn av mx. d \<noteq> [] \<longrightarrow>
        (if cdc_range mn av mx
         then (\<exists>cuts. cdc d mn av mx = Some cuts \<and> covers 0 cuts (length d) \<and>
                 (mn \<le> mx \<longrightarrow> (\<forall>c \<in> set (butlast cuts). unat mn \<le> snd c)))
         else cdc d mn av mx = None))"

abbreviation sizes_ok :: "ChunkSizes \<Rightarrow> bool" where
  "sizes_ok sz \<equiv> cdc_range (min_size sz) (avg_size sz) (max_size sz)"

lemma for_path_sizes [simp]: "sizes_ok SMALL" "sizes_ok PACK" "sizes_ok (for_path p)"
proof -
  show "sizes_ok SMALL" "sizes_ok PACK" by (simp_all add: SMALL_def PACK_def cdc_range_def)
  then show "sizes_ok (for_path p)" by (simp add: for_path_def split: option.split)
qed

definition chunk_bytes_of :: "bytes \<Rightarrow> Chunk \<Rightarrow> bytes" where
  "chunk_bytes_of d c = take (ch_length c) (drop (ch_offset c) d)"

lemma covers_bound: "covers pos cs n \<Longrightarrow> pos \<le> n"
  by (induction pos cs n rule: covers.induct) auto

lemma slice_ok [simp]: "off + l \<le> length d \<Longrightarrow> slice d off l = Inr (take l (drop off d))"
  by (simp add: slice_def)

text \<open>The chunks of a cover, and that they reassemble the data.\<close>

definition mk_chunks :: "hasher \<Rightarrow> bytes \<Rightarrow> (nat \<times> nat) list \<Rightarrow> Chunk list" where
  "mk_chunks H d cuts =
     map (\<lambda>(off, l). \<lparr>ch_offset = off, ch_length = l, ch_hash = hash_bytes H (take l (drop off d))\<rparr>) cuts"

lemma mk_chunks_simps [simp]:
  "mk_chunks H d [] = []"
  "mk_chunks H d ((off, l) # r) =
     \<lparr>ch_offset = off, ch_length = l, ch_hash = hash_bytes H (take l (drop off d))\<rparr> # mk_chunks H d r"
  by (simp_all add: mk_chunks_def)

lemma map_res_chunks:
  "covers pos cuts (length d) \<Longrightarrow>
   map_res (\<lambda>(off, l).
      case slice d off l of
        Inl e \<Rightarrow> Inl e
      | Inr c \<Rightarrow> Ok \<lparr>ch_offset = off, ch_length = l, ch_hash = hash_bytes H c\<rparr>) cuts
   = Inr (mk_chunks H d cuts)"
  by (induction pos cuts "length d" rule: covers.induct)
    (auto dest: covers_bound)

lemma concat_mk_chunks:
  "covers pos cuts (length d) \<Longrightarrow> concat (map (chunk_bytes_of d) (mk_chunks H d cuts)) = drop pos d"
proof (induction pos cuts "length d" rule: covers.induct)
  case (2 pos off l r)
  then have "concat (map (chunk_bytes_of d) (mk_chunks H d r)) = drop (pos + l) d" by simp
  with 2 show ?case
    by (simp add: chunk_bytes_of_def) (metis add.commute append_take_drop_id drop_drop)
qed auto

lemma chunk_data_ok:
  assumes "cdc_laws cdc" and "sizes_ok sz"
  shows "\<exists>cuts. chunk_data H cdc d sz = Inr (mk_chunks H d cuts) \<and> covers 0 cuts (length d) \<and>
           (min_size sz \<le> max_size sz \<longrightarrow> (\<forall>c \<in> set (butlast cuts). unat (min_size sz) \<le> snd c))"
proof (cases "d = []")
  case True
  then show ?thesis
    by (intro exI[of _ "[]"]) (simp add: chunk_data_def mk_chunks_def)
next
  case False
  then obtain cuts where cuts: "cdc d (min_size sz) (avg_size sz) (max_size sz) = Some cuts" "covers 0 cuts (length d)"
      "min_size sz \<le> max_size sz \<longrightarrow> (\<forall>c \<in> set (butlast cuts). unat (min_size sz) \<le> snd c)"
    using assms(1)[unfolded cdc_laws_def, rule_format, OF False, of "min_size sz" "avg_size sz" "max_size sz"] assms(2) by auto
  with map_res_chunks[OF cuts(2), of H] False show ?thesis
    by (intro exI[of _ cuts]) (simp add: chunk_data_def)
qed

lemma mk_chunks_slices:
  "covers pos cuts (length d) \<Longrightarrow> c \<in> set (mk_chunks H d cuts) \<Longrightarrow>
   0 < ch_length c \<and> ch_offset c + ch_length c \<le> length d \<and>
   ch_hash c = hash_bytes H (chunk_bytes_of d c)"
proof (induction pos cuts "length d" rule: covers.induct)
  case (2 pos off l r)
  then have "pos + l \<le> length d" using covers_bound[of "pos + l" r "length d"] by simp
  with 2 show ?case by (auto simp: chunk_bytes_of_def)
qed simp

lemma mk_chunks_Nil_iff: "covers 0 cuts (length d) \<Longrightarrow> mk_chunks H d cuts = [] \<longleftrightarrow> d = []"
  by (cases cuts) (auto dest: covers_bound)

text \<open>Chunks of at least \<open>m\<close> bytes, up to the last one: how many there can be.\<close>

lemma covers_count:
  "covers pos cuts n \<Longrightarrow> \<forall>c \<in> set (butlast cuts). m \<le> snd c \<Longrightarrow> m * (length cuts - 1) \<le> n - pos"
proof (induction pos cuts n rule: covers.induct)
  case (2 pos off l r n)
  show ?case
  proof (cases r)
    case (Cons c cs)
    then have "m \<le> l" "m * (length r - 1) \<le> n - (pos + l)" "pos + l \<le> n"
      using 2 covers_bound[of "pos + l" r n] by simp_all
    moreover have "m * length r = m * (length r - 1) + m" using Cons by simp
    ultimately have "m * length r \<le> n - pos" by linarith
    then show ?thesis by simp
  qed simp
qed simp


text \<open>A chunker that satisfies the laws: it cuts whenever the maximum size is reached.\<close>

function cut_every :: "nat \<Rightarrow> nat \<Rightarrow> nat \<Rightarrow> (nat \<times> nat) list" where
  "cut_every pos n m =
     (if n = 0 \<or> m = 0 then [] else (pos, min m n) # cut_every (pos + min m n) (n - min m n) m)"
  by pat_completeness auto
termination
  by (relation "measure (\<lambda>(pos, n, m). n)") auto

declare cut_every.simps [simp del]

definition whole_cdc :: cdc where
  "whole_cdc d mn av mx =
     (if cdc_range mn av mx then Some (cut_every 0 (length d) (unat mx)) else None)"

lemma cut_every_props:
  "0 < m \<Longrightarrow> covers pos (cut_every pos n m) (pos + n) \<and>
     (\<forall>c \<in> set (butlast (cut_every pos n m)). snd c = m)"
proof (induction pos n m rule: cut_every.induct)
  case (1 pos n m)
  show ?case
  proof (cases "n = 0")
    case False
    note IH = 1(1)[OF _ 1(2)]
    have "n \<le> m \<Longrightarrow> cut_every (pos + n) 0 m = []" by (subst cut_every.simps) simp
    then show ?thesis
      using IH False 1(2) by (subst (1 2) cut_every.simps) (auto simp: min_def)
  qed (subst (1 2) cut_every.simps, simp)
qed

lemma whole_cdc_laws: "cdc_laws whole_cdc"
  unfolding cdc_laws_def
proof (intro allI impI)
  fix d mn av mx
  show "if cdc_range mn av mx
        then (\<exists>cuts. whole_cdc d mn av mx = Some cuts \<and> covers 0 cuts (length d) \<and>
                (mn \<le> mx \<longrightarrow> (\<forall>c \<in> set (butlast cuts). unat mn \<le> snd c)))
        else whole_cdc d mn av mx = None"
  proof (cases "cdc_range mn av mx")
    case True
    then have "0 < unat mx" by (auto simp: cdc_range_def word_le_nat_alt)
    with True cut_every_props[of "unat mx" 0 "length d"] show ?thesis
      by (simp add: whole_cdc_def word_le_nat_alt)
  qed (simp add: whole_cdc_def)
qed

lemma whole_cdc_short:
  "sizes_ok sz \<Longrightarrow> d \<noteq> [] \<Longrightarrow> length d \<le> unat (max_size sz) \<Longrightarrow>
   whole_cdc d (min_size sz) (avg_size sz) (max_size sz) = Some [(0, length d)]"
  by (auto simp: whole_cdc_def cdc_range_def word_le_nat_alt cut_every.simps)


definition incremental_laws :: "hasher \<Rightarrow> 'h \<Rightarrow> ('h \<Rightarrow> bytes \<Rightarrow> 'h) \<Rightarrow> ('h \<Rightarrow> bytes) \<Rightarrow> bool" where
  "incremental_laws H ini upd fin \<longleftrightarrow> (\<forall>ds. fin (foldl upd ini ds) = h_hash H (concat ds))"

lemma stream_loop_foldl: "\<exists>ds. stream_loop upd rd i h d = foldl upd h ds \<and> concat ds = d"
proof (induction upd rd i h d rule: stream_loop.induct)
  case (1 upd rd i h d)
  show ?case
  proof (cases "d = []")
    case True
    then show ?thesis by (intro exI[of _ "[]"]) (simp add: stream_loop.simps)
  next
    case False
    let ?n = "max 1 (min (64 * 1024) (rd i))"
    obtain ds where "stream_loop upd rd (Suc i) (upd h (take ?n d)) (drop ?n d) =
        foldl upd (upd h (take ?n d)) ds" and "concat ds = drop ?n d"
      using 1[OF False refl] by blast
    with False show ?thesis
      by (intro exI[of _ "take ?n d # ds"]) (simp add: stream_loop.simps[of upd rd i h d] Let_def)
  qed
qed

text \<open>
  The streaming hash of a file equals the in-memory hash whatever sizes the reads return, and
  both report the same read error.
\<close>

theorem hash_file_streaming_eq:
  assumes "incremental_laws H ini upd fin"
  shows "hash_file_streaming ini upd fin rd f p = hash_file H f p"
proof -
  have "fin (stream_loop upd rd 0 ini d) = h_hash H d" for d
    using stream_loop_foldl[of upd rd 0 ini d] assms
    by (auto simp: incremental_laws_def)
  then show ?thesis
    by (simp add: hash_file_streaming_def hash_file_def hash_bytes_def split: sum.split)
qed

definition one_file :: fs where
  "one_file = \<lparr>files = (\<lambda>q. if q = path_of ''/a'' then Some \<lparr>f_data = [1, 2], f_mtime = Some 5\<rparr> else None),
     dirs = (\<lambda>q. q = path_of ''/''), dirmeta = (\<lambda>_. (0, None)), canon = (\<lambda>q. Some q),
     fault = (\<lambda>_ _. False), torn = (\<lambda>_. None), mclock = Some 9, fs_now = 9\<rparr>"

theorem hash_file_streaming_eq_witness:
  "hash_file_streaming [] (@) (h_hash toy_hasher) (\<lambda>_. 1) one_file (path_of ''/a'') =
   hash_file toy_hasher one_file (path_of ''/a'')"
proof -
  have "foldl (@) h ds = h @ concat ds" for h :: bytes and ds
    by (induction ds arbitrary: h) simp_all
  then have "incremental_laws toy_hasher [] (@) (h_hash toy_hasher)"
    by (simp add: incremental_laws_def)
  then show ?thesis by (rule hash_file_streaming_eq)
qed

end
