(* ===== verification/Seekable_Zstd.thy ===== *)
theory Seekable_Zstd
  imports Content_Chunks
begin

text \<open>
  The seekable zstd container of \<^verbatim>\<open>crates/tcfs-chunks/src/seekable_zstd.rs\<close>: independent frames
  plus a seek table. The zstd codec is a parameter; \<open>zstd_laws\<close> says that decoding inverts
  encoding. Table entries keep the widths of the source (32-bit frame sizes, 64-bit offsets), so
  the casts truncate where the code's do.
\<close>

section \<open>Model\<close>

type_synonym zenc = "bytes \<Rightarrow> int \<Rightarrow> bytes res"
type_synonym zdec = "bytes \<Rightarrow> bytes res"

record SeekEntry =
  uncompressed_size :: u32
  compressed_size :: u32
  compressed_offset :: u64

record SeekableBlob =
  compressed :: bytes
  seek_table :: "SeekEntry list"

definition DEFAULT_FRAME_SIZE :: nat where
  "DEFAULT_FRAME_SIZE = 1024 * 1024"

definition blob_uncompressed_size :: "SeekableBlob \<Rightarrow> u64" where
  "blob_uncompressed_size b = sum_list (map (\<lambda>e. ucast (uncompressed_size e)) (seek_table b))"

definition frame_count :: "SeekableBlob \<Rightarrow> nat" where
  "frame_count b = length (seek_table b)"

text \<open>\<^verbatim>\<open>slice::chunks(n)\<close> for positive \<open>n\<close>.\<close>

function chunks_of :: "nat \<Rightarrow> bytes \<Rightarrow> bytes list" where
  "chunks_of n d = (if d = [] \<or> n = 0 then [] else take n d # chunks_of n (drop n d))"
  by pat_completeness auto
termination
  by (relation "measure (\<lambda>(n, d). length d)") auto

declare chunks_of.simps [simp del]

fun compress_loop ::
  "zenc \<Rightarrow> int \<Rightarrow> bytes \<Rightarrow> SeekEntry list \<Rightarrow> bytes list \<Rightarrow> SeekableBlob res" where
  "compress_loop ze lv acc tab [] = Ok \<lparr>compressed = acc, seek_table = tab\<rparr>"
| "compress_loop ze lv acc tab (c # cs) =
     (case ze c lv of
        Inl e \<Rightarrow> Inl e
      | Inr frame \<Rightarrow>
          compress_loop ze lv (acc @ frame)
            (tab @ [\<lparr>uncompressed_size = word_of_nat (length c),
                     compressed_size = word_of_nat (length frame),
                     compressed_offset = word_of_nat (length acc)\<rparr>]) cs)"

definition compress :: "zenc \<Rightarrow> bytes \<Rightarrow> nat \<Rightarrow> int \<Rightarrow> SeekableBlob res" where
  "compress ze d frame_size lv = compress_loop ze lv [] [] (chunks_of (max frame_size 1) d)"

fun decompress_loop :: "zdec \<Rightarrow> bytes \<Rightarrow> bytes \<Rightarrow> SeekEntry list \<Rightarrow> bytes res" where
  "decompress_loop zd acc out [] = Ok out"
| "decompress_loop zd acc out (e # es) =
     (case slice acc (unat (compressed_offset e)) (unat (compressed_size e)) of
        Inl x \<Rightarrow> Inl x
      | Inr frame \<Rightarrow>
          (case zd frame of
             Inl x \<Rightarrow> Inl x
           | Inr plain \<Rightarrow> decompress_loop zd acc (out @ plain) es))"

definition decompress_all :: "zdec \<Rightarrow> SeekableBlob \<Rightarrow> bytes res" where
  "decompress_all zd b = decompress_loop zd (compressed b) [] (seek_table b)"

definition sat_sub :: "u64 \<Rightarrow> u64 \<Rightarrow> u64" where
  "sat_sub a b = (if a < b then 0 else a - b)"

fun range_loop :: "zdec \<Rightarrow> bytes \<Rightarrow> u64 \<Rightarrow> u64 \<Rightarrow> u64 \<Rightarrow> bytes \<Rightarrow> SeekEntry list \<Rightarrow> bytes res" where
  "range_loop zd acc rs re frame_start out [] = Ok out"
| "range_loop zd acc rs re frame_start out (e # es) =
     (let frame_end = frame_start + ucast (uncompressed_size e);
          step =
            (if rs < frame_end \<and> frame_start < re
             then (case slice acc (unat (compressed_offset e)) (unat (compressed_size e)) of
                     Inl x \<Rightarrow> Inl x
                   | Inr frame \<Rightarrow>
                       (case zd frame of
                          Inl x \<Rightarrow> Inl x
                        | Inr plain \<Rightarrow>
                            (let ls = unat (sat_sub rs frame_start);
                                 le = unat (min re frame_end - frame_start)
                             in if ls \<le> le \<and> le \<le> length plain
                                then Ok (out @ take (le - ls) (drop ls plain))
                                else Err (EPanic ''slice''))))
             else Ok out)
      in (case step of
            Inl x \<Rightarrow> Inl x
          | Inr out' \<Rightarrow>
              if re \<le> frame_end then Ok out'
              else range_loop zd acc rs re frame_end out' es))"

definition decompress_range :: "zdec \<Rightarrow> SeekableBlob \<Rightarrow> u64 \<Rightarrow> u64 \<Rightarrow> bytes res" where
  "decompress_range zd b rs re = range_loop zd (compressed b) rs re 0 [] (seek_table b)"

text \<open>The JSON form of the table, with \<^verbatim>\<open>serde_json\<close> as a codec.\<close>

definition serialize_seek_table :: "(SeekEntry list \<Rightarrow> bytes option) \<Rightarrow> SeekEntry list \<Rightarrow> bytes res" where
  "serialize_seek_table to_json tab = ok_or (ESerialize ''seek table'') (to_json tab)"

definition deserialize_seek_table :: "(bytes \<Rightarrow> SeekEntry list option) \<Rightarrow> bytes \<Rightarrow> SeekEntry list res" where
  "deserialize_seek_table from_json d = ok_or (EParse ''seek table'' []) (from_json d)"

section \<open>Layout of a blob\<close>

definition zstd_laws :: "zenc \<Rightarrow> zdec \<Rightarrow> bool" where
  "zstd_laws ze zd \<longleftrightarrow> (\<forall>x l f. ze x l = Inr f \<longrightarrow> zd f = Inr x)"

text \<open>
  \<open>layout off cs fs es\<close>: the table entries \<open>es\<close> describe the plain frames \<open>cs\<close> and their encodings
  \<open>fs\<close>, stored from byte \<open>off\<close> on, and every size and offset fits its field.
\<close>

fun layout :: "zdec \<Rightarrow> nat \<Rightarrow> bytes list \<Rightarrow> bytes list \<Rightarrow> SeekEntry list \<Rightarrow> bool" where
  "layout zd off [] [] [] = True"
| "layout zd off (c # cs) (f # fs) (e # es) =
     (zd f = Inr c \<and> length c < 2 ^ 32 \<and> length f < 2 ^ 32 \<and> off < 2 ^ 64 \<and>
      e = \<lparr>uncompressed_size = word_of_nat (length c), compressed_size = word_of_nat (length f),
           compressed_offset = word_of_nat off\<rparr> \<and>
      layout zd (off + length f) cs fs es)"
| "layout zd off _ _ _ = False"

definition frames_fit :: "zenc \<Rightarrow> nat \<Rightarrow> int \<Rightarrow> bool" where
  "frames_fit ze n lv \<longleftrightarrow>
     n < 2 ^ 32 \<and> (\<forall>x f. length x \<le> n \<longrightarrow> ze x lv = Inr f \<longrightarrow> length f < 2 ^ 32)"

lemma chunks_of_concat: "0 < n \<Longrightarrow> concat (chunks_of n d) = d"
proof (induction n d rule: chunks_of.induct)
  case (1 n d)
  then show ?case by (simp add: chunks_of.simps[of n d])
qed

lemma chunks_of_length: "c \<in> set (chunks_of n d) \<Longrightarrow> length c \<le> n"
proof (induction n d rule: chunks_of.induct)
  case (1 n d)
  then show ?case by (auto simp: chunks_of.simps[of n d] split: if_splits)
qed

lemma compress_loop_layout:
  assumes laws: "zstd_laws ze zd" and fit: "frames_fit ze n lv" and len: "length (compressed b) < 2 ^ 64"
  shows "(\<And>c. c \<in> set cs \<Longrightarrow> length c \<le> n) \<Longrightarrow> compress_loop ze lv acc tab cs = Inr b \<Longrightarrow>
         \<exists>fs es. compressed b = acc @ concat fs \<and> seek_table b = tab @ es \<and>
                 layout zd (length acc) cs fs es"
proof (induction cs arbitrary: acc tab)
  case Nil
  then show ?case by (intro exI[of _ "[]"]) auto
next
  case (Cons c cs)
  then obtain f where f: "ze c lv = Inr f" by (auto split: sum.splits)
  let ?e = "\<lparr>uncompressed_size = word_of_nat (length c), compressed_size = word_of_nat (length f),
             compressed_offset = word_of_nat (length acc)\<rparr> :: SeekEntry"
  obtain fs es where fs: "compressed b = (acc @ f) @ concat fs"
      "seek_table b = (tab @ [?e]) @ es" "layout zd (length (acc @ f)) cs fs es"
    using Cons.IH[of "acc @ f" "tab @ [?e]"] Cons.prems f by auto
  have "zd f = Inr c" using laws f by (simp add: zstd_laws_def)
  moreover have "length c < 2 ^ 32" "length f < 2 ^ 32"
    using fit f Cons.prems(1)[of c] by (auto simp: frames_fit_def)
  moreover have "length acc < 2 ^ 64" using len fs(1) by simp
  ultimately show ?case
    using fs by (intro exI[of _ "f # fs"] exI[of _ "?e # es"]) simp
qed

lemma u32_of_len: "n < 2 ^ 32 \<Longrightarrow> unat (word_of_nat n :: u32) = n"
  by (simp add: unat_of_nat)

lemma u64_of_len: "n < 2 ^ 64 \<Longrightarrow> unat (word_of_nat n :: u64) = n"
  by (simp add: unat_of_nat)

lemma slice_middle: "slice (pre @ f @ post) (length pre) (length f) = Inr f"
  by simp

lemma decompress_loop_layout:
  "layout zd (length pre) cs fs es \<Longrightarrow>
   decompress_loop zd (pre @ concat fs @ post) out es = Inr (out @ concat cs)"
proof (induction zd "length pre" cs fs es arbitrary: pre out rule: layout.induct)
  case (2 zd c cs f fs e es)
  have "decompress_loop zd ((pre @ f) @ concat fs @ post) (out @ c) es = Inr ((out @ c) @ concat cs)"
    using 2 by (intro "2.hyps") simp_all
  then show ?case
    using "2.prems" slice_middle[of pre f "concat fs @ post"] by (simp add: u32_of_len u64_of_len)
qed simp_all

lemma compress_layout:
  assumes "zstd_laws ze zd" and "frames_fit ze (max n 1) lv"
    and "compress ze d n lv = Inr b" and "length (compressed b) < 2 ^ 64"
  obtains cs fs where "concat cs = d" "compressed b = concat fs"
    "layout zd 0 cs fs (seek_table b)"
proof -
  have "\<And>c. c \<in> set (chunks_of (max n 1) d) \<Longrightarrow> length c \<le> max n 1"
    by (rule chunks_of_length)
  moreover have "compress_loop ze lv [] [] (chunks_of (max n 1) d) = Inr b"
    using assms(3) by (simp add: compress_def)
  ultimately have "\<exists>fs es. compressed b = [] @ concat fs \<and> seek_table b = [] @ es \<and>
      layout zd (length ([] :: bytes)) (chunks_of (max n 1) d) fs es"
    by (rule compress_loop_layout[OF assms(1,2,4)])
  then obtain fs es where "compressed b = concat fs" "seek_table b = es"
    "layout zd 0 (chunks_of (max n 1) d) fs es"
    by auto
  then show thesis
    using that[of "chunks_of (max n 1) d" fs] chunks_of_concat[of "max n 1" d] by simp
qed

text \<open>
  Compressing into seekable frames and decompressing all of them gives the data back, as long
  as frame sizes fit the 32-bit fields of the seek table and the blob is below 2^64 bytes.
\<close>

theorem compress_decompress_all:
  assumes "zstd_laws ze zd" and "frames_fit ze (max n 1) lv"
    and "compress ze d n lv = Inr b" and "length (compressed b) < 2 ^ 64"
  shows "decompress_all zd b = Inr d"
proof -
  obtain cs fs where "concat cs = d" "compressed b = concat fs" "layout zd 0 cs fs (seek_table b)"
    using compress_layout[OF assms] .
  then show ?thesis
    using decompress_loop_layout[of zd "[]" cs fs "seek_table b" "[]" "[]"]
    by (simp add: decompress_all_def)
qed

section \<open>Random access\<close>

lemma unat_frame_end:
  assumes "n < 2 ^ 32" and "unat w + n < 2 ^ 64"
  shows "unat ((w :: u64) + ucast (word_of_nat n :: u32)) = unat w + n"
proof -
  have "n < 2 ^ 64" using assms(2) by simp
  then have "unat (ucast (word_of_nat n :: u32) :: u64) = n"
    using assms(1) by (simp add: unsigned_ucast_eq take_bit_nat_eq_self u32_of_len)
  with assms(2) show ?thesis
    by (simp add: unat_word_ariths)
qed

text \<open>The part of the bytes \<open>d\<close>, which start at position \<open>pos\<close>, that lies in the range.\<close>

definition in_range :: "nat \<Rightarrow> nat \<Rightarrow> nat \<Rightarrow> bytes \<Rightarrow> bytes" where
  "in_range rs re pos d = drop (rs - pos) (take (re - pos) d)"

lemma in_range_append:
  "rs \<le> re \<Longrightarrow> in_range rs re pos (c @ d) = in_range rs re pos c @ in_range rs re (pos + length c) d"
proof -
  assume "rs \<le> re"
  show ?thesis
  proof (cases "length c \<le> re - pos")
    case True
    then have "rs - pos - length c = rs - (pos + length c)" by simp
    with True show ?thesis by (simp add: in_range_def diff_diff_add)
  qed (simp add: in_range_def)
qed

lemma in_range_empty: "rs \<ge> pos + length c \<or> re \<le> pos \<Longrightarrow> in_range rs re pos c = []"
  by (auto simp: in_range_def)

lemma in_range_frame:
  assumes "rs \<le> re" and "rs < pos + length c" and "pos < re"
  defines "ls \<equiv> rs - pos" and "le \<equiv> min re (pos + length c) - pos"
  shows "ls \<le> le \<and> le \<le> length c \<and> take (le - ls) (drop ls c) = in_range rs re pos c"
proof -
  have "take le c = take (re - pos) c"
    using assms by (cases "re \<le> pos + length c") (simp_all add: min_def)
  then have "drop ls (take le c) = in_range rs re pos c"
    by (simp only: in_range_def ls_def)
  then have "take (le - ls) (drop ls c) = in_range rs re pos c"
    by (simp only: drop_take)
  then show ?thesis using assms by auto
qed

lemma range_words:
  assumes "unat w = pos" and "unat z = pos + n"
  shows "unat (sat_sub rs w) = unat rs - pos"
    and "pos < unat re \<Longrightarrow> unat (min re z - w) = min (unat re) (pos + n) - pos"
proof -
  show "unat (sat_sub rs w) = unat rs - pos"
    using assms by (auto simp: sat_sub_def word_less_nat_alt unat_sub word_le_nat_alt not_less)
  assume "pos < unat re"
  then show "unat (min re z - w) = min (unat re) (pos + n) - pos"
    using assms by (auto simp: min_def word_le_nat_alt unat_sub)
qed

lemma range_loop_layout:
  assumes "unat rs \<le> unat re"
  shows "layout zd (length pre) cs fs es \<Longrightarrow> unat w + length (concat cs) < 2 ^ 64 \<Longrightarrow>
         range_loop zd (pre @ concat fs @ post) rs re w out es =
           Inr (out @ in_range (unat rs) (unat re) (unat w) (concat cs))"
proof (induction zd "length pre" cs fs es arbitrary: pre w out rule: layout.induct)
  case (1 zd)
  then show ?case by (simp add: in_range_def)
next
  case (2 zd c cs f fs e es)
  let ?n = "length c" and ?in = "in_range (unat rs) (unat re)" and ?acc = "pre @ concat (f # fs) @ post"
  define z where "z = w + ucast (uncompressed_size e)"
  have z: "unat z = unat w + ?n"
    using "2.prems" unat_frame_end[of ?n w] by (auto simp: z_def)
  have frame: "slice ?acc (unat (compressed_offset e)) (unat (compressed_size e)) = Inr f"
    and dec: "zd f = Inr c"
    using "2.prems"(1) slice_middle[of pre f "concat fs @ post"]
    by (auto simp add: u32_of_len u64_of_len)
  have rest: "range_loop zd ?acc rs re z o' es = Inr (o' @ ?in (unat w + ?n) (concat cs))" for o'
    using "2.hyps"[of "pre @ f" z o'] "2.prems" by (simp add: z add.assoc)
  have stop: "unat re \<le> unat w + ?n \<Longrightarrow> ?in (unat w + ?n) (concat cs) = []"
    by (simp add: in_range_empty)
  have split: "?in (unat w) (concat (c # cs)) = ?in (unat w) c @ ?in (unat w + ?n) (concat cs)"
    using in_range_append[OF assms] by simp
  show ?case
  proof (cases "unat rs < unat w + ?n \<and> unat w < unat re")
    case True
    then show ?thesis
      using in_range_frame[OF assms, of "unat w" c] rest stop range_words[OF refl z]
      by (simp add: z_def[symmetric] frame dec split word_less_nat_alt word_le_nat_alt z Let_def
          del: concat.simps)
  next
    case False
    then have "?in (unat w) c = []" by (auto intro!: in_range_empty)
    moreover have "\<not> (rs < z \<and> w < re)" using False by (simp add: word_less_nat_alt z)
    ultimately show ?thesis
      using rest stop unfolding range_loop.simps Let_def z_def[symmetric]
      by (simp only: split if_not_P sum.case append_Nil if_False) (simp add: word_le_nat_alt z)
  qed
qed simp_all

text \<open>
  C13: random access agrees with full decompression: for an ordered range the frames that overlap
  it are enough, and the result is exactly the requested bytes of the original data, clamped to
  its end.
\<close>

theorem decompress_range_correct:
  assumes "zstd_laws ze zd" and "frames_fit ze (max n 1) lv"
    and "compress ze d n lv = Inr b" and "length (compressed b) < 2 ^ 64"
    and "length d < 2 ^ 64" and "rs \<le> re"
  shows "decompress_range zd b rs re = Inr (take (unat re - unat rs) (drop (unat rs) d))"
proof -
  obtain cs fs where cs: "concat cs = d" "compressed b = concat fs" "layout zd 0 cs fs (seek_table b)"
    using compress_layout[OF assms(1-4)] .
  have "unat rs \<le> unat re" using assms(6) by (simp add: word_le_nat_alt)
  from range_loop_layout[OF this, of zd "[]" cs fs "seek_table b" 0 "[]" "[]"] cs assms(5)
  show ?thesis
    by (simp add: decompress_range_def in_range_def drop_take)
qed

text \<open>The stored form as codec: a codec that satisfies the laws, for the witnesses.\<close>

definition raw_enc :: zenc where
  "raw_enc x l = Ok (0 # x)"

definition raw_dec :: zdec where
  "raw_dec f = (case f of [] \<Rightarrow> Err (EDecode ''zstd'') | _ # x \<Rightarrow> Ok x)"

lemma raw_zstd_laws: "zstd_laws raw_enc raw_dec"
  by (simp add: zstd_laws_def raw_enc_def raw_dec_def)

lemma raw_frames_fit: "frames_fit raw_enc (max 2 1) lv"
  by (auto simp: frames_fit_def raw_enc_def)

definition sample_blob :: SeekableBlob where
  "sample_blob =
     \<lparr>compressed = [0, 1, 2, 0, 3],
      seek_table = [\<lparr>uncompressed_size = 2, compressed_size = 3, compressed_offset = 0\<rparr>,
                    \<lparr>uncompressed_size = 1, compressed_size = 2, compressed_offset = 3\<rparr>]\<rparr>"

lemma sample_compress: "compress raw_enc [1, 2, 3] 2 3 = Inr sample_blob"
  by (simp add: compress_def chunks_of.simps raw_enc_def sample_blob_def)

theorem compress_decompress_all_witness: "decompress_all raw_dec sample_blob = Inr [1, 2, 3]"
  by (rule compress_decompress_all[OF raw_zstd_laws raw_frames_fit sample_compress])
    (simp add: sample_blob_def)

theorem decompress_range_correct_witness:
  "decompress_range raw_dec sample_blob 1 3 = Inr [2, 3]"
proof -
  have "decompress_range raw_dec sample_blob 1 3 =
          Inr (take (unat (3 :: u64) - unat (1 :: u64)) (drop (unat (1 :: u64)) [1, 2, 3]))"
    by (rule decompress_range_correct[OF raw_zstd_laws raw_frames_fit sample_compress])
      (simp_all add: sample_blob_def)
  then show ?thesis by simp
qed

end
