(* ===== verification/Tcfs_BTree.thy ===== *)
theory Tcfs_BTree
  imports Tcfs_Prelude
begin

text \<open>
  The standard library's \<^verbatim>\<open>BTreeMap\<close> as the crates use it: a map that iterates its entries in key
  order. It is modelled by the sorted list of its entries, so that Rust's derived \<^verbatim>\<open>PartialEq\<close>
  is equality of lists. The interface the clients rely on is the locale \<open>ordered_map\<close>.
\<close>

type_synonym ('k, 'v) btree = "('k \<times> 'v) list"

fun btm_get :: "'k \<Rightarrow> ('k::linorder, 'v) btree \<Rightarrow> 'v option" where
  "btm_get k [] = None"
| "btm_get k ((a, v) # m) = (if k = a then Some v else btm_get k m)"

fun btm_put :: "'k \<Rightarrow> 'v \<Rightarrow> ('k::linorder, 'v) btree \<Rightarrow> ('k, 'v) btree" where
  "btm_put k v [] = [(k, v)]"
| "btm_put k v ((a, w) # m) =
     (if k < a then (k, v) # (a, w) # m
      else if k = a then (a, v) # m
      else (a, w) # btm_put k v m)"

definition btm_keys :: "('k, 'v) btree \<Rightarrow> 'k list" where
  "btm_keys m = map fst m"

definition btm_sorted :: "('k::linorder, 'v) btree \<Rightarrow> bool" where
  "btm_sorted m \<longleftrightarrow> sorted_wrt (<) (map fst m)"

locale ordered_map =
  fixes get :: "'k \<Rightarrow> 'm \<Rightarrow> 'v option"
    and put :: "'k \<Rightarrow> 'v \<Rightarrow> 'm \<Rightarrow> 'm"
    and keys :: "'m \<Rightarrow> 'k list"
    and empty :: 'm
    and invar :: "'m \<Rightarrow> bool"
  assumes get_empty: "get k empty = None"
    and get_put: "get k (put k' v m) = (if k = k' then Some v else get k m)"
    and keys_get: "k \<in> set (keys m) \<longleftrightarrow> get k m \<noteq> None"
    and invar_empty: "invar empty"
    and invar_put: "invar m \<Longrightarrow> invar (put k v m)"
    and map_ext: "invar m \<Longrightarrow> invar m' \<Longrightarrow> (\<And>k. get k m = get k m') \<Longrightarrow> m = m'"
begin

lemma put_overwrites: "invar m \<Longrightarrow> put k v (put k w m) = put k v m"
  by (rule map_ext) (auto simp: get_put invar_put)

lemma put_commute: "invar m \<Longrightarrow> k \<noteq> k' \<Longrightarrow> put k v (put k' w m) = put k' w (put k v m)"
  by (rule map_ext) (auto simp: get_put invar_put)

lemma put_present: "invar m \<Longrightarrow> get k m = Some v \<Longrightarrow> put k v m = m"
  by (rule map_ext) (auto simp: get_put invar_put)

end

lemma btm_get_put [simp]: "btm_get k (btm_put k' v m) = (if k = k' then Some v else btm_get k m)"
  by (induction k' v m rule: btm_put.induct) auto

lemma btm_keys_get: "k \<in> set (btm_keys m) \<longleftrightarrow> btm_get k m \<noteq> None"
  by (induction k m rule: btm_get.induct) (auto simp: btm_keys_def)

lemma btm_put_keys: "set (map fst (btm_put k v m)) = insert k (set (map fst m))"
  by (induction k v m rule: btm_put.induct) auto

lemma btm_sorted_put [simp]: "btm_sorted m \<Longrightarrow> btm_sorted (btm_put k v m)"
proof (induction k v m rule: btm_put.induct)
  case (2 k v a w m)
  then show ?case
    using btm_put_keys[of k v m] by (auto simp: btm_sorted_def)
qed (simp add: btm_sorted_def)

lemma btm_get_below: "btm_sorted m \<Longrightarrow> (\<And>a. a \<in> set (map fst m) \<Longrightarrow> k < a) \<Longrightarrow> btm_get k m = None"
  by (induction k m rule: btm_get.induct) (auto simp: btm_sorted_def)

lemma btm_get_tail:
  "btm_sorted ((a, v) # m) \<Longrightarrow> k \<noteq> a \<Longrightarrow> btm_get k ((a, v) # m) = btm_get k m"
  by simp

lemma btm_head_absent: "btm_sorted ((a, v) # m) \<Longrightarrow> btm_get a m = None"
  by (rule btm_get_below) (auto simp: btm_sorted_def)

lemma btm_head_less:
  assumes "btm_sorted ((a, v) # m)" and "btm_get k ((a, v) # m) \<noteq> None"
  shows "a \<le> k"
proof -
  have "k \<in> set (btm_keys ((a, v) # m))"
    using assms(2) btm_keys_get[of k "(a, v) # m"] by blast
  with assms(1) show ?thesis
    by (auto simp: btm_sorted_def btm_keys_def)
qed

lemma btm_ext:
  "btm_sorted m \<Longrightarrow> btm_sorted m' \<Longrightarrow> (\<And>k. btm_get k m = btm_get k m') \<Longrightarrow> m = m'"
proof (induction m arbitrary: m')
  case Nil
  then have none: "btm_get k m' = None" for k by (metis btm_get.simps(1))
  show ?case
  proof (cases m')
    case (Cons y r)
    then show ?thesis using none[of "fst y"] by (cases y) simp
  qed simp
next
  case (Cons x m)
  obtain a v where x: "x = (a, v)" by force
  obtain b w r where m': "m' = (b, w) # r"
    using Cons.prems(3)[of a] by (cases m') (auto simp: x)
  have "a \<le> b" "b \<le> a"
    using btm_head_less[of a v m b] btm_head_less[of b w r a] Cons.prems
    by (simp_all add: x m') (metis option.distinct(1))+
  then have ab: "a = b" by simp
  have vw: "v = w" using Cons.prems(3)[of a] by (simp add: x m' ab)
  have sm: "btm_sorted m" "btm_sorted r"
    using Cons.prems(1,2) by (simp_all add: x m' btm_sorted_def)
  have "btm_get k m = btm_get k r" for k
  proof (cases "k = a")
    case True
    then show ?thesis
      using btm_head_absent[of a v m] btm_head_absent[of b w r] Cons.prems(1,2)
      by (simp add: x m' ab)
  next
    case False
    then show ?thesis using Cons.prems(3)[of k] by (simp add: x m' ab)
  qed
  with Cons.IH[OF sm] show ?case by (simp add: x m' ab vw)
qed

interpretation btm: ordered_map btm_get btm_put btm_keys "[]" btm_sorted
  by unfold_locales (auto simp: btm_keys_get btm_ext btm_sorted_def[of "[]"])

end
