(* ===== verification/Vector_Clock.thy ===== *)
theory Vector_Clock
  imports Tcfs_BTree
begin

text \<open>
  The vector clocks and conflict detection of \<^verbatim>\<open>crates/tcfs-sync/src/conflict.rs\<close>. Counters are
  64-bit: \<open>tick\<close> wraps as the release profile of the workspace does (no overflow checks). The
  clocks are ordered pointwise; the locale \<open>causal_clock\<close> is the contract the sync engine and the
  daemon rely on, and it is interpreted on \<open>merge\<close> and \<open>partial_cmp_vc\<close>.
\<close>

section \<open>Model\<close>

record VectorClock =
  clocks :: "(string, u64) btree"

datatype Ordering = Less | Equal | Greater

definition vc_new :: VectorClock where
  "vc_new = \<lparr>clocks = []\<rparr>"

definition vc_get :: "VectorClock \<Rightarrow> string \<Rightarrow> u64" where
  "vc_get vc d = (case btm_get d (clocks vc) of None \<Rightarrow> 0 | Some n \<Rightarrow> n)"

text \<open>\<^verbatim>\<open>entry(k).or_insert(v)\<close>: the value the entry holds afterwards, and the map with the entry.\<close>

definition or_insert :: "string \<Rightarrow> u64 \<Rightarrow> (string, u64) btree \<Rightarrow> u64 \<times> (string, u64) btree" where
  "or_insert k v m = (case btm_get k m of Some w \<Rightarrow> (w, m) | None \<Rightarrow> (v, btm_put k v m))"

definition tick :: "VectorClock \<Rightarrow> string \<Rightarrow> VectorClock" where
  "tick vc d =
     (let (e, m) = or_insert d 0 (clocks vc)
      in vc\<lparr>clocks := btm_put d (e + 1) m\<rparr>)"

fun merge_entries :: "(string, u64) btree \<Rightarrow> (string \<times> u64) list \<Rightarrow> (string, u64) btree" where
  "merge_entries m [] = m"
| "merge_entries m ((d, ts) # r) =
     (let (e, m') = or_insert d 0 m in merge_entries (btm_put d (max e ts) m') r)"

definition merge :: "VectorClock \<Rightarrow> VectorClock \<Rightarrow> VectorClock" where
  "merge vc other = vc\<lparr>clocks := merge_entries (clocks vc) (clocks other)\<rparr>"

fun collect_keys :: "string list \<Rightarrow> (string, unit) btree" where
  "collect_keys [] = []"
| "collect_keys (k # ks) = btm_put k () (collect_keys ks)"

definition u64_cmp :: "u64 \<Rightarrow> u64 \<Rightarrow> Ordering" where
  "u64_cmp a b = (if a < b then Less else if a = b then Equal else Greater)"

text \<open>The loop of \<^verbatim>\<open>partial_cmp_vc\<close> with its two flags and its early return.\<close>

fun cmp_loop :: "VectorClock \<Rightarrow> VectorClock \<Rightarrow> bool \<Rightarrow> bool \<Rightarrow> string list \<Rightarrow> Ordering option" where
  "cmp_loop a b hg hl [] =
     (case (hg, hl) of
        (True, False) \<Rightarrow> Some Greater
      | (False, True) \<Rightarrow> Some Less
      | (False, False) \<Rightarrow> Some Equal
      | (True, True) \<Rightarrow> None)"
| "cmp_loop a b hg hl (k # ks) =
     (let o' = u64_cmp (vc_get a k) (vc_get b k);
          hg' = (hg \<or> o' = Greater);
          hl' = (hl \<or> o' = Less)
      in if hg' \<and> hl' then None else cmp_loop a b hg' hl' ks)"

definition partial_cmp_vc :: "VectorClock \<Rightarrow> VectorClock \<Rightarrow> Ordering option" where
  "partial_cmp_vc a b =
     cmp_loop a b False False
       (btm_keys (collect_keys (btm_keys (clocks a) @ btm_keys (clocks b))))"

definition is_concurrent :: "VectorClock \<Rightarrow> VectorClock \<Rightarrow> bool" where
  "is_concurrent a b \<longleftrightarrow> partial_cmp_vc a b = None"

record ConflictInfo =
  ci_rel_path :: string
  ci_local_vclock :: VectorClock
  ci_remote_vclock :: VectorClock
  ci_local_blake3 :: string
  ci_remote_blake3 :: string
  ci_local_device :: string
  ci_remote_device :: string
  ci_detected_at :: u64

datatype SyncOutcome = LocalNewer | RemoteNewer | UpToDate | Conflict ConflictInfo

datatype Resolution = KeepLocal | KeepRemote | KeepBoth | Defer

definition auto_resolve :: "ConflictInfo \<Rightarrow> Resolution option" where
  "auto_resolve c =
     (if ci_local_device c \<le> ci_remote_device c then Some KeepLocal else Some KeepRemote)"

definition conflict_info ::
  "u64 \<Rightarrow> VectorClock \<Rightarrow> VectorClock \<Rightarrow> string \<Rightarrow> string \<Rightarrow> string \<Rightarrow> string \<Rightarrow> string \<Rightarrow> ConflictInfo" where
  "conflict_info now l r lh rh rel ldev rdev =
     \<lparr>ci_rel_path = rel, ci_local_vclock = l, ci_remote_vclock = r,
      ci_local_blake3 = lh, ci_remote_blake3 = rh,
      ci_local_device = ldev, ci_remote_device = rdev, ci_detected_at = now\<rparr>"

definition compare_clocks ::
  "u64 \<Rightarrow> VectorClock \<Rightarrow> VectorClock \<Rightarrow> string \<Rightarrow> string \<Rightarrow> string \<Rightarrow> string \<Rightarrow> string \<Rightarrow> SyncOutcome" where
  "compare_clocks now l r lh rh rel ldev rdev =
     (if lh = rh then UpToDate
      else (case partial_cmp_vc l r of
              Some Greater \<Rightarrow> LocalNewer
            | Some Less \<Rightarrow> RemoteNewer
            | Some Equal \<Rightarrow> Conflict (conflict_info now l r lh rh rel ldev rdev)
            | None \<Rightarrow> Conflict (conflict_info now l r lh rh rel ldev rdev)))"

section \<open>Abstract view: a clock is the function of its counters\<close>

definition vc_wf :: "VectorClock \<Rightarrow> bool" where
  "vc_wf vc \<longleftrightarrow> btm_sorted (clocks vc)"

definition vc_le :: "VectorClock \<Rightarrow> VectorClock \<Rightarrow> bool" where
  "vc_le a b \<longleftrightarrow> (\<forall>d. vc_get a d \<le> vc_get b d)"

lemma vc_get_new [simp]: "vc_get vc_new d = 0"
  by (simp add: vc_get_def vc_new_def)

lemma vc_wf_new [simp]: "vc_wf vc_new"
  by (simp add: vc_wf_def vc_new_def btm_sorted_def)

lemma or_insert_snd_get:
  "btm_get k' (snd (or_insert k v m)) =
     (if k' = k \<and> btm_get k m = None then Some v else btm_get k' m)"
  by (auto simp: or_insert_def split: option.splits)

lemma or_insert_sorted: "btm_sorted m \<Longrightarrow> btm_sorted (snd (or_insert k v m))"
  by (auto simp: or_insert_def split: option.splits)

lemma or_insert_fst: "fst (or_insert k v m) = (case btm_get k m of Some w \<Rightarrow> w | None \<Rightarrow> v)"
  by (auto simp: or_insert_def split: option.splits)

lemma clocks_tick_get:
  "btm_get d' (clocks (tick vc d)) =
     (if d' = d then Some (vc_get vc d + 1) else btm_get d' (clocks vc))"
  by (auto simp: tick_def vc_get_def or_insert_def split: option.splits)

lemma vc_get_tick [simp]:
  "vc_get (tick vc d) d' = (if d' = d then vc_get vc d + 1 else vc_get vc d')"
  unfolding vc_get_def[of "tick vc d"] clocks_tick_get by (auto simp: vc_get_def)

lemma vc_wf_tick [simp]: "vc_wf vc \<Longrightarrow> vc_wf (tick vc d)"
  by (auto simp: tick_def vc_wf_def or_insert_def split: option.splits)

lemma merge_entries_sorted: "btm_sorted m \<Longrightarrow> btm_sorted (merge_entries m r)"
  by (induction m r rule: merge_entries.induct)
    (auto simp: or_insert_def split: option.splits)

lemma merge_entries_get:
  "btm_sorted r \<Longrightarrow>
   btm_get d (merge_entries m r) =
     (case btm_get d r of
        None \<Rightarrow> btm_get d m
      | Some ts \<Rightarrow> Some (max (case btm_get d m of Some e \<Rightarrow> e | None \<Rightarrow> 0) ts))"
proof (induction m r rule: merge_entries.induct)
  case (2 m k ts r)
  have head: "btm_get k r = None"
    using btm_head_absent[of k ts r] "2.prems" by simp
  have sr: "btm_sorted r" using "2.prems" by (simp add: btm_sorted_def)
  obtain e m' where em: "or_insert k 0 m = (e, m')" by fastforce
  have e: "e = (case btm_get k m of Some w \<Rightarrow> w | None \<Rightarrow> 0)"
    using or_insert_fst[of k 0 m] em by simp
  have m': "btm_get x m' = (if x = k \<and> btm_get k m = None then Some 0 else btm_get x m)" for x
    using or_insert_snd_get[of x k 0 m] em by simp
  from "2.IH"[OF em[symmetric] refl sr] show ?case
    by (auto simp: em head e m' split: option.splits)
qed simp

lemma merge_get_opt:
  "vc_wf b \<Longrightarrow>
   btm_get d (clocks (merge a b)) =
     (case btm_get d (clocks b) of
        None \<Rightarrow> btm_get d (clocks a)
      | Some _ \<Rightarrow> Some (max (vc_get a d) (vc_get b d)))"
  by (auto simp: merge_def vc_wf_def merge_entries_get vc_get_def split: option.splits)

lemma vc_get_merge [simp]: "vc_wf b \<Longrightarrow> vc_get (merge a b) d = max (vc_get a d) (vc_get b d)"
  unfolding vc_get_def[of "merge a b"] merge_get_opt
  by (auto simp: vc_get_def split: option.splits)

lemma vc_wf_merge [simp]: "vc_wf a \<Longrightarrow> vc_wf (merge a b)"
  by (simp add: merge_def vc_wf_def merge_entries_sorted)

lemma vc_eqI:
  assumes "vc_wf a" and "vc_wf b" and "\<And>d. btm_get d (clocks a) = btm_get d (clocks b)"
  shows "a = b"
  using assms btm.map_ext[of "clocks a" "clocks b"] by (simp add: vc_wf_def)

lemma collect_keys_get: "btm_get k (collect_keys ks) \<noteq> None \<longleftrightarrow> k \<in> set ks"
  by (induction ks) auto

lemma all_keys: "set (btm_keys (collect_keys ks)) = set ks"
  by (rule set_eqI) (simp only: btm_keys_get collect_keys_get)

lemma cmp_loop_spec:
  "cmp_loop a b hg hl ks =
     (let g = (hg \<or> (\<exists>k \<in> set ks. vc_get b k < vc_get a k));
          l = (hl \<or> (\<exists>k \<in> set ks. vc_get a k < vc_get b k))
      in if g \<and> l then None else if g then Some Greater else if l then Some Less else Some Equal)"
proof (induction a b hg hl ks rule: cmp_loop.induct)
  case (2 a b hg hl k ks)
  consider "vc_get a k < vc_get b k" | "vc_get a k = vc_get b k" | "vc_get b k < vc_get a k"
    by (meson less_linear)
  then show ?case
    using 2 by cases (auto simp: u64_cmp_def Let_def)
qed auto

lemma vc_get_absent: "k \<notin> set (btm_keys (clocks a)) \<Longrightarrow> vc_get a k = 0"
  by (simp add: vc_get_def btm_keys_get)

lemma not_vc_le_iff:
  "\<not> vc_le a b \<longleftrightarrow>
     (\<exists>k \<in> set (btm_keys (clocks a) @ btm_keys (clocks b)). vc_get b k < vc_get a k)"
proof -
  have "k \<in> set (btm_keys (clocks a) @ btm_keys (clocks b))" if "vc_get b k < vc_get a k" for k
    using that vc_get_absent[of k a] by fastforce
  then show ?thesis
    by (auto simp: vc_le_def not_le)
qed

text \<open>The loop with its early return decides the pointwise order.\<close>

lemma partial_cmp_vc_spec:
  "partial_cmp_vc a b =
     (if vc_le a b then (if vc_le b a then Some Equal else Some Less)
      else if vc_le b a then Some Greater else None)"
proof -
  have comm: "set (btm_keys (clocks b) @ btm_keys (clocks a)) =
              set (btm_keys (clocks a) @ btm_keys (clocks b))" by auto
  show ?thesis
    unfolding partial_cmp_vc_def cmp_loop_spec all_keys
    using not_vc_le_iff[of a b] not_vc_le_iff[of b a] comm by (auto simp: Let_def)
qed

lemma vc_le_refl [simp]: "vc_le a a"
  by (simp add: vc_le_def)

lemma vc_le_trans: "vc_le a b \<Longrightarrow> vc_le b c \<Longrightarrow> vc_le a c"
  by (meson order_trans vc_le_def)

lemma vc_new_le [simp]: "vc_le vc_new a"
  by (simp add: vc_le_def)

lemma vc_le_new_iff: "vc_le a vc_new \<longleftrightarrow> (\<forall>d. vc_get a d = 0)"
  by (simp add: vc_le_def word_le_nat_alt unat_eq_0)

section \<open>The contract of a causal clock\<close>

locale causal_clock =
  fixes le :: "'c \<Rightarrow> 'c \<Rightarrow> bool"
    and join :: "'c \<Rightarrow> 'c \<Rightarrow> 'c"
    and cmp :: "'c \<Rightarrow> 'c \<Rightarrow> Ordering option"
    and wf :: "'c \<Rightarrow> bool"
  assumes le_refl: "le a a"
    and le_trans: "le a b \<Longrightarrow> le b c \<Longrightarrow> le a c"
    and join_ub1: "wf b \<Longrightarrow> le a (join a b)"
    and join_ub2: "wf b \<Longrightarrow> le b (join a b)"
    and join_least: "wf b \<Longrightarrow> le a c \<Longrightarrow> le b c \<Longrightarrow> le (join a b) c"
    and wf_join: "wf a \<Longrightarrow> wf (join a b)"
    and cmp_spec: "cmp a b =
      (if le a b then (if le b a then Some Equal else Some Less)
       else if le b a then Some Greater else None)"
begin

lemma cmp_mirror:
  "cmp b a = (case cmp a b of None \<Rightarrow> None | Some Less \<Rightarrow> Some Greater
                | Some Equal \<Rightarrow> Some Equal | Some Greater \<Rightarrow> Some Less)"
  by (simp add: cmp_spec)

lemma cmp_trans_less: "cmp a b = Some Less \<Longrightarrow> cmp b c = Some Less \<Longrightarrow> cmp a c = Some Less"
  by (auto simp: cmp_spec split: if_splits intro: le_trans)

lemma join_dominates: "wf b \<Longrightarrow> cmp (join a b) a \<in> {Some Greater, Some Equal}"
  using join_ub1 by (simp add: cmp_spec)

lemma join_dominates2: "wf b \<Longrightarrow> cmp (join a b) b \<in> {Some Greater, Some Equal}"
  using join_ub2 by (simp add: cmp_spec)

text \<open>After merging, the merged clock is never older than nor concurrent with either side.\<close>

lemma join_never_conflicts: "wf b \<Longrightarrow> le c a \<or> le c b \<Longrightarrow> cmp c (join a b) \<in> {Some Less, Some Equal}"
  using join_ub1 join_ub2 le_trans by (auto simp: cmp_spec)

end

interpretation vclock: causal_clock vc_le merge partial_cmp_vc vc_wf
proof unfold_locales
  fix a b c :: VectorClock
  show "vc_le a a" by simp
  show "vc_le a b \<Longrightarrow> vc_le b c \<Longrightarrow> vc_le a c" by (rule vc_le_trans)
  show "vc_wf b \<Longrightarrow> vc_le a (merge a b)" by (simp add: vc_le_def)
  show "vc_wf b \<Longrightarrow> vc_le b (merge a b)" by (simp add: vc_le_def)
  show "vc_wf b \<Longrightarrow> vc_le a c \<Longrightarrow> vc_le b c \<Longrightarrow> vc_le (merge a b) c" by (simp add: vc_le_def)
  show "vc_wf a \<Longrightarrow> vc_wf (merge a b)" by simp
qed (rule partial_cmp_vc_spec)

section \<open>Properties\<close>

lemma merge_commute: "vc_wf a \<Longrightarrow> vc_wf b \<Longrightarrow> merge a b = merge b a"
  by (rule vc_eqI) (auto simp: merge_get_opt vc_get_def max.commute split: option.splits)

lemma merge_assoc:
  "vc_wf a \<Longrightarrow> vc_wf b \<Longrightarrow> vc_wf c \<Longrightarrow> merge a (merge b c) = merge (merge a b) c"
  by (rule vc_eqI) (auto simp: merge_get_opt vc_get_def max.assoc split: option.splits)

lemma merge_idem: "vc_wf a \<Longrightarrow> merge a a = a"
  by (rule vc_eqI) (auto simp: merge_get_opt vc_get_def split: option.splits)

text \<open>
  C9: the merge of two vector clocks is their pointwise maximum, and it is commutative, associative
  and idempotent as an equality of the stored maps (what the derived \<^verbatim>\<open>PartialEq\<close> compares), so
  replicas that exchange clocks in any order, with repetitions, end with the same clock.
\<close>

theorem merge_semilattice:
  assumes "vc_wf a" and "vc_wf b" and "vc_wf c"
  shows "vc_get (merge a b) d = max (vc_get a d) (vc_get b d) \<and>
         merge a b = merge b a \<and> merge a (merge b c) = merge (merge a b) c \<and> merge a a = a"
  using assms merge_commute merge_assoc merge_idem vc_get_merge by blast

theorem merge_semilattice_witness:
  "let a = tick (tick vc_new ''x'') ''y''; b = tick vc_new ''y''; c = tick vc_new ''z''
   in vc_get (merge a b) ''y'' = max (vc_get a ''y'') (vc_get b ''y'') \<and>
      merge a b = merge b a \<and> merge a (merge b c) = merge (merge a b) c \<and> merge a a = a"
  unfolding Let_def by (rule merge_semilattice) simp_all

text \<open>
  C10: the comparison loop of \<open>partial_cmp_vc\<close> (key union, two flags, early return) decides
  exactly the causal order of the counters: equal, strictly before, strictly after, or
  concurrent when neither clock dominates.
\<close>

theorem partial_cmp_vc_decides_causality:
  "partial_cmp_vc a b =
     (if \<forall>d. vc_get a d = vc_get b d then Some Equal
      else if \<forall>d. vc_get a d \<le> vc_get b d then Some Less
      else if \<forall>d. vc_get b d \<le> vc_get a d then Some Greater
      else None)"
proof -
  have "vc_le a b \<and> vc_le b a \<longleftrightarrow> (\<forall>d. vc_get a d = vc_get b d)"
    by (auto simp: vc_le_def intro: order.antisym)
  then show ?thesis
    by (auto simp: partial_cmp_vc_spec vc_le_def)
qed

lemma word_inc_less: "(x :: u64) \<noteq> - 1 \<Longrightarrow> x < x + 1"
  using inc_less_eq_self_iff_eq[of x] by (simp add: not_le)

text \<open>
  A tick advances a clock strictly and leaves every other device's counter alone, unless
  the ticking device's 64-bit counter is at its maximum, where it wraps to zero and the new
  clock is strictly older than the one it replaces.
\<close>

theorem tick_strictly_advances:
  "(if vc_get vc d = - 1
    then vc_get (tick vc d) d = 0 \<and> partial_cmp_vc (tick vc d) vc = Some Less
    else vc_get (tick vc d) d = vc_get vc d + 1 \<and> partial_cmp_vc (tick vc d) vc = Some Greater) \<and>
   (\<forall>d'. d' = d \<or> vc_get (tick vc d) d' = vc_get vc d')"
proof (cases "vc_get vc d = - 1")
  case True
  then have "vc_le (tick vc d) vc" "\<not> vc_le vc (tick vc d)"
    by (auto simp: vc_le_def not_le word_gt_0 intro: exI[of _ d])
  with True show ?thesis by (simp add: partial_cmp_vc_spec)
next
  case False
  then have lt: "vc_get vc d < vc_get vc d + 1" by (rule word_inc_less)
  then have "vc_le vc (tick vc d)" "\<not> vc_le (tick vc d) vc"
    by (auto simp: vc_le_def not_le intro: exI[of _ d])
  with False show ?thesis by (simp add: partial_cmp_vc_spec)
qed

text \<open>
  Conflict detection is symmetric: the other device, comparing the same two versions from
  its side, gets the mirrored outcome (newer against older, up to date against up to date, and
  a conflict exactly when this device sees one).
\<close>

theorem compare_clocks_mirror:
  "compare_clocks now r l rh lh rel rdev ldev =
     (case compare_clocks now l r lh rh rel ldev rdev of
        LocalNewer \<Rightarrow> RemoteNewer
      | RemoteNewer \<Rightarrow> LocalNewer
      | UpToDate \<Rightarrow> UpToDate
      | Conflict _ \<Rightarrow> Conflict (conflict_info now r l rh lh rel rdev ldev))"
  unfolding compare_clocks_def vclock.cmp_mirror[of l r]
  by (auto split: option.splits Ordering.splits)

lemma compare_clocks_Conflict:
  "compare_clocks now l r lh rh rel ldev rdev = Conflict c \<Longrightarrow>
   c = conflict_info now l r lh rh rel ldev rdev"
  by (auto simp: compare_clocks_def split: if_splits option.splits Ordering.splits)

text \<open>
  C11: automatic resolution converges: when two different devices detect the same conflict, each
  from its own side and at its own time, exactly one of them keeps its local version and the
  other takes the remote one, so both end with the same version.
\<close>

theorem auto_resolve_converges:
  assumes "compare_clocks now l r lh rh rel ldev rdev = Conflict c"
    and "compare_clocks now' r l rh lh rel rdev ldev = Conflict c'"
    and "ldev \<noteq> rdev"
  shows "(auto_resolve c, auto_resolve c') \<in>
           {(Some KeepLocal, Some KeepRemote), (Some KeepRemote, Some KeepLocal)}"
proof -
  have "c = conflict_info now l r lh rh rel ldev rdev"
    and "c' = conflict_info now' r l rh lh rel rdev ldev"
    using assms(1,2) by (auto dest: compare_clocks_Conflict)
  with assms(3) show ?thesis
    by (auto simp: auto_resolve_def conflict_info_def)
qed

theorem auto_resolve_converges_witness:
  "let a = tick vc_new ''d1''; b = tick vc_new ''d2''
   in (auto_resolve (conflict_info 5 a b ''h1'' ''h2'' ''f'' ''d1'' ''d2''),
       auto_resolve (conflict_info 7 b a ''h2'' ''h1'' ''f'' ''d2'' ''d1''))
      \<in> {(Some KeepLocal, Some KeepRemote), (Some KeepRemote, Some KeepLocal)}"
proof -
  let ?a = "tick vc_new ''d1''" and ?b = "tick vc_new ''d2''"
  have "partial_cmp_vc ?a ?b = None" "partial_cmp_vc ?b ?a = None"
    by code_simp+
  then have "compare_clocks 5 ?a ?b ''h1'' ''h2'' ''f'' ''d1'' ''d2'' =
               Conflict (conflict_info 5 ?a ?b ''h1'' ''h2'' ''f'' ''d1'' ''d2'')"
    and "compare_clocks 7 ?b ?a ''h2'' ''h1'' ''f'' ''d2'' ''d1'' =
               Conflict (conflict_info 7 ?b ?a ''h2'' ''h1'' ''f'' ''d2'' ''d1'')"
    by (simp_all add: compare_clocks_def)
  from auto_resolve_converges[OF this] show ?thesis
    by (simp add: Let_def)
qed

end
