(* ===== verification/State_Cache.thy ===== *)
theory State_Cache
  imports Vector_Clock Content_Chunks "HOL-Library.AList"
begin

text \<open>
  The local sync-state cache of \<^verbatim>\<open>crates/tcfs-sync/src/state.rs\<close>: the JSON backend (in memory,
  flushed through a temporary file), the RocksDB backend (write-through with an in-memory mirror)
  and the dispatch over both. A \<^verbatim>\<open>HashMap\<close> is a partial function; where the code iterates over
  it, the iteration order is an argument. \<^verbatim>\<open>serde_json\<close> and RocksDB are parameters.
\<close>

section \<open>Model: entries and the JSON backend\<close>

record SyncState =
  ss_blake3 :: string
  ss_size :: u64
  ss_mtime :: u64
  ss_chunk_count :: usize
  ss_remote_path :: string
  ss_last_synced :: u64
  ss_vclock :: VectorClock
  ss_device_id :: string

type_synonym entry_map = "string \<Rightarrow> SyncState option"

record StateCache =
  db_path :: path
  entries :: entry_map
  dirty :: bool
  last_nats_seq :: u64
  sc_device_id :: string

text \<open>The JSON texts \<^verbatim>\<open>serde_json\<close> reads and writes for the whole map and for one entry.\<close>

record state_codec =
  map_to_json :: "entry_map \<Rightarrow> string option"
  map_from_json :: "string \<Rightarrow> entry_map option"
  entry_to_json :: "SyncState \<Rightarrow> bytes option"
  entry_from_json :: "bytes \<Rightarrow> SyncState option"

definition read_to_string :: "fs \<Rightarrow> path \<Rightarrow> string res" where
  "read_to_string f p =
     (case fs_read f p of
        Inl e \<Rightarrow> Inl e
      | Inr d \<Rightarrow> ok_or (EUtf8 (path_str p)) (from_utf8 d))"

definition path_key :: "fs \<Rightarrow> path \<Rightarrow> string" where
  "path_key f p = path_str (case fs_canonicalize f p of Some q \<Rightarrow> q | None \<Rightarrow> p)"

definition sc_open :: "state_codec \<Rightarrow> fs \<Rightarrow> path \<Rightarrow> StateCache res" where
  "sc_open J f db =
     (case (if fs_exists f db
            then (case read_to_string f db of
                    Inl e \<Rightarrow> Inl e
                  | Inr s \<Rightarrow> ok_or (EParse ''state cache'' (path_str db)) (map_from_json J s))
            else Ok (\<lambda>_. None)) of
        Inl e \<Rightarrow> Inl e
      | Inr es \<Rightarrow> Ok \<lparr>db_path = db, entries = es, dirty = False, last_nats_seq = 0, sc_device_id = []\<rparr>)"

definition sc_get :: "fs \<Rightarrow> StateCache \<Rightarrow> path \<Rightarrow> SyncState option" where
  "sc_get f c p = entries c (path_key f p)"

definition sc_set :: "fs \<Rightarrow> StateCache \<Rightarrow> path \<Rightarrow> SyncState \<Rightarrow> StateCache" where
  "sc_set f c p st = c\<lparr>entries := (entries c)(path_key f p := Some st), dirty := True\<rparr>"

definition sc_remove :: "fs \<Rightarrow> StateCache \<Rightarrow> path \<Rightarrow> StateCache" where
  "sc_remove f c p =
     (let k = path_key f p; c' = c\<lparr>entries := (entries c)(k := None)\<rparr>
      in if entries c k \<noteq> None then c'\<lparr>dirty := True\<rparr> else c')"

definition sc_len :: "StateCache \<Rightarrow> nat" where
  "sc_len c = card (dom (entries c))"

definition sc_is_empty :: "StateCache \<Rightarrow> bool" where
  "sc_is_empty c \<longleftrightarrow> (\<forall>k. entries c k = None)"

definition matches_rel :: "string \<Rightarrow> SyncState \<Rightarrow> bool" where
  "matches_rel rel st \<longleftrightarrow>
     ends_with (slash # rel) (ss_remote_path st) \<or> ss_remote_path st = rel"

text \<open>\<open>ord\<close> is the order in which the hash map yields its keys.\<close>

definition find_entry :: "string list \<Rightarrow> entry_map \<Rightarrow> (SyncState \<Rightarrow> bool) \<Rightarrow> (string \<times> SyncState) option" where
  "find_entry ord es P =
     (case find (\<lambda>k. case es k of None \<Rightarrow> False | Some st \<Rightarrow> P st) ord of
        None \<Rightarrow> None
      | Some k \<Rightarrow> map_option (\<lambda>st. (k, st)) (es k))"

definition sc_get_by_rel_path :: "string list \<Rightarrow> StateCache \<Rightarrow> string \<Rightarrow> (string \<times> SyncState) option" where
  "sc_get_by_rel_path ord c rel = find_entry ord (entries c) (matches_rel rel)"

definition sc_all_entries :: "string list \<Rightarrow> StateCache \<Rightarrow> (string \<times> SyncState) list" where
  "sc_all_entries ord c = List.map_filter (\<lambda>k. map_option (Pair k) (entries c k)) ord"

definition sc_flush :: "state_codec \<Rightarrow> fs \<Rightarrow> StateCache \<Rightarrow> unit res \<times> fs \<times> StateCache" where
  "sc_flush J f c =
     (if \<not> dirty c then (Ok (), f, c)
      else (case fs_ensure_parent f (db_path c) of
              (Inl e, f1) \<Rightarrow> (Inl e, f1, c)
            | (Inr _, f1) \<Rightarrow>
                (case map_to_json J (entries c) of
                   None \<Rightarrow> (Err (ESerialize ''state cache''), f1, c)
                 | Some json \<Rightarrow>
                     (case fs_replace f1 (with_extension (db_path c) ''tmp'') (db_path c)
                             (bytes_of_str json) of
                        (Inl e, f2) \<Rightarrow> (Inl e, f2, c)
                      | (Inr _, f2) \<Rightarrow> (Ok (), f2, c\<lparr>dirty := False\<rparr>)))))"

definition sc_drop :: "state_codec \<Rightarrow> fs \<Rightarrow> StateCache \<Rightarrow> fs" where
  "sc_drop J f c = (if dirty c then fst (snd (sc_flush J f c)) else f)"

datatype SyncReason = NewFile | SizeChanged u64 u64 | ContentChanged

text \<open>The comparison shared, line by line, by the two backends.\<close>

definition needs_sync_entry ::
  "hasher \<Rightarrow> fs \<Rightarrow> path \<Rightarrow> SyncState option \<Rightarrow> SyncReason option res" where
  "needs_sync_entry H f p cached =
     (case fs_metadata f p of
        Inl e \<Rightarrow> Inl e
      | Inr (sz, mt) \<Rightarrow>
          (case cached of
             None \<Rightarrow> Ok (Some NewFile)
           | Some st \<Rightarrow>
               if ss_size st \<noteq> sz then Ok (Some (SizeChanged (ss_size st) sz))
               else if ss_mtime st \<noteq> mtime_secs mt
               then (case hash_file H f p of
                       Inl e \<Rightarrow> Inl e
                     | Inr h \<Rightarrow> if hash_to_hex H h \<noteq> ss_blake3 st then Ok (Some ContentChanged)
                                else Ok None)
               else Ok None))"

definition sc_needs_sync :: "hasher \<Rightarrow> fs \<Rightarrow> StateCache \<Rightarrow> path \<Rightarrow> SyncReason option res" where
  "sc_needs_sync H f c p = needs_sync_entry H f p (sc_get f c p)"

definition make_sync_state_full ::
  "fs \<Rightarrow> path \<Rightarrow> string \<Rightarrow> usize \<Rightarrow> string \<Rightarrow> VectorClock \<Rightarrow> string \<Rightarrow> SyncState res" where
  "make_sync_state_full f p hash n remote vc dev =
     (case fs_metadata f p of
        Inl e \<Rightarrow> Inl e
      | Inr (sz, mt) \<Rightarrow>
          Ok \<lparr>ss_blake3 = hash, ss_size = sz, ss_mtime = mtime_secs mt, ss_chunk_count = n,
              ss_remote_path = remote, ss_last_synced = fs_now f, ss_vclock = vc, ss_device_id = dev\<rparr>)"

definition make_sync_state :: "fs \<Rightarrow> path \<Rightarrow> string \<Rightarrow> usize \<Rightarrow> string \<Rightarrow> SyncState res" where
  "make_sync_state f p hash n remote = make_sync_state_full f p hash n remote vc_new []"

section \<open>Model: the RocksDB backend and the dispatch\<close>

record 'd rocksdb =
  db_put :: "'d \<Rightarrow> bytes \<Rightarrow> bytes \<Rightarrow> unit res \<times> 'd"
  db_delete :: "'d \<Rightarrow> bytes \<Rightarrow> unit res \<times> 'd"
  db_iter :: "'d \<Rightarrow> (bytes \<times> bytes) res list"

record 'd RocksDbStateCache =
  rk_db :: 'd
  rk_entries :: entry_map
  rk_device_id :: string
  rk_last_nats_seq :: u64

text \<open>
  Keys are decoded with \<^verbatim>\<open>from_utf8_lossy\<close>. Items whose value does not
  parse are skipped, an iterator error aborts.
\<close>

fun rk_load ::
  "state_codec \<Rightarrow> entry_map \<Rightarrow> (bytes \<times> bytes) res list \<Rightarrow> entry_map res" where
  "rk_load J m [] = Ok m"
| "rk_load J m (Inl e # r) = Inl e"
| "rk_load J m (Inr (k, v) # r) =
     (case entry_from_json J v of
        None \<Rightarrow> rk_load J m r
      | Some st \<Rightarrow> rk_load J (m(from_utf8_lossy k := Some st)) r)"

definition rk_open ::
  "'d rocksdb \<Rightarrow> state_codec \<Rightarrow> 'd res \<Rightarrow> 'd RocksDbStateCache res" where
  "rk_open R J opened =
     (case opened of
        Inl e \<Rightarrow> Inl e
      | Inr d \<Rightarrow>
          (case rk_load J (\<lambda>_. None) (db_iter R d) of
             Inl e \<Rightarrow> Inl e
           | Inr es \<Rightarrow> Ok \<lparr>rk_db = d, rk_entries = es, rk_device_id = [], rk_last_nats_seq = 0\<rparr>))"

definition rk_get :: "fs \<Rightarrow> 'd RocksDbStateCache \<Rightarrow> path \<Rightarrow> SyncState option" where
  "rk_get f c p = rk_entries c (path_key f p)"

definition rk_set ::
  "'d rocksdb \<Rightarrow> state_codec \<Rightarrow> fs \<Rightarrow> 'd RocksDbStateCache \<Rightarrow> path \<Rightarrow> SyncState \<Rightarrow> 'd RocksDbStateCache" where
  "rk_set R J f c p st =
     (let k = path_key f p;
          d' = (case entry_to_json J st of
                  None \<Rightarrow> rk_db c
                | Some json \<Rightarrow> snd (db_put R (rk_db c) (bytes_of_str k) json))
      in c\<lparr>rk_db := d', rk_entries := (rk_entries c)(k := Some st)\<rparr>)"

definition rk_remove ::
  "'d rocksdb \<Rightarrow> fs \<Rightarrow> 'd RocksDbStateCache \<Rightarrow> path \<Rightarrow> 'd RocksDbStateCache" where
  "rk_remove R f c p =
     (let k = path_key f p
      in c\<lparr>rk_db := snd (db_delete R (rk_db c) (bytes_of_str k)),
           rk_entries := (rk_entries c)(k := None)\<rparr>)"

definition rk_flush :: "'d RocksDbStateCache \<Rightarrow> unit res" where
  "rk_flush c = Ok ()"

definition rk_get_by_rel_path ::
  "string list \<Rightarrow> 'd RocksDbStateCache \<Rightarrow> string \<Rightarrow> (string \<times> SyncState) option" where
  "rk_get_by_rel_path ord c rel = find_entry ord (rk_entries c) (matches_rel rel)"

definition rk_needs_sync ::
  "hasher \<Rightarrow> fs \<Rightarrow> 'd RocksDbStateCache \<Rightarrow> path \<Rightarrow> SyncReason option res" where
  "rk_needs_sync H f c p = needs_sync_entry H f p (rk_get f c p)"

definition rk_len :: "'d RocksDbStateCache \<Rightarrow> nat" where
  "rk_len c = card (dom (rk_entries c))"

datatype 'd StateBackend = Json StateCache | Rocks "'d RocksDbStateCache"

definition sb_open ::
  "bool \<Rightarrow> 'd rocksdb \<Rightarrow> state_codec \<Rightarrow> (path \<Rightarrow> 'd res) \<Rightarrow> fs \<Rightarrow> path \<Rightarrow> 'd StateBackend res" where
  "sb_open full R J dbopen f p =
     (let is_json = (case extension p of None \<Rightarrow> False | Some e \<Rightarrow> e = ''json'')
      in if full \<and> \<not> is_json
         then (case rk_open R J (dbopen p) of Inl e \<Rightarrow> Inl e | Inr c \<Rightarrow> Ok (Rocks c))
         else (case sc_open J f p of Inl e \<Rightarrow> Inl e | Inr c \<Rightarrow> Ok (Json c)))"

fun sb_device_id :: "'d StateBackend \<Rightarrow> string" where
  "sb_device_id (Json c) = sc_device_id c"
| "sb_device_id (Rocks c) = rk_device_id c"

fun sb_set_device_id :: "'d StateBackend \<Rightarrow> string \<Rightarrow> 'd StateBackend" where
  "sb_set_device_id (Json c) i = Json (c\<lparr>sc_device_id := i\<rparr>)"
| "sb_set_device_id (Rocks c) i = Rocks (c\<lparr>rk_device_id := i\<rparr>)"

fun sb_last_nats_seq :: "'d StateBackend \<Rightarrow> u64" where
  "sb_last_nats_seq (Json c) = last_nats_seq c"
| "sb_last_nats_seq (Rocks c) = rk_last_nats_seq c"

fun sb_set_last_nats_seq :: "'d StateBackend \<Rightarrow> u64 \<Rightarrow> 'd StateBackend" where
  "sb_set_last_nats_seq (Json c) n = Json (c\<lparr>last_nats_seq := n\<rparr>)"
| "sb_set_last_nats_seq (Rocks c) n = Rocks (c\<lparr>rk_last_nats_seq := n\<rparr>)"

fun sb_get :: "fs \<Rightarrow> 'd StateBackend \<Rightarrow> path \<Rightarrow> SyncState option" where
  "sb_get f (Json c) p = sc_get f c p"
| "sb_get f (Rocks c) p = rk_get f c p"

fun sb_set ::
  "'d rocksdb \<Rightarrow> state_codec \<Rightarrow> fs \<Rightarrow> 'd StateBackend \<Rightarrow> path \<Rightarrow> SyncState \<Rightarrow> 'd StateBackend" where
  "sb_set R J f (Json c) p st = Json (sc_set f c p st)"
| "sb_set R J f (Rocks c) p st = Rocks (rk_set R J f c p st)"

fun sb_remove :: "'d rocksdb \<Rightarrow> fs \<Rightarrow> 'd StateBackend \<Rightarrow> path \<Rightarrow> 'd StateBackend" where
  "sb_remove R f (Json c) p = Json (sc_remove f c p)"
| "sb_remove R f (Rocks c) p = Rocks (rk_remove R f c p)"

fun sb_flush :: "state_codec \<Rightarrow> fs \<Rightarrow> 'd StateBackend \<Rightarrow> unit res \<times> fs \<times> 'd StateBackend" where
  "sb_flush J f (Json c) = (case sc_flush J f c of (r, f', c') \<Rightarrow> (r, f', Json c'))"
| "sb_flush J f (Rocks c) = (rk_flush c, f, Rocks c)"

fun sb_get_by_rel_path :: "string list \<Rightarrow> 'd StateBackend \<Rightarrow> string \<Rightarrow> (string \<times> SyncState) option" where
  "sb_get_by_rel_path ord (Json c) rel = sc_get_by_rel_path ord c rel"
| "sb_get_by_rel_path ord (Rocks c) rel = rk_get_by_rel_path ord c rel"

fun sb_needs_sync :: "hasher \<Rightarrow> fs \<Rightarrow> 'd StateBackend \<Rightarrow> path \<Rightarrow> SyncReason option res" where
  "sb_needs_sync H f (Json c) p = sc_needs_sync H f c p"
| "sb_needs_sync H f (Rocks c) p = rk_needs_sync H f c p"

fun sb_len :: "'d StateBackend \<Rightarrow> nat" where
  "sb_len (Json c) = sc_len c"
| "sb_len (Rocks c) = rk_len c"

section \<open>The backend contract\<close>

locale state_backend =
  fixes key :: "path \<Rightarrow> string"
    and get :: "'c \<Rightarrow> path \<Rightarrow> SyncState option"
    and put :: "'c \<Rightarrow> path \<Rightarrow> SyncState \<Rightarrow> 'c"
    and rem :: "'c \<Rightarrow> path \<Rightarrow> 'c"
    and size :: "'c \<Rightarrow> nat"
    and fin :: "'c \<Rightarrow> bool"
  assumes get_key: "key p = key q \<Longrightarrow> get c p = get c q"
    and get_put: "get (put c p st) q = (if key q = key p then Some st else get c q)"
    and get_rem: "get (rem c p) q = (if key q = key p then None else get c q)"
    and size_put: "fin c \<Longrightarrow> size (put c p st) = (if get c p = None then Suc (size c) else size c)"
    and size_rem: "fin c \<Longrightarrow> size (rem c p) = (if get c p = None then size c else size c - 1)"
    and fin_put: "fin c \<Longrightarrow> fin (put c p st)"
    and fin_rem: "fin c \<Longrightarrow> fin (rem c p)"
begin

lemma get_put_same: "get (put c p st) p = Some st"
  by (simp add: get_put)

lemma get_put_frame: "key q \<noteq> key p \<Longrightarrow> get (put c p st) q = get c q"
  by (simp add: get_put)

lemma get_rem_put: "get (rem (put c p st) p) q = get (rem c p) q"
  by (simp add: get_put get_rem)

lemma last_put_wins: "get (put (put c p st) p st') q = get (put c p st') q"
  by (simp add: get_put)

lemma size_rem_put:
  "fin c \<Longrightarrow> get c p = None \<Longrightarrow> size (rem (put c p st) p) = size c"
  by (simp add: get_put size_put size_rem fin_put)

end

definition sc_finite :: "StateCache \<Rightarrow> bool" where
  "sc_finite c \<longleftrightarrow> finite (dom (entries c))"

definition rk_finite :: "'d RocksDbStateCache \<Rightarrow> bool" where
  "rk_finite c \<longleftrightarrow> finite (dom (rk_entries c))"

lemma card_dom_upd:
  "finite (dom m) \<Longrightarrow> card (dom (m(k := Some v))) = (if m k = None then Suc (card (dom m)) else card (dom m))"
  by (auto simp: insert_absorb domI domIff)

lemma card_dom_del:
  "finite (dom m) \<Longrightarrow> card (dom (m(k := None))) = (if m k = None then card (dom m) else card (dom m) - 1)"
  by (auto simp: domIff)

lemma entries_sc_remove [simp]: "entries (sc_remove f c p) = (entries c)(path_key f p := None)"
  by (simp add: sc_remove_def Let_def)

lemma entries_sc_set [simp]: "entries (sc_set f c p st) = (entries c)(path_key f p := Some st)"
  by (simp add: sc_set_def)

lemma rk_entries_set [simp]: "rk_entries (rk_set R J f c p st) = (rk_entries c)(path_key f p := Some st)"
  by (simp add: rk_set_def Let_def)

lemma rk_entries_remove [simp]: "rk_entries (rk_remove R f c p) = (rk_entries c)(path_key f p := None)"
  by (simp add: rk_remove_def Let_def)

interpretation json_backend: state_backend "path_key f" "sc_get f" "sc_set f" "sc_remove f" sc_len sc_finite
  for f
proof unfold_locales
  fix c p st
  assume "sc_finite c"
  then show "sc_len (sc_set f c p st) = (if sc_get f c p = None then Suc (sc_len c) else sc_len c)"
    and "sc_len (sc_remove f c p) = (if sc_get f c p = None then sc_len c else sc_len c - 1)"
    by (simp_all only: sc_len_def sc_get_def sc_finite_def entries_sc_set entries_sc_remove
        card_dom_upd card_dom_del)
qed (simp_all add: sc_get_def sc_finite_def)

interpretation rocks_backend: state_backend "path_key f" "rk_get f" "rk_set R J f" "rk_remove R f"
  rk_len rk_finite
  for f R J
proof unfold_locales
  fix c :: "'a RocksDbStateCache" and p st
  assume "rk_finite c"
  then show "rk_len (rk_set R J f c p st) = (if rk_get f c p = None then Suc (rk_len c) else rk_len c)"
    and "rk_len (rk_remove R f c p) = (if rk_get f c p = None then rk_len c else rk_len c - 1)"
    by (simp_all only: rk_len_def rk_get_def rk_finite_def rk_entries_set rk_entries_remove
        card_dom_upd card_dom_del)
qed (simp_all add: rk_get_def rk_finite_def)

definition sb_finite :: "'d StateBackend \<Rightarrow> bool" where
  "sb_finite b = (case b of Json c \<Rightarrow> sc_finite c | Rocks c \<Rightarrow> rk_finite c)"

interpretation dispatch: state_backend "path_key f" "sb_get f" "sb_set R J f" "sb_remove R f" sb_len sb_finite
  for f R J
proof unfold_locales
  fix c :: "'a StateBackend" and p q st
  show "path_key f p = path_key f q \<Longrightarrow> sb_get f c p = sb_get f c q"
    by (cases c) (auto intro: json_backend.get_key rocks_backend.get_key)
  show "sb_get f (sb_set R J f c p st) q = (if path_key f q = path_key f p then Some st else sb_get f c q)"
    by (cases c) (simp_all only: sb_get.simps sb_set.simps json_backend.get_put rocks_backend.get_put)
  show "sb_get f (sb_remove R f c p) q = (if path_key f q = path_key f p then None else sb_get f c q)"
    by (cases c) (simp_all only: sb_get.simps sb_remove.simps json_backend.get_rem rocks_backend.get_rem)
  assume fin: "sb_finite c"
  show "sb_len (sb_set R J f c p st) = (if sb_get f c p = None then Suc (sb_len c) else sb_len c)"
    using fin by (cases c) (simp_all add: sb_finite_def json_backend.size_put rocks_backend.size_put)
  show "sb_len (sb_remove R f c p) = (if sb_get f c p = None then sb_len c else sb_len c - 1)"
    using fin by (cases c) (simp_all add: sb_finite_def json_backend.size_rem rocks_backend.size_rem)
  show "sb_finite (sb_set R J f c p st)" "sb_finite (sb_remove R f c p)"
    using fin by (cases c; simp add: sb_finite_def json_backend.fin_put rocks_backend.fin_put
        json_backend.fin_rem rocks_backend.fin_rem)+
qed

definition sample_state :: SyncState where
  "sample_state = \<lparr>ss_blake3 = ''aa'', ss_size = 2, ss_mtime = 5, ss_chunk_count = 1,
     ss_remote_path = ''p/manifests/aa'', ss_last_synced = 9, ss_vclock = vc_new, ss_device_id = ''d1''\<rparr>"

definition sample_cache :: StateCache where
  "sample_cache = \<lparr>db_path = path_of ''/state.json'', entries = (\<lambda>_. None), dirty = True,
     last_nats_seq = 0, sc_device_id = ''d1''\<rparr>"

section \<open>Flushing and reopening\<close>

text \<open>\<^verbatim>\<open>serde_json\<close> reads back what it writes, and writes UTF-8 text.\<close>

definition state_codec_laws :: "state_codec \<Rightarrow> bool" where
  "state_codec_laws J \<longleftrightarrow>
     (\<forall>m s. map_to_json J m = Some s \<longrightarrow> map_from_json J s = Some m \<and> from_utf8 (bytes_of_str s) = Some s) \<and>
     (\<forall>st b. entry_to_json J st = Some b \<longrightarrow> entry_from_json J b = Some st)"

lemma sc_flush_ok_cases:
  assumes "sc_flush J f c = (Inr u, f', c')" and "dirty c"
  obtains f1 json where "fs_ensure_parent f (db_path c) = (Inr (), f1)"
    "map_to_json J (entries c) = Some json"
    "fs_replace f1 (with_extension (db_path c) ''tmp'') (db_path c) (bytes_of_str json) = (Inr (), f')"
    "c' = c\<lparr>dirty := False\<rparr>"
  using assms by (auto simp: sc_flush_def split: if_splits prod.splits sum.splits option.splits)

lemma sc_flush_env:
  assumes "sc_flush J f c = (r, f', c')"
  shows "fault f' = fault f \<and> canon f' = canon f \<and> entries c' = entries c \<and> db_path c' = db_path c"
  using assms ensure_parent_env[of f "db_path c"]
  by (auto simp: sc_flush_def split: if_splits prod.splits sum.splits option.splits
      dest: fs_replace_env)

lemma sc_flush_frame:
  assumes "sc_flush J f c = (r, f', c')" and "q \<noteq> db_path c" and "q \<noteq> with_extension (db_path c) ''tmp''"
  shows "files f' q = files f q" and "db_path c' = db_path c"
proof -
  have "files g' q = files g q" if "fs_replace g (with_extension (db_path c) ''tmp'') (db_path c) d = (x, g')" for g g' d x
    using that assms(2,3) by (cases x) (auto dest: fs_replace_ok fs_replace_err)
  then show "files f' q = files f q" and "db_path c' = db_path c"
    using assms(1) ensure_parent_files[of f "db_path c"]
    by (auto simp: sc_flush_def split: if_splits prod.splits sum.splits option.splits)
qed

lemma sc_drop_frame:
  assumes "q \<noteq> db_path c" and "q \<noteq> with_extension (db_path c) ''tmp''"
  shows "files (sc_drop J f c) q = files f q"
proof -
  obtain r f' c' where fl: "sc_flush J f c = (r, f', c')" by (metis prod_cases3)
  with sc_flush_frame(1)[OF fl assms] show ?thesis by (simp add: sc_drop_def)
qed

text \<open>
  A successful flush is durable: opening the cache again finds exactly the entries that were
  in memory, and the flushed cache has no unsaved changes.
\<close>

theorem flush_then_open:
  assumes "state_codec_laws J" and "dirty c" and "sc_flush J f c = (Inr u, f', c')"
    and "\<not> fault f OpStat (db_path c)" and "\<not> fault f OpRead (db_path c)"
  shows "\<exists>c2. sc_open J f' (db_path c) = Inr c2 \<and> entries c2 = entries c \<and> \<not> dirty c' \<and> \<not> dirty c2"
proof -
  obtain f1 json where j: "map_to_json J (entries c) = Some json"
    and r: "fs_replace f1 (with_extension (db_path c) ''tmp'') (db_path c) (bytes_of_str json) = (Inr (), f')"
    and c': "c' = c\<lparr>dirty := False\<rparr>"
    using sc_flush_ok_cases[OF assms(3,2)] by metis
  have content: "files f' (db_path c) = Some \<lparr>f_data = bytes_of_str json, f_mtime = mclock f1\<rparr>"
    using fs_replace_ok[OF r] by simp
  have flt: "\<not> fault f' OpStat (db_path c)" "\<not> fault f' OpRead (db_path c)"
    using sc_flush_env[OF assms(3)] assms(4,5) by simp_all
  have "map_from_json J json = Some (entries c)" "from_utf8 (bytes_of_str json) = Some json"
    using assms(1) j by (auto simp: state_codec_laws_def)
  with content flt show ?thesis
    by (simp add: sc_open_def fs_exists_def read_to_string_def fs_read_def c')
qed

text \<open>
  A failed flush loses nothing: whatever step failed, the state file on disk keeps its old
  content and the cache keeps its entries and stays dirty, so a later flush retries.
\<close>

theorem flush_failure_is_atomic:
  assumes "sc_flush J f c = (Inl e, f', c')"
    and "file_name (db_path c) \<noteq> None" and "extension (db_path c) \<noteq> Some ''tmp''"
  shows "files f' (db_path c) = files f (db_path c) \<and> c' = c \<and> dirty c"
proof -
  have tmp: "db_path c \<noteq> with_extension (db_path c) ''tmp''"
    using with_extension_neq[of "''tmp''" "db_path c"] assms(2,3) by auto
  show ?thesis
    using assms(1) ensure_parent_files[of f "db_path c"] fs_replace_err[OF _ tmp]
    by (auto simp: sc_flush_def split: if_splits prod.splits sum.splits option.splits)
qed

section \<open>Both backends implement a durable map\<close>

text \<open>The changes a client makes, on a backend and on the map it stands for.\<close>

datatype state_op = SetState path SyncState | RemoveState path

fun sb_apply :: "'d rocksdb \<Rightarrow> state_codec \<Rightarrow> fs \<Rightarrow> 'd StateBackend \<Rightarrow> state_op \<Rightarrow> 'd StateBackend" where
  "sb_apply R J f b (SetState p st) = sb_set R J f b p st"
| "sb_apply R J f b (RemoveState p) = sb_remove R f b p"

fun map_apply :: "fs \<Rightarrow> entry_map \<Rightarrow> state_op \<Rightarrow> entry_map" where
  "map_apply f m (SetState p st) = m(path_key f p := Some st)"
| "map_apply f m (RemoveState p) = m(path_key f p := None)"

fun sb_map :: "'d StateBackend \<Rightarrow> entry_map" where
  "sb_map (Json c) = entries c"
| "sb_map (Rocks c) = rk_entries c"

text \<open>
  What RocksDB documents: iteration yields every key once, a successful put or delete changes
  exactly its key.
\<close>

definition db_items :: "'d rocksdb \<Rightarrow> 'd \<Rightarrow> (bytes \<times> bytes) list" where
  "db_items R d = List.map_filter (case_sum (\<lambda>_. None) Some) (db_iter R d)"

definition rocks_laws :: "'d rocksdb \<Rightarrow> bool" where
  "rocks_laws R \<longleftrightarrow>
     (\<forall>d. distinct (map fst (db_items R d))) \<and>
     (\<forall>d k v d'. db_put R d k v = (Ok (), d') \<longrightarrow> map_of (db_items R d') = (map_of (db_items R d))(k \<mapsto> v)) \<and>
     (\<forall>d k d'. db_delete R d k = (Ok (), d') \<longrightarrow> map_of (db_items R d') = (map_of (db_items R d))(k := None))"

definition rocks_writes_ok :: "'d rocksdb \<Rightarrow> bool" where
  "rocks_writes_ok R \<longleftrightarrow> (\<forall>d k v. is_ok (fst (db_put R d k v))) \<and> (\<forall>d k. is_ok (fst (db_delete R d k)))"

lemma rocks_writes_okD:
  assumes "rocks_writes_ok R"
  shows "\<exists>d'. db_put R d k v = (Ok (), d')" and "\<exists>d'. db_delete R d k = (Ok (), d')"
proof -
  have unit: "\<exists>y. x = (Ok (), y)" if "is_ok (fst x)" for x :: "unit res \<times> 'a"
    using that by (cases x; cases "fst x") auto
  show "\<exists>d'. db_put R d k v = (Ok (), d')" and "\<exists>d'. db_delete R d k = (Ok (), d')"
    using assms by (auto simp: rocks_writes_ok_def intro!: unit)
qed

fun op_storable :: "state_codec \<Rightarrow> fs \<Rightarrow> state_op \<Rightarrow> bool" where
  "op_storable J f (SetState p st) \<longleftrightarrow> entry_to_json J st \<noteq> None \<and> utf8_valid (bytes_of_str (path_key f p))"
| "op_storable J f (RemoveState p) \<longleftrightarrow> utf8_valid (bytes_of_str (path_key f p))"

lemma sb_get_map: "sb_get f b q = sb_map b (path_key f q)"
  by (cases b) (simp_all add: sc_get_def rk_get_def)

lemma sb_map_run: "sb_map (foldl (sb_apply R J f) b ops) = foldl (map_apply f) (sb_map b) ops"
proof (induction ops arbitrary: b)
  case (Cons x ops)
  have "sb_map (sb_apply R J f b x) = map_apply f (sb_map b) x"
    by (cases x; cases b) simp_all
  with Cons show ?case by simp
qed simp

text \<open>Loading a database whose keys are UTF-8 reads each entry that parses.\<close>

lemma rk_load_items:
  assumes "distinct (map fst xs)" and "\<forall>x \<in> set xs. utf8_valid (fst x)"
  shows "rk_load J m (map Inr xs) =
    Inr (\<lambda>s. case Option.bind (map_of xs (bytes_of_str s)) (entry_from_json J) of None \<Rightarrow> m s | Some st \<Rightarrow> Some st)"
  using assms
proof (induction xs arbitrary: m)
  case (Cons x xs)
  obtain k v where x: "x = (k, v)" by fastforce
  have k: "bytes_of_str s = k \<longleftrightarrow> s = from_utf8_lossy k" for s
    using Cons.prems(2) from_utf8_lossy_valid[of k] by (auto simp: x from_utf8_def)
  have "map_of xs k = None" using Cons.prems(1) by (simp add: x map_of_eq_None_iff)
  with Cons.IH Cons.prems show ?case
    by (cases "entry_from_json J v") (auto simp: x k k[THEN iffD2, OF refl] fun_eq_iff split: option.splits)
qed simp

lemma rk_load_ok: "rk_load J m xs = Inr es \<Longrightarrow> \<forall>x \<in> set xs. is_ok x"
  by (induction J m xs rule: rk_load.induct) (auto split: option.splits)

definition rk_clean :: "'d rocksdb \<Rightarrow> 'd \<Rightarrow> bool" where
  "rk_clean R d \<longleftrightarrow> (\<forall>k v. map_of (db_items R d) k = Some v \<longrightarrow> utf8_valid k)"

definition rk_view :: "'d rocksdb \<Rightarrow> state_codec \<Rightarrow> 'd \<Rightarrow> entry_map" where
  "rk_view R J d = (\<lambda>s. Option.bind (map_of (db_items R d) (bytes_of_str s)) (entry_from_json J))"

lemma rk_open_view:
  assumes "rocks_laws R" and "rk_clean R d" and "\<forall>x \<in> set (db_iter R d). is_ok x"
  shows "rk_open R J (Inr d) = Inr \<lparr>rk_db = d, rk_entries = rk_view R J d, rk_device_id = [], rk_last_nats_seq = 0\<rparr>"
proof -
  have "map Inr (List.map_filter (case_sum (\<lambda>_. None) Some) ys) = ys" if "\<forall>x \<in> set ys. is_ok x" for ys :: "(bytes \<times> bytes) res list"
    using that by (induction ys) (auto simp: map_filter_simps is_ok_def split: sum.splits)
  from this[OF assms(3)] have "db_iter R d = map Inr (db_items R d)" by (simp add: db_items_def)
  moreover have "\<forall>x \<in> set (db_items R d). utf8_valid (fst x)"
    using assms(1,2) by (auto simp: rk_clean_def rocks_laws_def)
  moreover have "distinct (map fst (db_items R d))" using assms(1) by (simp add: rocks_laws_def)
  ultimately show ?thesis
    by (simp add: rk_open_def rk_load_items rk_view_def fun_eq_iff split: option.split)
qed

text \<open>Write-through: the mirror in memory is always what reopening the database would load.\<close>

lemma rk_apply_synced:
  assumes "rocks_laws R" and "rocks_writes_ok R" and "state_codec_laws J" and "op_storable J f x"
    and "rk_clean R (rk_db c)" and "rk_entries c = rk_view R J (rk_db c)"
  shows "\<exists>c'. sb_apply R J f (Rocks c) x = Rocks c' \<and> rk_clean R (rk_db c') \<and> rk_entries c' = rk_view R J (rk_db c')"
proof (cases x)
  case (SetState p st)
  let ?k = "path_key f p"
  obtain json where json: "entry_to_json J st = Some json" "entry_from_json J json = Some st"
    using assms(3,4) by (auto simp: SetState state_codec_laws_def)
  obtain d' where "db_put R (rk_db c) (bytes_of_str ?k) json = (Ok (), d')"
    using rocks_writes_okD(1)[OF assms(2)] by blast
  moreover from this have "map_of (db_items R d') = (map_of (db_items R (rk_db c)))(bytes_of_str ?k \<mapsto> json)"
    using assms(1) by (simp add: rocks_laws_def)
  ultimately show ?thesis
    using assms(4-6) json by (auto simp: SetState rk_set_def Let_def rk_clean_def rk_view_def fun_eq_iff bytes_of_str_inj)
next
  case (RemoveState p)
  let ?k = "path_key f p"
  obtain d' where "db_delete R (rk_db c) (bytes_of_str ?k) = (Ok (), d')"
    using rocks_writes_okD(2)[OF assms(2)] by blast
  moreover from this have "map_of (db_items R d') = (map_of (db_items R (rk_db c)))(bytes_of_str ?k := None)"
    using assms(1) by (simp add: rocks_laws_def)
  ultimately show ?thesis
    using assms(4-6) by (auto simp: RemoveState rk_remove_def Let_def rk_clean_def rk_view_def fun_eq_iff bytes_of_str_inj)
qed

lemma rk_run_synced:
  assumes "rocks_laws R" and "rocks_writes_ok R" and "state_codec_laws J" and "\<forall>x \<in> set ops. op_storable J f x"
    and "rk_clean R (rk_db c)" and "rk_entries c = rk_view R J (rk_db c)"
  shows "\<exists>c'. foldl (sb_apply R J f) (Rocks c) ops = Rocks c' \<and> rk_clean R (rk_db c') \<and> rk_entries c' = rk_view R J (rk_db c')"
  using assms(4-6)
proof (induction ops arbitrary: c)
  case (Cons x ops)
  then obtain c' where "sb_apply R J f (Rocks c) x = Rocks c'" "rk_clean R (rk_db c')" "rk_entries c' = rk_view R J (rk_db c')"
    using rk_apply_synced[OF assms(1-3), of f x c] by auto
  with Cons show ?case by simp
qed simp

lemma json_run:
  "\<exists>c'. foldl (sb_apply R J f) (Json c) ops = Json c' \<and> db_path c' = db_path c \<and>
     (dirty c \<longrightarrow> dirty c') \<and> (\<not> dirty c' \<longrightarrow> entries c' = entries c)"
proof (induction ops arbitrary: c)
  case (Cons x ops)
  obtain c1 where c1: "sb_apply R J f (Json c) x = Json c1" "db_path c1 = db_path c" "dirty c \<longrightarrow> dirty c1"
      "\<not> dirty c1 \<longrightarrow> entries c1 = entries c"
    by (cases x) (auto simp: sc_set_def sc_remove_def Let_def fun_upd_idem)
  from Cons[of c1] obtain c' where "foldl (sb_apply R J f) (Json c1) ops = Json c'" "db_path c' = db_path c1"
      "dirty c1 \<longrightarrow> dirty c'" "\<not> dirty c' \<longrightarrow> entries c' = entries c1" by blast
  with c1 show ?case by auto
qed simp

lemma json_reopen:
  assumes "state_codec_laws J" and "sc_open J f p = Inr c0" and "foldl (sb_apply R J f) (Json c0) ops = Json c"
    and "sc_flush J f c = (Inr u, f', c')" and "\<not> fault f OpStat p" and "\<not> fault f OpRead p"
  shows "\<exists>c2. sc_open J f' p = Inr c2 \<and> entries c2 = entries c"
proof -
  have c0: "db_path c0 = p" using assms(2) by (auto simp: sc_open_def split: sum.splits)
  have c: "db_path c = p" "\<not> dirty c \<longrightarrow> entries c = entries c0"
    using json_run[of R J f c0 ops] assms(3) c0 by simp_all
  show ?thesis
  proof (cases "dirty c")
    case True
    then show ?thesis using flush_then_open[OF assms(1) True assms(4)] assms(5,6) c(1) by auto
  next
    case False
    then show ?thesis using assms(2,4) c(2) by (simp add: sc_flush_def)
  qed
qed

text \<open>
  C15: whichever backend is opened, the state cache is a durable map from canonical paths. After any
  sequence of changes followed by a successful flush, both the cache in memory and the cache found by
  opening the same place again answer every path as the map would that had the same changes made to
  it (for RocksDB: when no write to the database failed, and keys are UTF-8).
\<close>

theorem state_backend_durable:
  assumes "state_codec_laws J" and "rocks_laws R" and "rocks_writes_ok R"
    and "sb_open full R J dbopen f p = Inr b" and "\<And>d. dbopen p = Inr d \<Longrightarrow> rk_clean R d"
    and "\<forall>x \<in> set ops. op_storable J f x"
    and "sb_flush J f (foldl (sb_apply R J f) b ops) = (Inr (), f', b')"
    and "\<not> fault f OpStat p" and "\<not> fault f OpRead p"
    and "\<And>c. b' = Rocks c \<Longrightarrow> dbopen' p = Inr (rk_db c) \<and> (\<forall>x \<in> set (db_iter R (rk_db c)). is_ok x)"
  shows "\<exists>b2. sb_open full R J dbopen' f' p = Inr b2 \<and>
           (\<forall>g q. sb_get g b2 q = foldl (map_apply f) (sb_map b) ops (path_key g q) \<and>
                  sb_get g b' q = foldl (map_apply f) (sb_map b) ops (path_key g q))"
proof (cases b)
  case (Json c0)
  then have op: "sc_open J f p = Inr c0" "\<not> (full \<and> (case extension p of None \<Rightarrow> False | Some e \<Rightarrow> e = ''json'') = False)"
    using assms(4) by (auto simp: sb_open_def Let_def split: if_splits sum.splits)
  obtain c where c: "foldl (sb_apply R J f) (Json c0) ops = Json c" using json_run by blast
  then obtain c' where fl: "sc_flush J f c = (Inr (), f', c')" "b' = Json c'"
    using assms(7) Json by (auto split: prod.splits)
  obtain c2 where c2: "sc_open J f' p = Inr c2" "entries c2 = entries c"
    using json_reopen[OF assms(1) op(1) c fl(1) assms(8,9)] by blast
  have "entries c = foldl (map_apply f) (sb_map b) ops"
    using sb_map_run[of R J f b ops] Json c by simp
  moreover have "entries c' = entries c" using sc_flush_env[OF fl(1)] by simp
  ultimately show ?thesis
    using op(2) c2 fl(2) by (auto simp: sb_open_def Let_def sb_get_map)
next
  case (Rocks c0)
  then have op: "rk_open R J (dbopen p) = Inr c0" "full" "\<not> (case extension p of None \<Rightarrow> False | Some e \<Rightarrow> e = ''json'')"
    using assms(4) by (auto simp: sb_open_def Let_def split: if_splits sum.splits)
  then obtain d where d: "dbopen p = Inr d" by (auto simp: rk_open_def split: sum.splits)
  have "\<forall>x \<in> set (db_iter R d). is_ok x"
    using op(1) d rk_load_ok by (auto simp: rk_open_def split: sum.splits)
  then have c0: "rk_db c0 = d" "rk_entries c0 = rk_view R J d"
    using op(1) d rk_open_view[OF assms(2) assms(5)[OF d]] by auto
  obtain c where c: "foldl (sb_apply R J f) (Rocks c0) ops = Rocks c" "rk_clean R (rk_db c)" "rk_entries c = rk_view R J (rk_db c)"
    using rk_run_synced[OF assms(2,3,1,6), of c0] c0 assms(5)[OF d] by auto
  then have b': "b' = Rocks c" "f' = f" using assms(7) Rocks by simp_all
  have "rk_open R J (dbopen' p) = Inr \<lparr>rk_db = rk_db c, rk_entries = rk_entries c, rk_device_id = [], rk_last_nats_seq = 0\<rparr>"
    using rk_open_view[OF assms(2) c(2)] assms(10)[OF b'(1)] c(3) by simp
  moreover have "rk_entries c = foldl (map_apply f) (sb_map b) ops"
    using sb_map_run[of R J f b ops] Rocks c(1) by simp
  ultimately show ?thesis
    using op(2,3) b' by (auto simp: sb_open_def Let_def sb_get_map)
qed

text \<open>
  The change test. A file is considered up to date exactly when it is tracked, has the
  recorded size, and either the recorded modification time or (when the time moved) the recorded
  content hash; a file that cannot be read is an error, never "up to date".
\<close>

theorem needs_sync_up_to_date_iff:
  "sc_needs_sync H f c p = Inr None \<longleftrightarrow>
     (\<exists>st sz mt. sc_get f c p = Some st \<and> fs_metadata f p = Inr (sz, mt) \<and> ss_size st = sz \<and>
        (ss_mtime st = mtime_secs mt \<or>
         (\<exists>h. hash_file H f p = Inr h \<and> hash_to_hex H h = ss_blake3 st)))"
  by (auto simp: sc_needs_sync_def needs_sync_entry_def split: sum.splits option.splits if_splits)

text \<open>A codec for the witnesses: it stores only the empty map and the sample entry.\<close>

definition tiny_codec :: state_codec where
  "tiny_codec =
     \<lparr>map_to_json = (\<lambda>m. if m = (\<lambda>_. None) then Some ''{}''
                         else if m = (\<lambda>_. None)(''/a'' := Some sample_state) then Some ''{a}'' else None),
      map_from_json = (\<lambda>s. if s = ''{}'' then Some (\<lambda>_. None)
                         else if s = ''{a}'' then Some ((\<lambda>_. None)(''/a'' := Some sample_state)) else None),
      entry_to_json = (\<lambda>st. if st = sample_state then Some [1] else None),
      entry_from_json = (\<lambda>b. if b = [1] then Some sample_state else None)\<rparr>"

lemma tiny_codec_laws: "state_codec_laws tiny_codec"
  by (auto simp: state_codec_laws_def tiny_codec_def ascii_str_def split: if_splits)

text \<open>
  An in-memory database for the witness: an association list without duplicate keys.
\<close>

definition list_db :: "(bytes \<times> bytes) list rocksdb" where
  "list_db =
     \<lparr>db_put = (\<lambda>d k v. (Ok (), AList.update k v d)), db_delete = (\<lambda>d k. (Ok (), AList.delete k d)),
      db_iter = (\<lambda>d. map Inr (AList.clearjunk d))\<rparr>"

lemma list_db_laws: "rocks_laws list_db" "rocks_writes_ok list_db" "db_items list_db d = AList.clearjunk d"
proof -
  have "List.map_filter (case_sum (\<lambda>_. None) Some) (map Inr xs) = xs" for xs :: "(bytes \<times> bytes) list"
    by (induction xs) (simp_all add: map_filter_simps)
  then show items: "db_items list_db d = AList.clearjunk d" for d by (simp add: db_items_def list_db_def)
  show "rocks_laws list_db"
    by (simp add: rocks_laws_def items)
      (auto simp: list_db_def distinct_clearjunk map_of_clearjunk update_conv' delete_conv')
  show "rocks_writes_ok list_db" by (simp add: rocks_writes_ok_def list_db_def)
qed

theorem state_backend_durable_witness:
  "\<exists>b b2. sb_open True list_db tiny_codec (\<lambda>_. Inr []) one_file (path_of ''/state'') = Inr b \<and>
     sb_open True list_db tiny_codec (\<lambda>_. Inr (snd (db_put list_db [] (bytes_of_str ''/a'') [1]))) one_file (path_of ''/state'') = Inr b2 \<and>
     sb_get one_file b2 (path_of ''/a'') = Some sample_state"
proof -
  let ?b = "Rocks \<lparr>rk_db = [], rk_entries = (\<lambda>_. None), rk_device_id = [], rk_last_nats_seq = 0\<rparr> :: (bytes \<times> bytes) list StateBackend"
  let ?ops = "[SetState (path_of ''/a'') sample_state]"
  have ext: "extension (path_of ''/state'') = None" by code_simp
  have key: "path_key one_file (path_of ''/a'') = ''/a''" by code_simp
  have utf: "utf8_valid (bytes_of_str ''/a'')" by code_simp
  have flt: "\<not> fault one_file o' q" for o' q by (simp add: one_file_def)
  have op: "sb_open True list_db tiny_codec (\<lambda>_. Inr []) one_file (path_of ''/state'') = Inr ?b"
    by (simp add: sb_open_def ext rk_open_def list_db_def)
  have js: "entry_to_json tiny_codec sample_state = Some [1]" by (simp add: tiny_codec_def)
  have run: "sb_flush tiny_codec one_file (foldl (sb_apply list_db tiny_codec one_file) ?b ?ops) =
      (Inr (), one_file, Rocks \<lparr>rk_db = snd (db_put list_db [] (bytes_of_str ''/a'') [1]),
        rk_entries = (\<lambda>_. None)(''/a'' := Some sample_state), rk_device_id = [], rk_last_nats_seq = 0\<rparr>)"
    by (simp add: rk_set_def key js rk_flush_def Let_def)
  have "\<exists>b2. sb_open True list_db tiny_codec (\<lambda>_. Inr (snd (db_put list_db [] (bytes_of_str ''/a'') [1]))) one_file (path_of ''/state'') = Inr b2 \<and>
      (\<forall>g q. sb_get g b2 q = foldl (map_apply one_file) (sb_map ?b) ?ops (path_key g q) \<and>
           sb_get g (Rocks \<lparr>rk_db = snd (db_put list_db [] (bytes_of_str ''/a'') [1]),
             rk_entries = (\<lambda>_. None)(''/a'' := Some sample_state), rk_device_id = [], rk_last_nats_seq = 0\<rparr>) q =
           foldl (map_apply one_file) (sb_map ?b) ?ops (path_key g q))"
    by (rule state_backend_durable[OF tiny_codec_laws list_db_laws(1,2) op _ _ run])
      (use js utf flt in \<open>simp_all add: rk_clean_def list_db_laws(3) key\<close>, simp_all add: list_db_def)
  with op key show ?thesis by fastforce
qed

definition sample_dirty :: StateCache where
  "sample_dirty = sample_cache\<lparr>entries := (\<lambda>_. None)(''/a'' := Some sample_state)\<rparr>"

lemma tiny_dirty:
  "map_to_json tiny_codec (entries sample_dirty) = Some ''{a}''" "dirty sample_dirty"
  "db_path sample_dirty = path_of ''/state.json''"
  by (auto simp: tiny_codec_def sample_dirty_def sample_cache_def fun_eq_iff)

definition sample_flush :: "fs \<Rightarrow> unit res" where
  "sample_flush f =
     (case fs_ensure_parent f (path_of ''/state.json'') of
        (Inl e, f1) \<Rightarrow> Inl e
      | (Inr _, f1) \<Rightarrow> fst (fs_replace f1 (with_extension (path_of ''/state.json'') ''tmp'')
                            (path_of ''/state.json'') (bytes_of_str ''{a}'')))"

lemma sample_flush_eq: "fst (sc_flush tiny_codec f sample_dirty) = sample_flush f"
  by (simp add: sc_flush_def sample_flush_def tiny_dirty split: prod.splits sum.splits)

theorem flush_then_open_witness:
  "\<exists>f' c' c2. sc_flush tiny_codec one_file sample_dirty = (Inr (), f', c') \<and>
     sc_open tiny_codec f' (path_of ''/state.json'') = Inr c2 \<and>
     entries c2 = entries sample_dirty \<and> \<not> dirty c'"
proof -
  let ?r = "sc_flush tiny_codec one_file sample_dirty"
  have "sample_flush one_file = Inr ()"
    by code_simp
  then have "fst ?r = Inr ()"
    by (simp only: sample_flush_eq)
  then obtain f' c' where r: "?r = (Inr (), f', c')"
    by (cases ?r) auto
  have "\<exists>c2. sc_open tiny_codec f' (db_path sample_dirty) = Inr c2 \<and> entries c2 = entries sample_dirty \<and>
          \<not> dirty c' \<and> \<not> dirty c2"
    by (rule flush_then_open[OF tiny_codec_laws _ r])
      (simp_all add: sample_dirty_def sample_cache_def one_file_def)
  with r show ?thesis by (auto simp: sample_dirty_def sample_cache_def)
qed

theorem flush_failure_is_atomic_witness:
  "let f = one_file\<lparr>fault := (\<lambda>o' _. o' = OpWrite)\<rparr>; r = sc_flush tiny_codec f sample_dirty
   in \<not> is_ok (fst r) \<and> files (fst (snd r)) (path_of ''/state.json'') = files f (path_of ''/state.json'') \<and>
      dirty (snd (snd r))"
proof -
  let ?f = "one_file\<lparr>fault := (\<lambda>o' _. o' = OpWrite)\<rparr>"
  let ?r = "sc_flush tiny_codec ?f sample_dirty"
  have "\<not> is_ok (sample_flush ?f)" by code_simp
  then have e: "\<not> is_ok (fst ?r)" by (simp only: sample_flush_eq) simp
  then obtain e f' c' where r: "?r = (Inl e, f', c')"
    by (cases "fst ?r"; cases ?r) auto
  have "file_name (db_path sample_dirty) \<noteq> None" "extension (db_path sample_dirty) \<noteq> Some ''tmp''"
    by (simp_all only: tiny_dirty) code_simp+
  from flush_failure_is_atomic[OF r this] e r show ?thesis
    by (simp add: Let_def sample_dirty_def sample_cache_def)
qed

end
