(* ===== verification/Sync_Manifest.thy ===== *)
theory Sync_Manifest
  imports Vector_Clock Object_Store
begin

text \<open>
  The manifest of a synced file (\<^verbatim>\<open>crates/tcfs-sync/src/manifest.rs\<close>): the record, the reader
  that falls back from JSON (v2) to the newline-separated text format (v1), and the writer.
  \<^verbatim>\<open>serde_json\<close> is a parameter: its printer and its parser on manifests.
\<close>

section \<open>Model\<close>

record SyncManifest =
  version :: u32
  file_hash :: string
  file_size :: u64
  chunks :: "string list"
  m_vclock :: VectorClock
  written_by :: string
  written_at :: u64
  rel_path :: "string option"
  encrypted_file_key :: "string option"

record manifest_codec =
  mf_to_json :: "SyncManifest \<Rightarrow> string option"
  mf_from_json :: "string \<Rightarrow> SyncManifest option"

definition v1_manifest :: "string list \<Rightarrow> SyncManifest" where
  "v1_manifest cs =
     \<lparr>version = 1, file_hash = [], file_size = 0, chunks = cs, m_vclock = vc_new, written_by = [],
      written_at = 0, rel_path = None, encrypted_file_key = None\<rparr>"

definition from_bytes :: "manifest_codec \<Rightarrow> bytes \<Rightarrow> SyncManifest res" where
  "from_bytes M d =
     (case from_utf8 d of
        None \<Rightarrow> Err (EUtf8 ''manifest'')
      | Some text \<Rightarrow>
          (case mf_from_json M text of
             Some m \<Rightarrow> Ok m
           | None \<Rightarrow>
               let cs = filter (\<lambda>l. l \<noteq> []) (str_lines text)
               in if cs = [] then Err (EEmptyManifest ''manifest'') else Ok (v1_manifest cs)))"

definition to_bytes :: "manifest_codec \<Rightarrow> SyncManifest \<Rightarrow> bytes res" where
  "to_bytes M m = (case mf_to_json M m of
                     None \<Rightarrow> Err (ESerialize ''manifest'') | Some s \<Rightarrow> Ok (bytes_of_str s))"

definition chunk_hashes :: "SyncManifest \<Rightarrow> string list" where
  "chunk_hashes m = chunks m"

definition is_legacy :: "SyncManifest \<Rightarrow> bool" where
  "is_legacy m \<longleftrightarrow> version m < 2"

text \<open>
  What \<^verbatim>\<open>serde_json\<close> promises: its output is UTF-8 and reads back as the same manifest; a JSON
  object starts with an opening brace (after white space), so no text starting with a
  hexadecimal digit is one.
\<close>

definition manifest_codec_laws :: "manifest_codec \<Rightarrow> bool" where
  "manifest_codec_laws M \<longleftrightarrow>
     (\<forall>m s. mf_to_json M m = Some s \<longrightarrow> mf_from_json M s = Some m \<and> from_utf8 (bytes_of_str s) = Some s) \<and>
     (\<forall>c s. hex_digit c \<longrightarrow> mf_from_json M (c # s) = None)"

section \<open>Properties\<close>

lemma to_bytes_from_bytes:
  "manifest_codec_laws M \<Longrightarrow> to_bytes M m = Inr d \<Longrightarrow> from_bytes M d = Inr m"
  by (auto simp: manifest_codec_laws_def to_bytes_def from_bytes_def split: option.splits)

text \<open>The v1 text of a chunk list, as older writers produced it.\<close>

definition v1_text :: "string list \<Rightarrow> string" where
  "v1_text cs = unlines cs"

lemma hex_ascii: "list_all hex_digit s \<Longrightarrow> ascii_str s"
proof -
  have "hex_digit c \<Longrightarrow> (of_char c :: nat) < 128" for c
    by (auto simp: hex_digit_def)
  then show "list_all hex_digit s \<Longrightarrow> ascii_str s"
    by (auto simp: list_all_iff ascii_str_def)
qed

lemma v1_text_ascii: "list_all (list_all hex_digit) cs \<Longrightarrow> ascii_str (v1_text cs)"
proof (induction cs)
  case (Cons c cs)
  then have "ascii_str c" by (simp add: hex_ascii)
  with Cons show ?case by (auto simp: v1_text_def unlines_def ascii_str_def)
qed (simp add: v1_text_def unlines_def ascii_str_def)

lemma from_bytes_v1:
  assumes "manifest_codec_laws M" and "cs \<noteq> []"
    and "list_all (\<lambda>c. c \<noteq> [] \<and> list_all hex_digit c) cs"
  shows "from_bytes M (bytes_of_str (v1_text cs)) = Inr (v1_manifest cs)"
proof -
  have hex: "list_all (list_all hex_digit) cs" and ne: "\<forall>c \<in> set cs. c \<noteq> []"
    using assms(3) by (auto simp: list_all_iff)
  have plain: "list_all plain_line cs"
    using hex hex_plain by (auto simp: list_all_iff)
  obtain h t where "v1_text cs = h # t" and "hex_digit h"
    using assms(2,3) by (cases cs; cases "hd cs") (auto simp: v1_text_def unlines_def)
  then have "mf_from_json M (v1_text cs) = None"
    using assms(1) by (simp add: manifest_codec_laws_def)
  moreover have "filter (\<lambda>l. l \<noteq> []) cs = cs"
    using ne by (simp add: filter_id_conv)
  ultimately show ?thesis
    using assms(2) hex by (simp add: from_bytes_def v1_text_ascii Let_def)
      (simp add: v1_text_def str_lines_unlines[OF plain])
qed

text \<open>
  A manifest written by this version is read back exactly, and a v1 text of hexadecimal chunk
  hashes is read as a legacy manifest with those chunks in order.
\<close>

theorem manifest_round_trip:
  assumes "manifest_codec_laws M"
  shows "(to_bytes M m = Inr d \<longrightarrow> from_bytes M d = Inr m) \<and>
         (cs \<noteq> [] \<and> list_all (\<lambda>c. c \<noteq> [] \<and> list_all hex_digit c) cs \<longrightarrow>
         (\<exists>m1. from_bytes M (bytes_of_str (v1_text cs)) = Inr m1 \<and> chunk_hashes m1 = cs \<and> is_legacy m1))"
  using to_bytes_from_bytes[OF assms, of m d] from_bytes_v1[OF assms, of cs]
  by (auto simp: chunk_hashes_def is_legacy_def v1_manifest_def)

text \<open>A JSON codec that knows two manifests, for the witnesses.\<close>

definition sample_manifest :: SyncManifest where
  "sample_manifest = \<lparr>version = 2, file_hash = ''ab'', file_size = 3, chunks = [''cd''],
     m_vclock = tick vc_new ''yoga'', written_by = ''yoga'', written_at = 7,
     rel_path = Some ''doc.txt'', encrypted_file_key = None\<rparr>"

definition one_manifest_codec :: "SyncManifest \<Rightarrow> manifest_codec" where
  "one_manifest_codec m0 =
     \<lparr>mf_to_json = (\<lambda>m. if m = m0 then Some ''{m}'' else None),
      mf_from_json = (\<lambda>s. if s = ''{m}'' then Some m0 else None)\<rparr>"

lemma one_manifest_codec_laws: "manifest_codec_laws (one_manifest_codec m0)"
proof -
  have "\<not> hex_digit (CHR 0x7B)" by (simp add: hex_digit_def)
  then show ?thesis
    by (auto simp: manifest_codec_laws_def one_manifest_codec_def ascii_str_def split: if_splits)
qed

theorem manifest_round_trip_witness:
  "from_bytes (one_manifest_codec sample_manifest) (bytes_of_str ''{m}'') = Inr sample_manifest \<and>
   (\<exists>m1. from_bytes (one_manifest_codec sample_manifest) (bytes_of_str (v1_text [''ab'', ''01''])) = Inr m1 \<and>
         chunk_hashes m1 = [''ab'', ''01''])"
proof
  let ?M = "one_manifest_codec sample_manifest"
  show "from_bytes ?M (bytes_of_str ''{m}'') = Inr sample_manifest"
    using manifest_round_trip[OF one_manifest_codec_laws,
        of sample_manifest sample_manifest "bytes_of_str ''{m}''"]
    by (simp add: to_bytes_def one_manifest_codec_def)
  have "list_all (\<lambda>c. c \<noteq> [] \<and> list_all hex_digit c) [''ab'', ''01'']"
    by (simp add: hex_digit_def)
  then show "\<exists>m1. from_bytes ?M (bytes_of_str (v1_text [''ab'', ''01''])) = Inr m1 \<and>
               chunk_hashes m1 = [''ab'', ''01'']"
    using manifest_round_trip[OF one_manifest_codec_laws, of sample_manifest undefined undefined "[''ab'', ''01'']"]
    by blast
qed

end
