(* ===== verification/Tcfs_Crypto.thy ===== *)
theory Tcfs_Crypto
  imports Hex_Codec Tcfs_Fs
begin

text \<open>
  Client-side encryption, \<^verbatim>\<open>crates/tcfs-crypto\<close>: chunk encryption (\<^verbatim>\<open>chunk.rs\<close>), key wrapping and
  derivation (\<^verbatim>\<open>keys.rs\<close>, \<^verbatim>\<open>kdf.rs\<close>, \<^verbatim>\<open>recovery.rs\<close>), filename encryption (\<^verbatim>\<open>names.rs\<close>) and the
  encrypted manifest (\<^verbatim>\<open>manifest.rs\<close>). The primitives (XChaCha20-Poly1305, AES-SIV, HKDF, Argon2id,
  BIP-39, base64, \<^verbatim>\<open>serde_json\<close>) are parameters; the bytes drawn from the random generator are
  arguments.
\<close>

section \<open>Model\<close>

definition KEY_SIZE :: nat where "KEY_SIZE = 32"
definition NONCE_SIZE :: nat where "NONCE_SIZE = 24"
definition TAG_SIZE :: nat where "TAG_SIZE = 16"

lemmas crypto_sizes = KEY_SIZE_def NONCE_SIZE_def TAG_SIZE_def

text \<open>Arguments of the cipher, in order: key, nonce, additional data, message or ciphertext.\<close>

record aead =
  ae_encrypt :: "bytes \<Rightarrow> bytes \<Rightarrow> bytes \<Rightarrow> bytes \<Rightarrow> bytes option"
  ae_decrypt :: "bytes \<Rightarrow> bytes \<Rightarrow> bytes \<Rightarrow> bytes \<Rightarrow> bytes option"

record FileKey = fk_bytes :: bytes
record MasterKey = mk_bytes :: bytes

definition zeroize :: "bytes \<Rightarrow> bytes" where
  "zeroize d = map (\<lambda>_. 0) d"

definition drop_file_key :: "FileKey \<Rightarrow> FileKey" where
  "drop_file_key k = k\<lparr>fk_bytes := zeroize (fk_bytes k)\<rparr>"

definition drop_master_key :: "MasterKey \<Rightarrow> MasterKey" where
  "drop_master_key k = k\<lparr>mk_bytes := zeroize (mk_bytes k)\<rparr>"

text \<open>\<^verbatim>\<open>u64::to_be_bytes\<close>\<close>

definition to_be_bytes :: "u64 \<Rightarrow> bytes" where
  "to_be_bytes w = map (\<lambda>i. ucast (drop_bit (8 * (7 - i)) w)) [0..<8]"

definition build_aad :: "u64 \<Rightarrow> bytes \<Rightarrow> bytes" where
  "build_aad chunk_index file_id = to_be_bytes chunk_index @ file_id"

definition encrypt_chunk ::
  "aead \<Rightarrow> bytes \<Rightarrow> FileKey \<Rightarrow> u64 \<Rightarrow> bytes \<Rightarrow> bytes \<Rightarrow> bytes res" where
  "encrypt_chunk A nonce file_key chunk_index file_id plaintext =
     (case ae_encrypt A (fk_bytes file_key) nonce (build_aad chunk_index file_id) plaintext of
        None \<Rightarrow> Err (ECrypto ''chunk encryption failed'')
      | Some ct \<Rightarrow> Ok (nonce @ ct))"

definition decrypt_chunk :: "aead \<Rightarrow> FileKey \<Rightarrow> u64 \<Rightarrow> bytes \<Rightarrow> bytes \<Rightarrow> bytes res" where
  "decrypt_chunk A file_key chunk_index file_id encrypted =
     (if length encrypted < NONCE_SIZE + 16
      then Err (ETooShort (length encrypted) (NONCE_SIZE + 16))
      else ok_or (ECrypto ''chunk decryption failed'')
             (ae_decrypt A (fk_bytes file_key) (take NONCE_SIZE encrypted)
                (build_aad chunk_index file_id) (drop NONCE_SIZE encrypted)))"

definition generate_file_key :: "bytes \<Rightarrow> FileKey" where
  "generate_file_key rnd = \<lparr>fk_bytes = rnd\<rparr>"

text \<open>HKDF-SHA256: input key material, info string, output length.\<close>

type_synonym hkdf = "bytes \<Rightarrow> bytes \<Rightarrow> nat \<Rightarrow> bytes option"

definition hkdf_derive :: "hkdf \<Rightarrow> bytes \<Rightarrow> bytes \<Rightarrow> bytes res" where
  "hkdf_derive K ikm info = ok_or (ECrypto ''HKDF expand failed'') (K ikm info KEY_SIZE)"

definition derive_manifest_key :: "hkdf \<Rightarrow> MasterKey \<Rightarrow> bytes res" where
  "derive_manifest_key K master = hkdf_derive K (mk_bytes master) (bytes_of_str ''tcfs-manifest'')"

definition derive_name_key :: "hkdf \<Rightarrow> MasterKey \<Rightarrow> bytes res" where
  "derive_name_key K master = hkdf_derive K (mk_bytes master) (bytes_of_str ''tcfs-names'')"

definition wrap_key :: "aead \<Rightarrow> bytes \<Rightarrow> MasterKey \<Rightarrow> FileKey \<Rightarrow> bytes res" where
  "wrap_key A nonce master file_key =
     (case ae_encrypt A (mk_bytes master) nonce [] (fk_bytes file_key) of
        None \<Rightarrow> Err (ECrypto ''key wrapping failed'')
      | Some ct \<Rightarrow> Ok (nonce @ ct))"

text \<open>
  The length in the "wrong size" error is read after \<^verbatim>\<open>zeroize\<close> has cleared the vector, so the
  message always reports zero bytes.
\<close>

definition unwrap_key :: "aead \<Rightarrow> MasterKey \<Rightarrow> bytes \<Rightarrow> FileKey res" where
  "unwrap_key A master wrapped =
     (if length wrapped < NONCE_SIZE + KEY_SIZE + TAG_SIZE
      then Err (ETooShort (length wrapped) (NONCE_SIZE + KEY_SIZE + TAG_SIZE))
      else (case ae_decrypt A (mk_bytes master) (take NONCE_SIZE wrapped) [] (drop NONCE_SIZE wrapped) of
              None \<Rightarrow> Err (ECrypto ''key unwrapping failed'')
            | Some pt \<Rightarrow> if length pt \<noteq> KEY_SIZE then Err (EWrongSize 0 KEY_SIZE)
                         else Ok \<lparr>fk_bytes = pt\<rparr>))"

record KdfParams =
  mem_cost_kib :: u32
  time_cost :: u32
  parallelism :: u32

definition default_kdf_params :: KdfParams where
  "default_kdf_params = \<lparr>mem_cost_kib = 65536, time_cost = 3, parallelism = 4\<rparr>"

text \<open>Argon2id: the parameter check and \<^verbatim>\<open>hash_password_into\<close>.\<close>

record argon2 =
  a2_params_ok :: "u32 \<Rightarrow> u32 \<Rightarrow> u32 \<Rightarrow> nat \<Rightarrow> bool"
  a2_hash :: "KdfParams \<Rightarrow> bytes \<Rightarrow> bytes \<Rightarrow> nat \<Rightarrow> bytes option"

definition derive_master_key :: "argon2 \<Rightarrow> string \<Rightarrow> bytes \<Rightarrow> KdfParams \<Rightarrow> MasterKey res" where
  "derive_master_key G passphrase salt params =
     (if \<not> a2_params_ok G (mem_cost_kib params) (time_cost params) (parallelism params) KEY_SIZE
      then Err (ECrypto ''invalid Argon2id params'')
      else (case a2_hash G params (bytes_of_str passphrase) salt KEY_SIZE of
              None \<Rightarrow> Err (ECrypto ''Argon2id KDF failed'')
            | Some k \<Rightarrow> Ok \<lparr>mk_bytes = k\<rparr>))"

record bip39 =
  bip_from_entropy :: "bytes \<Rightarrow> string option"
  bip_parse :: "string \<Rightarrow> bool"

definition recovery_params :: KdfParams where
  "recovery_params = \<lparr>mem_cost_kib = 16384, time_cost = 2, parallelism = 1\<rparr>"

definition mnemonic_to_master_key :: "bip39 \<Rightarrow> argon2 \<Rightarrow> string \<Rightarrow> MasterKey res" where
  "mnemonic_to_master_key B G words =
     (if \<not> bip_parse B words then Err (EParse ''invalid BIP-39 mnemonic'' words)
      else derive_master_key G words (bytes_of_str ''tcfs-recovery-v1'') recovery_params)"

definition generate_mnemonic :: "bip39 \<Rightarrow> argon2 \<Rightarrow> bytes \<Rightarrow> (string \<times> MasterKey) res" where
  "generate_mnemonic B G entropy =
     (case bip_from_entropy B entropy of
        None \<Rightarrow> Err (ECrypto ''BIP-39 mnemonic generation failed'')
      | Some words \<Rightarrow>
          (case mnemonic_to_master_key B G words of Inl e \<Rightarrow> Inl e | Inr m \<Rightarrow> Ok (words, m)))"

subsection \<open>File names\<close>

text \<open>AES-256-SIV with its 64-byte key and the all-zero nonce.\<close>

record siv =
  siv_encrypt :: "bytes \<Rightarrow> bytes \<Rightarrow> bytes option"
  siv_decrypt :: "bytes \<Rightarrow> bytes \<Rightarrow> bytes option"

definition siv_key :: "hkdf \<Rightarrow> bytes \<Rightarrow> bytes res" where
  "siv_key K name_key =
     ok_or (ECrypto ''HKDF expand for AES-SIV'') (K name_key (bytes_of_str ''tcfs-name-aes-siv'') 64)"

definition encrypt_name :: "hkdf \<Rightarrow> siv \<Rightarrow> bytes \<Rightarrow> string \<Rightarrow> string res" where
  "encrypt_name K S name_key plaintext_name =
     (case siv_key K name_key of
        Inl e \<Rightarrow> Inl e
      | Inr double_key \<Rightarrow>
          (case siv_encrypt S double_key (bytes_of_str plaintext_name) of
             None \<Rightarrow> Err (ECrypto ''filename encryption failed'')
           | Some ct \<Rightarrow> Ok (hex_encode ct)))"

definition decrypt_name :: "hkdf \<Rightarrow> siv \<Rightarrow> bytes \<Rightarrow> string \<Rightarrow> string res" where
  "decrypt_name K S name_key encrypted_hex =
     (case hex_decode encrypted_hex of
        Inl e \<Rightarrow> Inl e
      | Inr ct \<Rightarrow>
          (case siv_key K name_key of
             Inl e \<Rightarrow> Inl e
           | Inr double_key \<Rightarrow>
               (case siv_decrypt S double_key ct of
                  None \<Rightarrow> Err (ECrypto ''filename decryption failed'')
                | Some pt \<Rightarrow> ok_or (EUtf8 ''decrypted name'') (from_utf8 pt))))"

subsection \<open>The encrypted manifest\<close>

record ManifestEntry =
  me_hash :: string
  me_index :: u64
  me_encrypted_size :: u64

record EncryptedManifest =
  em_version :: u32
  em_file_id :: string
  em_original_size :: u64
  em_wrapped_file_key :: string
  em_chunks :: "ManifestEntry list"

record base64 =
  b64_enc :: "bytes \<Rightarrow> string"
  b64_dec :: "string \<Rightarrow> bytes option"

definition base64_encode :: "base64 \<Rightarrow> bytes \<Rightarrow> string" where
  "base64_encode B d = b64_enc B d"

definition base64_decode :: "base64 \<Rightarrow> string \<Rightarrow> bytes res" where
  "base64_decode B s = ok_or (EDecode ''base64 decode'') (b64_dec B s)"

definition em_new ::
  "aead \<Rightarrow> base64 \<Rightarrow> bytes \<Rightarrow> string \<Rightarrow> u64 \<Rightarrow> MasterKey \<Rightarrow> FileKey \<Rightarrow> ManifestEntry list \<Rightarrow>
   EncryptedManifest res" where
  "em_new A B nonce file_id sz master file_key cs =
     (case wrap_key A nonce master file_key of
        Inl e \<Rightarrow> Inl e
      | Inr wrapped \<Rightarrow>
          Ok \<lparr>em_version = 1, em_file_id = file_id, em_original_size = sz,
              em_wrapped_file_key = base64_encode B wrapped, em_chunks = cs\<rparr>)"

definition unwrap_file_key :: "aead \<Rightarrow> base64 \<Rightarrow> EncryptedManifest \<Rightarrow> MasterKey \<Rightarrow> FileKey res" where
  "unwrap_file_key A B m master =
     (case base64_decode B (em_wrapped_file_key m) of
        Inl e \<Rightarrow> Inl e
      | Inr wrapped \<Rightarrow> unwrap_key A master wrapped)"

definition em_to_bytes :: "(EncryptedManifest \<Rightarrow> bytes option) \<Rightarrow> EncryptedManifest \<Rightarrow> bytes res" where
  "em_to_bytes ser m = ok_or (ESerialize ''manifest'') (ser m)"

definition em_from_bytes :: "(bytes \<Rightarrow> EncryptedManifest option) \<Rightarrow> bytes \<Rightarrow> EncryptedManifest res" where
  "em_from_bytes de d = ok_or (EParse ''manifest deserialization'' []) (de d)"

section \<open>What the primitives promise\<close>

text \<open>
  XChaCha20-Poly1305 decryption recomputes the tag: it succeeds exactly on what encryption under
  the same key, nonce and additional data produces. The ciphertext is the message and a 16-byte
  tag.
\<close>

definition aead_laws :: "aead \<Rightarrow> bool" where
  "aead_laws A \<longleftrightarrow>
     (\<forall>k n a m c. ae_encrypt A k n a m = Some c \<longleftrightarrow> ae_decrypt A k n a c = Some m) \<and>
     (\<forall>k n a m c. ae_encrypt A k n a m = Some c \<longrightarrow> length c = length m + TAG_SIZE)"

definition siv_laws :: "siv \<Rightarrow> bool" where
  "siv_laws S \<longleftrightarrow> (\<forall>k m c. siv_encrypt S k m = Some c \<longrightarrow> siv_decrypt S k c = Some m)"

definition base64_laws :: "base64 \<Rightarrow> bool" where
  "base64_laws B \<longleftrightarrow> (\<forall>d. b64_dec B (b64_enc B d) = Some d)"

lemma aead_dec: "aead_laws A \<Longrightarrow> ae_encrypt A k n a m = Some c \<Longrightarrow> ae_decrypt A k n a c = Some m"
  by (simp add: aead_laws_def)

lemma aead_len: "aead_laws A \<Longrightarrow> ae_encrypt A k n a m = Some c \<Longrightarrow> length c = length m + TAG_SIZE"
  by (simp add: aead_laws_def)

section \<open>Chunks\<close>

lemma length_to_be_bytes [simp]: "length (to_be_bytes w) = 8"
  by (simp add: to_be_bytes_def)

lemma to_be_bytes_bit:
  assumes "n < 64"
  shows "bit w n = bit (to_be_bytes w ! (7 - n div 8)) (n mod 8)"
proof -
  have "n div 8 < 8" using assms by auto
  then have "8 * (7 - (7 - n div 8)) + n mod 8 = n" and i: "7 - n div 8 < 8" by auto
  moreover have "n mod 8 < 8" by simp
  ultimately show ?thesis
    by (simp add: to_be_bytes_def bit_ucast_iff bit_drop_bit_eq add.commute del: mod_less_divisor)
qed

lemma to_be_bytes_inj: "to_be_bytes a = to_be_bytes b \<longleftrightarrow> a = b"
proof
  assume "to_be_bytes a = to_be_bytes b"
  then show "a = b"
    by (intro bit_word_eqI) (simp add: to_be_bytes_bit)
qed simp

lemma build_aad_inj: "build_aad i f = build_aad j g \<longleftrightarrow> i = j \<and> f = g"
  by (simp add: build_aad_def to_be_bytes_inj)

lemma decrypt_encrypt_chunk:
  assumes "aead_laws A" and "length nonce = NONCE_SIZE"
    and "encrypt_chunk A nonce fk i fid pt = Inr ct"
  shows "decrypt_chunk A fk i fid ct = Inr pt"
  using assms aead_len[OF assms(1), of "fk_bytes fk" nonce "build_aad i fid" pt]
  by (auto simp: encrypt_chunk_def decrypt_chunk_def crypto_sizes aead_dec split: option.splits)

lemma decrypt_chunk_OkD:
  assumes "aead_laws A" and "decrypt_chunk A fk i fid ct = Inr pt"
  shows "encrypt_chunk A (take NONCE_SIZE ct) fk i fid pt = Inr ct"
proof -
  have "ae_decrypt A (fk_bytes fk) (take NONCE_SIZE ct) (build_aad i fid) (drop NONCE_SIZE ct) = Some pt"
    using assms(2) by (auto simp: decrypt_chunk_def ok_or_def split: option.splits if_splits)
  then have "ae_encrypt A (fk_bytes fk) (take NONCE_SIZE ct) (build_aad i fid) pt = Some (drop NONCE_SIZE ct)"
    using assms(1) by (simp add: aead_laws_def)
  then show ?thesis by (simp add: encrypt_chunk_def)
qed

lemma decrypt_chunk_length:
  assumes "aead_laws A" and "decrypt_chunk A fk i fid ct = Inr pt"
  shows "length ct = length pt + 40"
proof -
  have "ae_decrypt A (fk_bytes fk) (take NONCE_SIZE ct) (build_aad i fid) (drop NONCE_SIZE ct) = Some pt"
    and len: "NONCE_SIZE + 16 \<le> length ct"
    using assms(2) by (auto simp: decrypt_chunk_def ok_or_def split: option.splits if_splits)
  then have "length (drop NONCE_SIZE ct) = length pt + TAG_SIZE"
    using assms(1) unfolding aead_laws_def by blast
  with len show ?thesis by (simp add: crypto_sizes)
qed

text \<open>
  Chunk encryption round-trips at the position and file it was made for, adds exactly 40
  bytes, and everything shorter than 40 bytes is refused without calling the cipher.
\<close>

theorem chunk_encryption_round_trip:
  assumes "aead_laws A" and "length nonce = NONCE_SIZE"
    and "encrypt_chunk A nonce fk i fid pt = Inr ct"
  shows "decrypt_chunk A fk i fid ct = Inr pt \<and> length ct = length pt + 40 \<and>
         (\<forall>n < length ct - length pt. decrypt_chunk A fk i fid (take n ct) = Inl (ETooShort n 40))"
  using decrypt_encrypt_chunk[OF assms] assms
    aead_len[OF assms(1), of "fk_bytes fk" nonce "build_aad i fid" pt]
  by (auto simp: encrypt_chunk_def decrypt_chunk_def crypto_sizes split: option.splits)

text \<open>
  The ciphertext \<open>c\<close> authenticates only the additional data \<open>a\<close> among those in use: Poly1305
  tags do not collide on \<open>used\<close>.
\<close>

definition unforged :: "aead \<Rightarrow> bytes \<Rightarrow> bytes \<Rightarrow> bytes set \<Rightarrow> bytes \<Rightarrow> bytes \<Rightarrow> bool" where
  "unforged A k n used a c \<longleftrightarrow> (\<forall>a' \<in> used. \<forall>m. ae_encrypt A k n a' m = Some c \<longrightarrow> a' = a)"

text \<open>
  C14: the additional data binds a chunk to its position and file. Unless a tag collides among
  the positions and files in use, a stored chunk decrypts under no other index and no other file
  id, so reordered or swapped chunks are errors.
\<close>

theorem chunk_bound_to_position:
  assumes "aead_laws A" and "encrypt_chunk A nonce fk i fid pt = Inr ct" and "length nonce = NONCE_SIZE"
    and "unforged A (fk_bytes fk) nonce used (build_aad i fid) (drop NONCE_SIZE ct)"
    and "build_aad j gid \<in> used" and "(j, gid) \<noteq> (i, fid)"
  shows "\<exists>e. decrypt_chunk A fk j gid ct = Inl e"
proof (cases "decrypt_chunk A fk j gid ct")
  case (Inr p)
  have "take NONCE_SIZE ct = nonce"
    using assms(2,3) by (auto simp: encrypt_chunk_def split: option.splits)
  then have "encrypt_chunk A nonce fk j gid p = Inr ct"
    using decrypt_chunk_OkD[OF assms(1) Inr] by simp
  then have "ae_encrypt A (fk_bytes fk) nonce (build_aad j gid) p = Some (drop NONCE_SIZE ct)"
    using assms(3) by (auto simp: encrypt_chunk_def split: option.splits)
  with assms(4,5,6) show ?thesis
    by (auto simp: unforged_def build_aad_inj)
qed simp

text \<open>A cipher that satisfies the laws: the tag is the first 16 bytes of the additional data.\<close>

definition toy_tag :: "bytes \<Rightarrow> bytes" where
  "toy_tag a = take 16 (a @ replicate 16 0)"

definition toy_aead :: aead where
  "toy_aead =
     \<lparr>ae_encrypt = (\<lambda>k n a m. Some (m @ toy_tag a)),
      ae_decrypt = (\<lambda>k n a c. if length c \<ge> 16 \<and> drop (length c - 16) c = toy_tag a
                              then Some (take (length c - 16) c) else None)\<rparr>"

lemma length_toy_tag [simp]: "length (toy_tag a) = 16"
  by (simp add: toy_tag_def)

lemma toy_aead_laws: "aead_laws toy_aead"
proof -
  have "(m @ t = c) = (length c \<ge> 16 \<and> drop (length c - 16) c = t \<and> take (length c - 16) c = m)"
    if "length t = 16" for m t c :: bytes
    using that by auto
  then show ?thesis
    by (auto simp: aead_laws_def toy_aead_def TAG_SIZE_def)
qed

definition zero_key :: FileKey where "zero_key = \<lparr>fk_bytes = replicate 32 0\<rparr>"
definition zero_master :: MasterKey where "zero_master = \<lparr>mk_bytes = replicate 32 0\<rparr>"
definition zero_nonce :: bytes where "zero_nonce = replicate 24 0"

lemma toy_encrypt_chunk: "encrypt_chunk toy_aead n k i fid m = Inr (n @ m @ toy_tag (build_aad i fid))"
  by (simp add: encrypt_chunk_def toy_aead_def)

theorem chunk_encryption_round_trip_witness:
  "decrypt_chunk toy_aead zero_key 3 (replicate 32 7)
     (zero_nonce @ [1, 2] @ toy_tag (build_aad 3 (replicate 32 7))) = Inr [1, 2]"
  using chunk_encryption_round_trip[OF toy_aead_laws _ toy_encrypt_chunk, of zero_nonce zero_key 3
      "replicate 32 7" "[1, 2]"]
  by (simp add: zero_nonce_def crypto_sizes)

theorem chunk_bound_to_position_witness:
  "\<exists>e. decrypt_chunk toy_aead zero_key 4 (replicate 32 7)
         (zero_nonce @ [1, 2] @ toy_tag (build_aad 3 (replicate 32 7))) = Inl e"
proof -
  have neq: "toy_tag (build_aad 4 (replicate 32 7)) \<noteq> toy_tag (build_aad 3 (replicate 32 7))"
    by code_simp
  have "t = t'" if "m @ t = [1, 2] @ t'" "length t = 16" "length t' = 16" for m t t' :: bytes
    using that by (metis append_eq_append_conv)
  then have "unforged toy_aead k zero_nonce {build_aad 4 (replicate 32 7)} (build_aad 3 (replicate 32 7))
          ([1, 2] @ toy_tag (build_aad 3 (replicate 32 7)))" for k
    using neq length_toy_tag by (auto simp: unforged_def toy_aead_def simp del: append_Cons append_Nil)
  then show ?thesis
    using chunk_bound_to_position[OF toy_aead_laws
        toy_encrypt_chunk[of zero_nonce zero_key 3 "replicate 32 7" "[1, 2]"],
        where used = "{build_aad 4 (replicate 32 7)}" and j = 4 and gid = "replicate 32 7"]
    by (simp add: zero_nonce_def crypto_sizes)
qed

section \<open>Keys and names\<close>

lemma unwrap_wrap_key:
  assumes "aead_laws A" and "length nonce = NONCE_SIZE" and "length (fk_bytes fk) = KEY_SIZE"
    and "wrap_key A nonce mk fk = Inr w"
  shows "unwrap_key A mk w = Inr fk" and "length w = 72"
  using assms aead_len[OF assms(1), of "mk_bytes mk" nonce "[]" "fk_bytes fk"]
  by (auto simp: wrap_key_def unwrap_key_def crypto_sizes aead_dec split: option.splits)

text \<open>
  A file key survives wrapping with the master key, directly and through the encrypted
  manifest, and what unwraps is always a 32-byte key.
\<close>

theorem file_key_round_trip:
  assumes "aead_laws A" and "base64_laws B" and "length nonce = NONCE_SIZE"
    and "length (fk_bytes fk) = KEY_SIZE"
  shows "(\<forall>w. wrap_key A nonce mk fk = Inr w \<longrightarrow> unwrap_key A mk w = Inr fk) \<and>
         (\<forall>m. em_new A B nonce fid sz mk fk cs = Inr m \<longrightarrow>
              unwrap_file_key A B m mk = Inr fk \<and> em_chunks m = cs \<and> em_file_id m = fid) \<and>
         (\<forall>w k. unwrap_key A mk w = Inr k \<longrightarrow> length (fk_bytes k) = KEY_SIZE)"
proof (intro conjI allI impI)
  fix w
  assume "wrap_key A nonce mk fk = Inr w"
  then show "unwrap_key A mk w = Inr fk" by (rule unwrap_wrap_key[OF assms(1,3,4)])
next
  fix m
  assume "em_new A B nonce fid sz mk fk cs = Inr m"
  then obtain w where w: "wrap_key A nonce mk fk = Inr w"
    and m: "m = \<lparr>em_version = 1, em_file_id = fid, em_original_size = sz,
                  em_wrapped_file_key = b64_enc B w, em_chunks = cs\<rparr>"
    by (auto simp: em_new_def base64_encode_def split: sum.splits)
  then show "unwrap_file_key A B m mk = Inr fk" "em_chunks m = cs" "em_file_id m = fid"
    using unwrap_wrap_key(1)[OF assms(1,3,4) w] assms(2)
    by (simp_all add: unwrap_file_key_def base64_decode_def base64_laws_def)
next
  fix w k
  assume "unwrap_key A mk w = Inr k"
  then show "length (fk_bytes k) = KEY_SIZE"
    by (auto simp: unwrap_key_def split: if_splits option.splits)
qed

definition toy_base64 :: base64 where
  "toy_base64 = \<lparr>b64_enc = hex_encode,
     b64_dec = (\<lambda>s. case hex_decode s of Inl _ \<Rightarrow> None | Inr d \<Rightarrow> Some d)\<rparr>"

lemma toy_base64_laws: "base64_laws toy_base64"
  by (simp add: base64_laws_def toy_base64_def hex.round_trip)

lemma toy_wrap_key: "wrap_key toy_aead n mk fk = Inr (n @ fk_bytes fk @ toy_tag [])"
  by (simp add: wrap_key_def toy_aead_def)

theorem file_key_round_trip_witness:
  "unwrap_key toy_aead zero_master (zero_nonce @ fk_bytes zero_key @ toy_tag []) = Inr zero_key"
proof -
  have "length zero_nonce = NONCE_SIZE" "length (fk_bytes zero_key) = KEY_SIZE"
    by (simp_all add: zero_nonce_def zero_key_def crypto_sizes)
  from file_key_round_trip[OF toy_aead_laws toy_base64_laws this, of zero_master] toy_wrap_key
  show ?thesis by blast
qed

lemma encrypt_name_OkE:
  assumes "encrypt_name K S nk name = Inr x"
  obtains dk ct where "siv_key K nk = Inr dk" "siv_encrypt S dk (bytes_of_str name) = Some ct"
    "x = hex_encode ct"
  using assms by (auto simp: encrypt_name_def split: sum.splits option.splits)

lemma decrypt_encrypt_name:
  assumes "siv_laws S" and "encrypt_name K S nk name = Inr x"
    and "from_utf8 (bytes_of_str name) = Some name"
  shows "decrypt_name K S nk x = Inr name"
  using assms(2)
proof (rule encrypt_name_OkE)
  fix dk ct
  assume dk: "siv_key K nk = Inr dk" and ct: "siv_encrypt S dk (bytes_of_str name) = Some ct"
    and x: "x = hex_encode ct"
  have "siv_decrypt S dk ct = Some (bytes_of_str name)"
    using assms(1) ct by (simp add: siv_laws_def)
  with dk x assms(3) show ?thesis
    by (simp add: decrypt_name_def hex.round_trip)
qed

text \<open>
  Encrypted file names decrypt to the original, are made of lowercase hexadecimal digits only
  (so they hold no path separator), and two different names never share an encrypted form.
\<close>

theorem name_encryption_correct:
  assumes "siv_laws S" and "encrypt_name K S nk name = Inr x"
    and "from_utf8 (bytes_of_str name) = Some name"
  shows "decrypt_name K S nk x = Inr name \<and> list_all hex_digit x \<and>
         (\<forall>name'. encrypt_name K S nk name' = Inr x \<and> from_utf8 (bytes_of_str name') = Some name' \<longrightarrow>
                  name' = name)"
proof (intro conjI allI impI)
  show dec: "decrypt_name K S nk x = Inr name"
    by (rule decrypt_encrypt_name[OF assms])
  show "list_all hex_digit x"
    using assms(2) by (rule encrypt_name_OkE) (simp add: hex_encode_digits)
  fix name'
  assume "encrypt_name K S nk name' = Inr x \<and> from_utf8 (bytes_of_str name') = Some name'"
  then have "decrypt_name K S nk x = Inr name'"
    using decrypt_encrypt_name[OF assms(1)] by blast
  with dec show "name' = name" by simp
qed

definition toy_siv :: siv where
  "toy_siv = \<lparr>siv_encrypt = (\<lambda>k m. Some (toy_tag k @ m)), siv_decrypt = (\<lambda>k c. Some (drop 16 c))\<rparr>"

definition toy_hkdf :: hkdf where
  "toy_hkdf ikm info n = Some (take n (info @ ikm @ replicate n 0))"

theorem name_encryption_correct_witness:
  "\<exists>x. encrypt_name toy_hkdf toy_siv (replicate 32 1) ''a/b'' = Inr x \<and>
       decrypt_name toy_hkdf toy_siv (replicate 32 1) x = Inr ''a/b''"
proof -
  have laws: "siv_laws toy_siv" by (simp add: siv_laws_def toy_siv_def)
  have utf8: "from_utf8 (bytes_of_str ''a/b'') = Some ''a/b''"
    by (simp add: ascii_str_def)
  obtain x where "encrypt_name toy_hkdf toy_siv (replicate 32 1) ''a/b'' = Inr x"
    by (simp add: encrypt_name_def siv_key_def toy_hkdf_def toy_siv_def)
  with name_encryption_correct[OF laws _ utf8] show ?thesis by blast
qed

text \<open>The mnemonic shown to the user recovers the master key it was generated with.\<close>

lemma mnemonic_recovers_master:
  "generate_mnemonic B G entropy = Inr (words, mk) \<Longrightarrow> mnemonic_to_master_key B G words = Inr mk"
  by (auto simp: generate_mnemonic_def split: option.splits sum.splits)

end
