(* ===== verification/Sync_Engine.thy ===== *)
theory Sync_Engine
  imports State_Cache Sync_Manifest Tcfs_Crypto
begin

text \<open>
  The sync engine, \<^verbatim>\<open>crates/tcfs-sync/src/engine.rs\<close>: uploading a file as content-addressed chunks
  and a manifest, and downloading it with its integrity checks. The third-party
  libraries the engine calls are bundled in one record; \<open>l_crypto\<close> is the cargo feature of that
  name, and the random bytes an upload draws are arguments. Progress callbacks only observe and
  are left out.
\<close>

section \<open>Model\<close>

record 's libs =
  l_op :: "'s operator"
  l_hash :: hasher
  l_cdc :: cdc
  l_mf :: manifest_codec
  l_crypto :: bool
  l_aead :: aead
  l_b64 :: base64

record EncryptionContext = master_key :: MasterKey

record rnd =
  r_file_key :: bytes
  r_nonce :: "nat \<Rightarrow> bytes"
  r_wrap_nonce :: bytes

record UploadResult =
  ur_path :: path
  ur_remote_path :: string
  ur_hash :: string
  ur_chunks :: nat
  ur_bytes :: u64
  ur_skipped :: bool
  ur_outcome :: "SyncOutcome option"

record DownloadResult =
  dr_remote_path :: string
  dr_local_path :: path
  dr_bytes :: u64

definition manifest_key :: "string \<Rightarrow> string \<Rightarrow> string" where
  "manifest_key rprefix h = rprefix @ ''/manifests/'' @ h"

definition chunk_key :: "string \<Rightarrow> string \<Rightarrow> string" where
  "chunk_key rprefix h = rprefix @ ''/chunks/'' @ h"

definition hex_of :: "'s libs \<Rightarrow> bytes \<Rightarrow> string" where
  "hex_of E d = hash_to_hex (l_hash E) (hash_bytes (l_hash E) d)"

subsection \<open>Upload\<close>

text \<open>The bytes stored for one chunk, and the hash they are stored under.\<close>

definition upload_blob ::
  "'s libs \<Rightarrow> (FileKey \<times> bytes) option \<Rightarrow> (nat \<Rightarrow> bytes) \<Rightarrow> bytes \<Rightarrow> nat \<Rightarrow> Chunk \<Rightarrow> (bytes \<times> string) res" where
  "upload_blob E key nonces data i c =
     (case slice data (ch_offset c) (ch_length c) of
        Inl e \<Rightarrow> Inl e
      | Inr cd \<Rightarrow>
          (case key of
             Some (fk, fid) \<Rightarrow>
               (case encrypt_chunk (l_aead E) (nonces i) fk (word_of_nat i) fid cd of
                  Inl e \<Rightarrow> Inl e
                | Inr ct \<Rightarrow> Ok (ct, hex_of E ct))
           | None \<Rightarrow> Ok (cd, hash_to_hex (l_hash E) (ch_hash c))))"

definition put_chunk :: "'s libs \<Rightarrow> string \<Rightarrow> 's \<Rightarrow> string \<Rightarrow> bytes \<Rightarrow> unit res \<times> 's" where
  "put_chunk E rprefix s h blob =
     (if exists_or_false (l_op E) s (chunk_key rprefix h) then (Ok (), s)
      else op_write (l_op E) s (chunk_key rprefix h) blob)"

fun upload_chunks ::
  "'s libs \<Rightarrow> (FileKey \<times> bytes) option \<Rightarrow> (nat \<Rightarrow> bytes) \<Rightarrow> bytes \<Rightarrow> string \<Rightarrow> 's \<Rightarrow> nat \<Rightarrow> Chunk list \<Rightarrow>
   string list res \<times> 's" where
  "upload_chunks E key nonces data rprefix s i [] = (Ok [], s)"
| "upload_chunks E key nonces data rprefix s i (c # cs) =
     (case upload_blob E key nonces data i c of
        Inl e \<Rightarrow> (Inl e, s)
      | Inr (blob, h) \<Rightarrow>
          (case put_chunk E rprefix s h blob of
             (Inl e, s') \<Rightarrow> (Inl e, s')
           | (Inr _, s') \<Rightarrow>
               (case upload_chunks E key nonces data rprefix s' (Suc i) cs of
                  (Inl e, s'') \<Rightarrow> (Inl e, s'')
                | (Inr hs, s'') \<Rightarrow> (Ok (h # hs), s''))))"

text \<open>
  The comparison with a manifest already stored under the same key: \<open>None\<close> when there is none,
  or it cannot be read or parsed, or the upload is anonymous.
\<close>

definition remote_check ::
  "'s libs \<Rightarrow> u64 \<Rightarrow> 's \<Rightarrow> string \<Rightarrow> VectorClock \<Rightarrow> string \<Rightarrow> string option \<Rightarrow> string \<Rightarrow>
   (SyncOutcome \<times> SyncManifest) option" where
  "remote_check E now s remote_manifest local_vclock local_hash rel device_id =
     (if device_id = [] then None
      else if op_exists (l_op E) s remote_manifest \<noteq> Inr True then None
      else (case op_read (l_op E) s remote_manifest of
              Inl _ \<Rightarrow> None
            | Inr d \<Rightarrow>
                (case from_bytes (l_mf E) d of
                   Inl _ \<Rightarrow> None
                 | Inr m \<Rightarrow>
                     Some (compare_clocks now local_vclock (m_vclock m) local_hash (file_hash m)
                             (case rel of None \<Rightarrow> [] | Some r \<Rightarrow> r) device_id (written_by m), m))))"

text \<open>Recording the uploaded content in the state cache; a failed stat keeps the cache.\<close>

definition record_sync ::
  "fs \<Rightarrow> StateCache \<Rightarrow> path \<Rightarrow> string \<Rightarrow> nat \<Rightarrow> string \<Rightarrow> VectorClock \<Rightarrow> string \<Rightarrow> unit res \<times> StateCache" where
  "record_sync f c p h n remote vc dev =
     (case make_sync_state_full f p h (word_of_nat n) remote vc dev of
        Inl e \<Rightarrow> (Inl e, c)
      | Inr st \<Rightarrow> (Ok (), sc_set f c p st))"

text \<open>The key material of an encrypted upload: a fresh file key and the plaintext hash as file id.\<close>

definition upload_key ::
  "'s libs \<Rightarrow> rnd \<Rightarrow> EncryptionContext option \<Rightarrow> string \<Rightarrow> (FileKey \<times> bytes) option res" where
  "upload_key E rn enc file_hash_hex =
     (if l_crypto E \<and> enc \<noteq> None
      then (case hash_from_hex (l_hash E) file_hash_hex of
              Inl e \<Rightarrow> Inl e
            | Inr fid \<Rightarrow> Ok (Some (generate_file_key (r_file_key rn), fid)))
      else Ok None)"

definition wrapped_key ::
  "'s libs \<Rightarrow> rnd \<Rightarrow> EncryptionContext option \<Rightarrow> (FileKey \<times> bytes) option \<Rightarrow> string option res" where
  "wrapped_key E rn enc key =
     (case (enc, key) of
        (Some ctx, Some (fk, _)) \<Rightarrow>
          (case wrap_key (l_aead E) (r_wrap_nonce rn) (master_key ctx) fk of
             Inl e \<Rightarrow> Inl e
           | Inr w \<Rightarrow> Ok (Some (b64_enc (l_b64 E) w)))
      | _ \<Rightarrow> Ok None)"

text \<open>From the tick on: chunks, manifest, state cache.\<close>

definition upload_write ::
  "'s libs \<Rightarrow> rnd \<Rightarrow> fs \<Rightarrow> 's \<Rightarrow> StateCache \<Rightarrow> path \<Rightarrow> string \<Rightarrow> string \<Rightarrow> string option \<Rightarrow>
   EncryptionContext option \<Rightarrow> Chunk list \<Rightarrow> bytes \<Rightarrow> string \<Rightarrow> VectorClock \<Rightarrow> SyncOutcome option \<Rightarrow>
   UploadResult res \<times> 's \<times> StateCache" where
  "upload_write E rn f s c local_path rprefix device_id rel enc cs data file_hash_hex vc0 outcome =
     (let remote = manifest_key rprefix file_hash_hex;
          vc = (if device_id \<noteq> [] then tick vc0 device_id else vc0)
      in case upload_key E rn enc file_hash_hex of
           Inl e \<Rightarrow> (Inl e, s, c)
         | Inr key \<Rightarrow>
             (case upload_chunks E key (r_nonce rn) data rprefix s 0 cs of
                (Inl e, s') \<Rightarrow> (Inl e, s', c)
              | (Inr hs, s') \<Rightarrow>
                  (case wrapped_key E rn enc key of
                     Inl e \<Rightarrow> (Inl e, s', c)
                   | Inr wk \<Rightarrow>
                       (case to_bytes (l_mf E)
                               \<lparr>version = 2, file_hash = file_hash_hex, file_size = u64_len data,
                                chunks = hs, m_vclock = vc, written_by = device_id,
                                written_at = fs_now f, rel_path = rel, encrypted_file_key = wk\<rparr> of
                          Inl e \<Rightarrow> (Inl e, s', c)
                        | Inr mb \<Rightarrow>
                            (case op_write (l_op E) s' remote mb of
                               (Inl e, s'') \<Rightarrow> (Inl e, s'', c)
                             | (Inr _, s'') \<Rightarrow>
                                 (case record_sync f c local_path file_hash_hex (length cs) remote vc device_id of
                                    (Inl e, c') \<Rightarrow> (Inl e, s'', c')
                                  | (Inr _, c') \<Rightarrow>
                                      (Ok \<lparr>ur_path = local_path, ur_remote_path = remote,
                                           ur_hash = file_hash_hex, ur_chunks = length cs,
                                           ur_bytes = u64_len data, ur_skipped = False,
                                           ur_outcome = outcome\<rparr>, s'', c')))))))"

definition upload_file_with_device ::
  "'s libs \<Rightarrow> rnd \<Rightarrow> fs \<Rightarrow> 's \<Rightarrow> StateCache \<Rightarrow> path \<Rightarrow> string \<Rightarrow> string \<Rightarrow> string option \<Rightarrow>
   EncryptionContext option \<Rightarrow> UploadResult res \<times> 's \<times> StateCache" where
  "upload_file_with_device E rn f s c local_path rprefix device_id rel enc =
     (case sc_needs_sync (l_hash E) f c local_path of
        Inl e \<Rightarrow> (Inl e, s, c)
      | Inr None \<Rightarrow>
          (case sc_get f c local_path of
             None \<Rightarrow> (Err (EPanic ''unwrap''), s, c)
           | Some st \<Rightarrow>
               (Ok \<lparr>ur_path = local_path, ur_remote_path = ss_remote_path st, ur_hash = ss_blake3 st,
                    ur_chunks = unat (ss_chunk_count st), ur_bytes = ss_size st, ur_skipped = True,
                    ur_outcome = Some UpToDate\<rparr>, s, c))
      | Inr (Some reason) \<Rightarrow>
          (case chunk_file (l_hash E) (l_cdc E) f local_path of
             Inl e \<Rightarrow> (Inl e, s, c)
           | Inr (cs, data) \<Rightarrow>
               (let file_hash_hex = hex_of E data;
                    remote = manifest_key rprefix file_hash_hex;
                    local_vclock = (case sc_get f c local_path of None \<Rightarrow> vc_new | Some st \<Rightarrow> ss_vclock st);
                    result = (\<lambda>skip out. \<lparr>ur_path = local_path, ur_remote_path = remote,
                                ur_hash = file_hash_hex, ur_chunks = length cs, ur_bytes = u64_len data,
                                ur_skipped = skip, ur_outcome = out\<rparr>)
                in case remote_check E (fs_now f) s remote local_vclock file_hash_hex rel device_id of
                     Some (RemoteNewer, m) \<Rightarrow> (Ok (result True (Some RemoteNewer)), s, c)
                   | Some (Conflict ci, m) \<Rightarrow> (Ok (result True (Some (Conflict ci))), s, c)
                   | Some (UpToDate, m) \<Rightarrow>
                       (case record_sync f c local_path file_hash_hex (length cs) remote local_vclock device_id of
                          (Inl e, c') \<Rightarrow> (Inl e, s, c')
                        | (Inr _, c') \<Rightarrow> (Ok (result True (Some UpToDate)), s, c'))
                   | Some (LocalNewer, m) \<Rightarrow>
                       upload_write E rn f s c local_path rprefix device_id rel enc cs data file_hash_hex
                         (merge local_vclock (m_vclock m)) (Some LocalNewer)
                   | None \<Rightarrow>
                       if exists_or_false (l_op E) s remote \<and> device_id = []
                       then (case record_sync f c local_path file_hash_hex (length cs) remote local_vclock
                                    device_id of
                               (Inl e, c') \<Rightarrow> (Inl e, s, c')
                             | (Inr _, c') \<Rightarrow> (Ok (result False None), s, c'))
                       else upload_write E rn f s c local_path rprefix device_id rel enc cs data file_hash_hex
                              local_vclock None)))"

definition upload_file ::
  "'s libs \<Rightarrow> rnd \<Rightarrow> fs \<Rightarrow> 's \<Rightarrow> StateCache \<Rightarrow> path \<Rightarrow> string \<Rightarrow> UploadResult res \<times> 's \<times> StateCache" where
  "upload_file E rn f s c local_path rprefix =
     upload_file_with_device E rn f s c local_path rprefix [] None None"

subsection \<open>Download\<close>

text \<open>The file key of an encrypted manifest, with the file id its chunks are bound to.\<close>

definition download_key ::
  "'s libs \<Rightarrow> EncryptionContext option \<Rightarrow> string \<Rightarrow> SyncManifest \<Rightarrow> (FileKey \<times> bytes) option res" where
  "download_key E enc remote m =
     (if \<not> l_crypto E then Ok None
      else (case encrypted_file_key m of
              None \<Rightarrow> Ok None
            | Some wrapped_b64 \<Rightarrow>
                (case enc of
                   None \<Rightarrow> Err (ENoEncryption remote)
                 | Some ctx \<Rightarrow>
                     (case b64_dec (l_b64 E) wrapped_b64 of
                        None \<Rightarrow> Err (EDecode ''wrapped file key'')
                      | Some w \<Rightarrow>
                          (case unwrap_key (l_aead E) (master_key ctx) w of
                             Inl e \<Rightarrow> Inl e
                           | Inr fk \<Rightarrow>
                               (case hash_from_hex (l_hash E) (file_hash m) of
                                  Inl e \<Rightarrow> Inl e
                                | Inr fid \<Rightarrow> Ok (Some (fk, fid))))))))"

fun fetch_chunks ::
  "'s libs \<Rightarrow> (FileKey \<times> bytes) option \<Rightarrow> 's \<Rightarrow> string \<Rightarrow> nat \<Rightarrow> string list \<Rightarrow> bytes res" where
  "fetch_chunks E key s rprefix i [] = Ok []"
| "fetch_chunks E key s rprefix i (h # hs) =
     (case op_read (l_op E) s (chunk_key rprefix h) of
        Inl e \<Rightarrow> Inl e
      | Inr d \<Rightarrow>
          if hex_of E d \<noteq> h then Err (EChunkIntegrity (chunk_key rprefix h) h (hex_of E d))
          else (case (case key of
                        Some (fk, fid) \<Rightarrow> decrypt_chunk (l_aead E) fk (word_of_nat i) fid d
                      | None \<Rightarrow> Ok d) of
                  Inl e \<Rightarrow> Inl e
                | Inr pt \<Rightarrow>
                    (case fetch_chunks E key s rprefix (Suc i) hs of
                       Inl e \<Rightarrow> Inl e
                     | Inr rest \<Rightarrow> Ok (pt @ rest))))"

text \<open>Everything up to the write: the verified content and the manifest it came from.\<close>

definition fetch_verified ::
  "'s libs \<Rightarrow> 's \<Rightarrow> string \<Rightarrow> string \<Rightarrow> EncryptionContext option \<Rightarrow> (SyncManifest \<times> bytes) res" where
  "fetch_verified E s remote rprefix enc =
     (case op_read (l_op E) s remote of
        Inl e \<Rightarrow> Inl e
      | Inr mb \<Rightarrow>
          (case from_bytes (l_mf E) mb of
             Inl e \<Rightarrow> Inl e
           | Inr m \<Rightarrow>
               if chunk_hashes m = [] then Err (EEmptyManifest remote)
               else (case download_key E enc remote m of
                       Inl e \<Rightarrow> Inl e
                     | Inr key \<Rightarrow>
                         (case fetch_chunks E key s rprefix 0 (chunk_hashes m) of
                            Inl e \<Rightarrow> Inl e
                          | Inr assembled \<Rightarrow>
                              if hex_of E assembled \<noteq> file_hash m
                              then Err (EFileIntegrity remote (file_hash m) (hex_of E assembled))
                              else Ok (m, assembled)))))"

definition download_file_with_device ::
  "'s libs \<Rightarrow> fs \<Rightarrow> 's \<Rightarrow> string \<Rightarrow> path \<Rightarrow> string \<Rightarrow> string \<Rightarrow> StateCache option \<Rightarrow>
   EncryptionContext option \<Rightarrow> DownloadResult res \<times> fs \<times> StateCache option" where
  "download_file_with_device E f s remote local_path rprefix device_id state enc =
     (case fetch_verified E s remote rprefix enc of
        Inl e \<Rightarrow> (Inl e, f, state)
      | Inr (m, assembled) \<Rightarrow>
          (case fs_ensure_parent f local_path of
             (Inl e, f1) \<Rightarrow> (Inl e, f1, state)
           | (Inr _, f1) \<Rightarrow>
               (case fs_replace f1 (with_extension local_path ''tcfs_tmp'') local_path assembled of
                  (Inl e, f2) \<Rightarrow> (Inl e, f2, state)
                | (Inr _, f2) \<Rightarrow>
                    (let ok = Ok \<lparr>dr_remote_path = remote, dr_local_path = local_path,
                                  dr_bytes = u64_len assembled\<rparr>
                     in case state of
                          None \<Rightarrow> (ok, f2, None)
                        | Some c \<Rightarrow>
                            if device_id = [] then (ok, f2, Some c)
                            else (let vc = (case sc_get f2 c local_path of
                                              None \<Rightarrow> vc_new | Some st \<Rightarrow> ss_vclock st)
                                  in case record_sync f2 c local_path (hex_of E assembled)
                                            (length (chunk_hashes m)) remote (merge vc (m_vclock m)) device_id of
                                       (Inl e, c') \<Rightarrow> (Inl e, f2, Some c')
                                     | (Inr _, c') \<Rightarrow> (ok, f2, Some c'))))))"

definition download_file ::
  "'s libs \<Rightarrow> fs \<Rightarrow> 's \<Rightarrow> string \<Rightarrow> path \<Rightarrow> string \<Rightarrow> DownloadResult res \<times> fs" where
  "download_file E f s remote local_path rprefix =
     (case download_file_with_device E f s remote local_path rprefix [] None None of
        (r, f', _) \<Rightarrow> (r, f'))"

end
