(* ===== verification/Engine_Props.thy ===== *)
theory Engine_Props
  imports Sync_Engine
begin

text \<open>
  Properties of the sync engine: the store stays content-addressed, downloads are verified before
  they touch the local file, an uploaded file downloads to the same bytes, and what the
  manifest key being the content hash implies for conflict detection.
\<close>

section \<open>Object keys and the content-addressed store\<close>

lemma chunk_key_inj [simp]: "chunk_key p h = chunk_key p h' \<longleftrightarrow> h = h'"
  by (simp add: chunk_key_def)

lemma manifest_key_inj [simp]: "manifest_key p h = manifest_key p h' \<longleftrightarrow> h = h'"
  by (simp add: manifest_key_def)

lemma chunk_key_not_manifest_key [simp]:
  "chunk_key p h \<noteq> manifest_key p h'" "manifest_key p h' \<noteq> chunk_key p h"
  by (simp_all add: chunk_key_def manifest_key_def)

text \<open>
  Every chunk object that can be read holds bytes of the hash it is named by (and from \<open>U\<close>, the
  contents considered), and an object reported to exist can be read.
\<close>

definition cas_in :: "'s libs \<Rightarrow> string \<Rightarrow> bytes set \<Rightarrow> 's \<Rightarrow> bool" where
  "cas_in E p U s \<longleftrightarrow>
     (\<forall>h d. op_read (l_op E) s (chunk_key p h) = Inr d \<longrightarrow> hex_of E d = h \<and> d \<in> U) \<and>
     (\<forall>h. op_exists (l_op E) s (chunk_key p h) = Inr True \<longrightarrow>
          (\<exists>d. op_read (l_op E) s (chunk_key p h) = Inr d))"

abbreviation cas_ok :: "'s libs \<Rightarrow> string \<Rightarrow> 's \<Rightarrow> bool" where
  "cas_ok E p \<equiv> cas_in E p UNIV"

lemma cas_readD: "cas_in E p U s \<Longrightarrow> op_read (l_op E) s (chunk_key p h) = Inr d \<Longrightarrow> hex_of E d = h \<and> d \<in> U"
  by (simp add: cas_in_def)

lemma cas_in_write_chunk:
  assumes "store_laws (l_op E)" and "cas_in E p U s" and "hex_of E b = h" and "b \<in> U"
    and "op_write (l_op E) s (chunk_key p h) b = (r, s')"
  shows "cas_in E p U s'"
  unfolding cas_in_def
proof (intro conjI allI impI)
  fix h' d
  assume rd: "op_read (l_op E) s' (chunk_key p h') = Inr d"
  have "hex_of E d = h' \<and> d \<in> U"
  proof (cases "op_read (l_op E) s (chunk_key p h') = Inr d")
    case True
    then show ?thesis by (rule cas_readD[OF assms(2)])
  next
    case False
    then have "h' = h" and "op_read (l_op E) s' (chunk_key p h) = Inr b"
      using rd store_write_frame[OF assms(1,5), of "chunk_key p h'"] store_write_atomic[OF assms(1,5)]
      by (metis chunk_key_inj)+
    then show ?thesis using rd assms(3,4) by simp
  qed
  then show "hex_of E d = h'" and "d \<in> U" by simp_all
next
  fix h'
  assume "op_exists (l_op E) s' (chunk_key p h') = Inr True"
  then show "\<exists>d. op_read (l_op E) s' (chunk_key p h') = Inr d"
    using assms(2) store_write_frame[OF assms(1,5), of "chunk_key p h'"]
      store_write_frame_exists[OF assms(1,5), of "chunk_key p h'"] store_write_atomic[OF assms(1,5)]
    by (cases "h' = h") (auto simp: cas_in_def)
qed

lemma cas_in_write_manifest:
  assumes "store_laws (l_op E)" and "cas_in E p U s"
    and "op_write (l_op E) s (manifest_key p h) b = (r, s')"
  shows "cas_in E p U s'"
proof -
  have "op_read (l_op E) s' (chunk_key p h') = op_read (l_op E) s (chunk_key p h')"
    "op_exists (l_op E) s' (chunk_key p h') = op_exists (l_op E) s (chunk_key p h')" for h'
    using store_write_frame[OF assms(1,3), of "chunk_key p h'"]
      store_write_frame_exists[OF assms(1,3), of "chunk_key p h'"] by simp_all
  then show ?thesis
    using assms(2) by (simp add: cas_in_def)
qed

section \<open>Uploading chunks\<close>

text \<open>The chunks the engine uploads: slices of the data carrying their own hash.\<close>

definition tagged :: "'s libs \<Rightarrow> bytes \<Rightarrow> Chunk \<Rightarrow> bool" where
  "tagged E data c \<longleftrightarrow> ch_offset c + ch_length c \<le> length data \<and>
     ch_hash c = hash_bytes (l_hash E) (chunk_bytes_of data c)"

definition blobs_in ::
  "'s libs \<Rightarrow> (FileKey \<times> bytes) option \<Rightarrow> (nat \<Rightarrow> bytes) \<Rightarrow> bytes \<Rightarrow> bytes set \<Rightarrow> nat \<Rightarrow> Chunk list \<Rightarrow> bool" where
  "blobs_in E key nonces data U i cs \<longleftrightarrow>
     (\<forall>j < length cs. \<forall>b h. upload_blob E key nonces data (i + j) (cs ! j) = Inr (b, h) \<longrightarrow> b \<in> U)"

lemma blobs_in_Cons:
  "blobs_in E key nonces data U i (c # cs) \<longleftrightarrow>
     (\<forall>b h. upload_blob E key nonces data i c = Inr (b, h) \<longrightarrow> b \<in> U) \<and>
     blobs_in E key nonces data U (Suc i) cs"
  by (auto simp: blobs_in_def nth_Cons less_Suc_eq_0_disj split: nat.splits)

lemma blobs_in_UNIV [simp]: "blobs_in E key nonces data UNIV i cs"
  by (simp add: blobs_in_def)

lemma upload_blob_hash:
  "tagged E data c \<Longrightarrow> upload_blob E key nonces data i c = Inr (b, h) \<Longrightarrow> hex_of E b = h"
  by (auto simp: upload_blob_def tagged_def hex_of_def chunk_bytes_of_def split: option.splits sum.splits)

lemma upload_blob_decrypts:
  assumes "aead_laws (l_aead E)" and "length (nonces i) = NONCE_SIZE" and "tagged E data c"
    and "upload_blob E key nonces data i c = Inr (b, h)"
  shows "(case key of Some (fk, fid) \<Rightarrow> decrypt_chunk (l_aead E) fk (word_of_nat i) fid b | None \<Rightarrow> Ok b) =
         Inr (chunk_bytes_of data c)"
  using assms decrypt_encrypt_chunk[OF assms(1,2)]
  by (auto simp: upload_blob_def tagged_def chunk_bytes_of_def split: option.splits sum.splits)

text \<open>One step of the chunk loop.\<close>

lemma put_chunk_cas:
  assumes "store_laws (l_op E)" and "cas_in E p U s" and "hex_of E b = h" and "b \<in> U"
    and "put_chunk E p s h b = (r, s')"
  shows "cas_in E p U s'"
  using assms cas_in_write_chunk[OF assms(1-4)] by (auto simp: put_chunk_def split: if_splits)

lemma put_chunk_read:
  assumes "store_laws (l_op E)" and "cas_in E p U s" and "inj_on (hex_of E) U"
    and "hex_of E b = h" and "b \<in> U"
    and "put_chunk E p s h b = (Inr u, s')"
  shows "op_read (l_op E) s' (chunk_key p h) = Inr b"
proof (cases "exists_or_false (l_op E) s (chunk_key p h)")
  case True
  then obtain d where "op_read (l_op E) s (chunk_key p h) = Inr d"
    using assms(2) by (auto simp: exists_or_false_def cas_in_def split: sum.splits)
  moreover from this have "hex_of E d = h" "d \<in> U" using cas_readD[OF assms(2)] by blast+
  ultimately show ?thesis
    using True assms(3-6) by (auto simp: put_chunk_def dest: inj_onD)
next
  case False
  then show ?thesis using assms(1,6) by (auto simp: put_chunk_def dest: store_write_read)
qed

text \<open>A chunk that is in the store stays readable with the same bytes.\<close>

lemma put_chunk_keeps:
  assumes "store_laws (l_op E)" and "cas_in E p U s" and "inj_on (hex_of E) U"
    and "hex_of E b = h" and "b \<in> U"
    and "put_chunk E p s h b = (r, s')"
    and "op_read (l_op E) s (chunk_key p g) = Inr d"
  shows "op_read (l_op E) s' (chunk_key p g) = Inr d"
proof (cases "exists_or_false (l_op E) s (chunk_key p h)")
  case False
  have d: "hex_of E d = g" "d \<in> U" using cas_readD[OF assms(2,7)] by blast+
  have w: "op_write (l_op E) s (chunk_key p h) b = (r, s')" using False assms(6) by (simp add: put_chunk_def)
  show ?thesis
  proof (cases "g = h")
    case True
    then have "b = d" using assms(3-5) d by (auto dest: inj_onD)
    with True store_write_atomic[OF assms(1) w] assms(7) show ?thesis by auto
  qed (use store_write_frame[OF assms(1) w, of "chunk_key p g"] assms(7) in simp)
qed (use assms(6,7) in \<open>simp add: put_chunk_def\<close>)

lemma upload_chunks_Cons_cases:
  assumes "upload_chunks E key nonces data p s i (c # cs) = (r, s')"
  obtains (fail) e where "r = Inl e" "s' = s" "upload_blob E key nonces data i c = Inl e"
  | (put_fail) e b h where "r = Inl e" "upload_blob E key nonces data i c = Inr (b, h)"
      "put_chunk E p s h b = (Inl e, s')"
  | (rest) b h s1 u r1 where "upload_blob E key nonces data i c = Inr (b, h)"
      "put_chunk E p s h b = (Inr u, s1)"
      "upload_chunks E key nonces data p s1 (Suc i) cs = (r1, s')"
      "r = (case r1 of Inl e \<Rightarrow> Inl e | Inr hs \<Rightarrow> Inr (h # hs))"
  using assms by (auto split: sum.splits prod.splits)

lemma upload_chunks_cas:
  assumes "store_laws (l_op E)"
  shows "upload_chunks E key nonces data p s i cs = (r, s') \<Longrightarrow> cas_in E p U s \<Longrightarrow>
    list_all (tagged E data) cs \<Longrightarrow> blobs_in E key nonces data U i cs \<Longrightarrow> cas_in E p U s'"
proof (induction cs arbitrary: s i r s')
  case (Cons c cs)
  have b: "hex_of E b = h \<and> b \<in> U" if "upload_blob E key nonces data i c = Inr (b, h)" for b h
    using that Cons.prems upload_blob_hash by (auto simp: blobs_in_Cons)
  from Cons.prems(1) show ?case
  proof (cases rule: upload_chunks_Cons_cases)
    case (put_fail e b h)
    then show ?thesis using put_chunk_cas[OF assms Cons.prems(2)] b by blast
  next
    case (rest b h s1 u r1)
    then have "cas_in E p U s1" using put_chunk_cas[OF assms Cons.prems(2)] b by blast
    with rest Cons show ?thesis by (simp add: blobs_in_Cons)
  qed (use Cons.prems in simp)
qed simp

lemma upload_chunks_keeps:
  assumes "store_laws (l_op E)" and "inj_on (hex_of E) U"
  shows "upload_chunks E key nonces data p s i cs = (r, s') \<Longrightarrow> cas_in E p U s \<Longrightarrow>
    list_all (tagged E data) cs \<Longrightarrow> blobs_in E key nonces data U i cs \<Longrightarrow>
    op_read (l_op E) s (chunk_key p g) = Inr d \<Longrightarrow> op_read (l_op E) s' (chunk_key p g) = Inr d"
proof (induction cs arbitrary: s i r s')
  case (Cons c cs)
  have b: "hex_of E b = h \<and> b \<in> U" if "upload_blob E key nonces data i c = Inr (b, h)" for b h
    using that Cons.prems upload_blob_hash by (auto simp: blobs_in_Cons)
  note keeps = put_chunk_keeps[OF assms(1) Cons.prems(2) assms(2) _ _ _ Cons.prems(5)]
  from Cons.prems(1) show ?case
  proof (cases rule: upload_chunks_Cons_cases)
    case (put_fail e b h)
    then show ?thesis using keeps b by blast
  next
    case (rest b h s1 u r1)
    then have "cas_in E p U s1" using put_chunk_cas[OF assms(1) Cons.prems(2)] b by blast
    moreover have "op_read (l_op E) s1 (chunk_key p g) = Inr d" using keeps rest(1,2) b by blast
    ultimately show ?thesis using Cons.IH rest(3) Cons.prems by (simp add: blobs_in_Cons)
  qed (use Cons.prems in simp)
qed simp

text \<open>What was uploaded is fetched back: chunk hashes check and the plaintexts reassemble.\<close>

lemma upload_then_fetch:
  assumes "store_laws (l_op E)" and "inj_on (hex_of E) U" and "aead_laws (l_aead E)"
    and "\<forall>i. length (nonces i) = NONCE_SIZE"
  shows "upload_chunks E key nonces data p s i cs = (Inr hs, s') \<Longrightarrow> cas_in E p U s \<Longrightarrow>
    list_all (tagged E data) cs \<Longrightarrow> blobs_in E key nonces data U i cs \<Longrightarrow>
    fetch_chunks E key s' p i hs = Inr (concat (map (chunk_bytes_of data) cs)) \<and> length hs = length cs"
proof (induction cs arbitrary: s i hs)
  case (Cons c cs)
  from Cons.prems(1) show ?case
  proof (cases rule: upload_chunks_Cons_cases)
    case (rest b h s1 u r1)
    then obtain hs1 where hs: "hs = h # hs1" "r1 = Inr hs1" by (auto split: sum.splits)
    have t: "tagged E data c" and "b \<in> U" using Cons.prems(3,4) rest(1) by (auto simp: blobs_in_Cons)
    with upload_blob_hash[OF t rest(1)] have b: "hex_of E b = h" "b \<in> U" by simp_all
    have cas1: "cas_in E p U s1" by (rule put_chunk_cas[OF assms(1) Cons.prems(2) b rest(2)])
    have "op_read (l_op E) s1 (chunk_key p h) = Inr b"
      by (rule put_chunk_read[OF assms(1) Cons.prems(2) assms(2) b rest(2)])
    then have rd: "op_read (l_op E) s' (chunk_key p h) = Inr b"
      using upload_chunks_keeps[OF assms(1,2) rest(3) cas1] Cons.prems(3,4) by (simp add: blobs_in_Cons)
    have "fetch_chunks E key s' p (Suc i) hs1 = Inr (concat (map (chunk_bytes_of data) cs)) \<and>
          length hs1 = length cs"
      using Cons.IH[OF _ cas1, of "Suc i" hs1] rest(3) hs(2) Cons.prems(3,4) by (simp add: blobs_in_Cons)
    then show ?thesis
      using rd b upload_blob_decrypts[OF assms(3) _ t rest(1)] assms(4)
      by (simp add: hs(1))
  qed simp_all
qed simp

lemma upload_chunks_frame:
  assumes "store_laws (l_op E)" and "\<And>h. k \<noteq> chunk_key p h"
  shows "upload_chunks E key nonces data p s i cs = (r, s') \<Longrightarrow>
    op_read (l_op E) s' k = op_read (l_op E) s k \<and> op_exists (l_op E) s' k = op_exists (l_op E) s k"
proof (induction cs arbitrary: s i r s')
  case (Cons c cs)
  have frame: "op_read (l_op E) s1 k = op_read (l_op E) s k" "op_exists (l_op E) s1 k = op_exists (l_op E) s k"
    if "put_chunk E p s g b = (r1, s1)" for g b r1 s1
    using that assms(2)[of g] store_write_frame[OF assms(1), of s "chunk_key p g" b r1 s1 k]
      store_write_frame_exists[OF assms(1), of s "chunk_key p g" b r1 s1 k]
    by (auto simp: put_chunk_def split: if_splits)
  from Cons.prems show ?case
    by (cases rule: upload_chunks_Cons_cases) (auto simp: frame Cons.IH)
qed simp

section \<open>Uploads keep the store consistent\<close>

definition engine_laws :: "'s libs \<Rightarrow> bool" where
  "engine_laws E \<longleftrightarrow> store_laws (l_op E) \<and> hasher_laws (l_hash E) \<and> cdc_laws (l_cdc E) \<and>
     manifest_codec_laws (l_mf E) \<and> aead_laws (l_aead E) \<and> base64_laws (l_b64 E)"

lemma engine_lawsD:
  assumes "engine_laws E"
  shows "store_laws (l_op E)" "hasher_laws (l_hash E)" "cdc_laws (l_cdc E)"
    "manifest_codec_laws (l_mf E)" "aead_laws (l_aead E)" "base64_laws (l_b64 E)"
  using assms by (simp_all add: engine_laws_def)

lemma chunk_file_ok:
  assumes "cdc_laws (l_cdc E)" and "chunk_file (l_hash E) (l_cdc E) f lp = Inr (cs, data)"
  shows "fs_read f lp = Inr data" and "list_all (tagged E data) cs"
    and "concat (map (chunk_bytes_of data) cs) = data" and "cs = [] \<longleftrightarrow> data = []"
proof -
  have rd: "fs_read f lp = Inr data" and cd: "chunk_data (l_hash E) (l_cdc E) data (for_path lp) = Inr cs"
    using assms(2) by (auto simp: chunk_file_def split: sum.splits)
  obtain cuts where cs: "cs = mk_chunks (l_hash E) data cuts" and cov: "covers 0 cuts (length data)"
    using chunk_data_ok[OF assms(1), of "for_path lp" "l_hash E" data] cd by auto
  show "fs_read f lp = Inr data" by (rule rd)
  show "list_all (tagged E data) cs"
    unfolding cs list_all_iff tagged_def using mk_chunks_slices[OF cov] by blast
  show "concat (map (chunk_bytes_of data) cs) = data" "cs = [] \<longleftrightarrow> data = []"
    using concat_mk_chunks[OF cov, of "l_hash E"] mk_chunks_Nil_iff[OF cov, of "l_hash E"] cs by simp_all
qed

text \<open>
  A manifest that can be read parses and describes the file whose hash it is stored under; and a
  manifest reported to exist can be read.
\<close>

definition has_manifest :: "'s libs \<Rightarrow> string \<Rightarrow> 's \<Rightarrow> string \<Rightarrow> bool" where
  "has_manifest E p s h \<longleftrightarrow>
     (\<exists>mb m. op_read (l_op E) s (manifest_key p h) = Inr mb \<and> from_bytes (l_mf E) mb = Inr m \<and> file_hash m = h)"

definition manifests_ok :: "'s libs \<Rightarrow> string \<Rightarrow> 's \<Rightarrow> bool" where
  "manifests_ok E p s \<longleftrightarrow>
     (\<forall>h. op_exists (l_op E) s (manifest_key p h) = Inr True \<or>
          is_ok (op_read (l_op E) s (manifest_key p h)) \<longrightarrow> has_manifest E p s h)"

definition store_ok :: "'s libs \<Rightarrow> string \<Rightarrow> 's \<Rightarrow> bool" where
  "store_ok E p s \<longleftrightarrow> cas_ok E p s \<and> manifests_ok E p s"

lemma manifests_ok_readD:
  assumes "manifests_ok E p s" and "op_read (l_op E) s (manifest_key p h) = Inr mb"
    and "from_bytes (l_mf E) mb = Inr m"
  shows "file_hash m = h"
proof -
  have "has_manifest E p s h" using assms(1,2) by (simp add: manifests_ok_def)
  with assms(2,3) show ?thesis by (auto simp: has_manifest_def)
qed

lemma manifests_ok_cong:
  assumes "\<And>h. op_read (l_op E) s' (manifest_key p h) = op_read (l_op E) s (manifest_key p h)"
    and "\<And>h. op_exists (l_op E) s' (manifest_key p h) = op_exists (l_op E) s (manifest_key p h)"
  shows "manifests_ok E p s' \<longleftrightarrow> manifests_ok E p s" "has_manifest E p s' h = has_manifest E p s h"
  by (simp_all add: manifests_ok_def has_manifest_def assms)

text \<open>The store effects of an upload: nothing, chunks only, or chunks and the manifest.\<close>

lemma upload_write_effects:
  assumes "upload_write E rn f s c lp p dev rel enc cs data h vc out = (r, s', c')"
  obtains e where "r = Inl e" "s' = s"
  | key r1 e where "r = Inl e" "upload_chunks E key (r_nonce rn) data p s 0 cs = (r1, s')"
  | key hs s1 m mb r2 where "upload_chunks E key (r_nonce rn) data p s 0 cs = (Inr hs, s1)"
      "to_bytes (l_mf E) m = Inr mb" "file_hash m = h"
      "op_write (l_op E) s1 (manifest_key p h) mb = (r2, s')" "is_ok r \<longrightarrow> is_ok r2"
  using assms by (auto simp: upload_write_def Let_def split: sum.splits prod.splits)

lemma upload_effects:
  assumes "upload_file_with_device E rn f s c lp p dev rel enc = (r, s', c')"
  obtains "s' = s"
  | cs data vc out where "chunk_file (l_hash E) (l_cdc E) f lp = Inr (cs, data)"
      "upload_write E rn f s c lp p dev rel enc cs data (hex_of E data) vc out = (r, s', c')"
  using assms
  by (auto simp: upload_file_with_device_def Let_def
      split: sum.splits prod.splits option.splits SyncOutcome.splits if_splits)

lemma write_manifest_has:
  assumes "store_laws (l_op E)" and "manifest_codec_laws (l_mf E)"
    and "to_bytes (l_mf E) m = Inr mb" and "op_write (l_op E) s (manifest_key p (file_hash m)) mb = (r, s')"
  shows "has_manifest E p s h \<Longrightarrow> has_manifest E p s' h"
    and "is_ok r \<Longrightarrow> has_manifest E p s' (file_hash m)"
    and "manifests_ok E p s \<Longrightarrow> manifests_ok E p s'"
proof -
  have new: "has_manifest E p s' (file_hash m)"
    if "op_read (l_op E) s' (manifest_key p (file_hash m)) = Inr mb"
    using that to_bytes_from_bytes[OF assms(2,3)] by (simp add: has_manifest_def)
  note frame = store_write_frame[OF assms(1,4), of "manifest_key p h" for h]
    store_write_frame_exists[OF assms(1,4), of "manifest_key p h" for h]
  note atomic = store_write_atomic[OF assms(1,4)]
  show keep: "has_manifest E p s h \<Longrightarrow> has_manifest E p s' h" for h
    using frame[of h] atomic new by (cases "h = file_hash m") (auto simp: has_manifest_def)
  show "is_ok r \<Longrightarrow> has_manifest E p s' (file_hash m)"
    using new store_write_read[OF assms(1)] assms(4) by (cases r) auto
  assume ok: "manifests_ok E p s"
  show "manifests_ok E p s'"
    unfolding manifests_ok_def
  proof (intro allI impI)
    fix g
    assume "op_exists (l_op E) s' (manifest_key p g) = Inr True \<or> is_ok (op_read (l_op E) s' (manifest_key p g))"
    then show "has_manifest E p s' g"
      using ok keep[of g] new frame[of g] atomic
      by (cases "g = file_hash m") (auto simp: manifests_ok_def)
  qed
qed

lemma upload_chunks_store_ok:
  assumes "store_laws (l_op E)" and "store_ok E p s" and "list_all (tagged E data) cs"
    and "upload_chunks E key nonces data p s 0 cs = (r, s')"
  shows "store_ok E p s'" and "has_manifest E p s h \<Longrightarrow> has_manifest E p s' h"
proof -
  have fr: "op_read (l_op E) s' (manifest_key p h) = op_read (l_op E) s (manifest_key p h)"
    "op_exists (l_op E) s' (manifest_key p h) = op_exists (l_op E) s (manifest_key p h)" for h
    using upload_chunks_frame[OF assms(1) _ assms(4), of "manifest_key p h"] by simp_all
  show "store_ok E p s'"
    using assms(2,3) upload_chunks_cas[OF assms(1,4), of UNIV] manifests_ok_cong(1)[OF fr]
    by (simp add: store_ok_def)
  show "has_manifest E p s h \<Longrightarrow> has_manifest E p s' h"
    using manifests_ok_cong(2)[OF fr] by simp
qed

lemma upload_write_store:
  assumes "engine_laws E" and "store_ok E p s"
    and "chunk_file (l_hash E) (l_cdc E) f lp = Inr (cs, data)"
    and "upload_write E rn f s c lp p dev rel enc cs data h vc out = (r, s', c')"
  shows "store_ok E p s'" and "has_manifest E p s g \<Longrightarrow> has_manifest E p s' g"
    and "is_ok r \<Longrightarrow> has_manifest E p s' h"
proof -
  note L = engine_lawsD[OF assms(1)]
  note tag = chunk_file_ok(2)[OF L(3) assms(3)]
  have "store_ok E p s' \<and> (has_manifest E p s g \<longrightarrow> has_manifest E p s' g) \<and> (is_ok r \<longrightarrow> has_manifest E p s' h)"
    using assms(4)
  proof (cases rule: upload_write_effects)
    case 1
    then show ?thesis using assms(2) by simp
  next
    case (2 key r1)
    then show ?thesis using upload_chunks_store_ok[OF L(1) assms(2) tag 2(2)] by simp
  next
    case (3 key hs s1 m mb r2)
    note c = upload_chunks_store_ok[OF L(1) assms(2) tag 3(1)]
    note w = write_manifest_has[OF L(1,4) 3(2), of s1 p r2 s']
    show ?thesis
      using 3(3-5) c w cas_in_write_manifest[OF L(1) _ 3(4)] by (simp add: store_ok_def)
  qed
  then show "store_ok E p s'" "has_manifest E p s g \<Longrightarrow> has_manifest E p s' g"
    "is_ok r \<Longrightarrow> has_manifest E p s' h" by blast+
qed

lemma upload_store:
  assumes "engine_laws E" and "store_ok E p s"
    and "upload_file_with_device E rn f s c lp p dev rel enc = (r, s', c')"
  shows "store_ok E p s'" and "has_manifest E p s g \<Longrightarrow> has_manifest E p s' g"
  using upload_effects[OF assms(3)] upload_write_store(1,2)[OF assms(1,2)] assms(2) by metis+

text \<open>
  Uploading keeps the remote store consistent whatever happens (write errors included):
  every chunk object still hashes to its name, objects that exist can be read, every manifest
  parses and describes the file whose hash it is stored under, and no stored manifest is lost.
\<close>

theorem upload_keeps_store_ok:
  assumes "engine_laws E" and "store_ok E p s"
    and "upload_file_with_device E rn f s c lp p dev rel enc = (r, s', c')"
  shows "store_ok E p s' \<and> (\<forall>h. has_manifest E p s h \<longrightarrow> has_manifest E p s' h)"
  using upload_store[OF assms] by blast

lemma remote_check_named:
  "manifests_ok E p s \<Longrightarrow>
   remote_check E now s (manifest_key p h) vc h rel dev = Some (out, m) \<Longrightarrow> out = UpToDate"
  by (auto simp: remote_check_def compare_clocks_def dest: manifests_ok_readD split: sum.splits if_splits)

lemma upload_write_outcome:
  "upload_write E rn f s c lp p dev rel enc cs data h vc out = (Inr r, s', c') \<Longrightarrow> ur_outcome r = out"
  by (auto simp: upload_write_def Let_def split: sum.splits prod.splits)

text \<open>
  C21: because a manifest is keyed by the content hash, an upload only ever compares its file with
  a manifest of the very same content: on a consistent store no upload reports a conflict, that
  the remote is newer, or that the local copy is newer, whatever the vector clocks say.
\<close>

theorem upload_never_reports_conflict:
  assumes "store_ok E p s"
    and "upload_file_with_device E rn f s c lp p dev rel enc = (Inr r, s', c')"
  shows "ur_outcome r \<in> {None, Some UpToDate}"
proof -
  have named: "manifests_ok E p s" using assms(1) by (simp add: store_ok_def)
  show ?thesis
    using assms(2) named
    by (auto simp: upload_file_with_device_def Let_def
        split: sum.splits prod.splits option.splits SyncOutcome.splits if_splits
        dest: remote_check_named upload_write_outcome)
qed

end
