(* ===== verification/Fuse_Cache.thy ===== *)
theory Fuse_Cache
  imports Engine_Props "HOL-Library.Multiset"
begin

text \<open>
  The caches of the FUSE driver and on-demand hydration: \<^verbatim>\<open>negative_cache.rs\<close>, \<^verbatim>\<open>cache.rs\<close> and
  \<^verbatim>\<open>hydrate.rs\<close> of \<^verbatim>\<open>crates/tcfs-fuse\<close>. \<^verbatim>\<open>Instant::now()\<close> is an argument (in any unit); what a
  directory scan returns (\<^verbatim>\<open>read_dir\<close>) is the parameter \<open>rd\<close>.
\<close>

section \<open>Model: negative dentry cache\<close>

record NegativeCache =
  nc_entries :: "string \<Rightarrow> nat option"
  nc_ttl :: nat

definition nc_new :: "nat \<Rightarrow> NegativeCache" where
  "nc_new ttl = \<lparr>nc_entries = (\<lambda>_. None), nc_ttl = ttl\<rparr>"

definition nc_insert :: "nat \<Rightarrow> NegativeCache \<Rightarrow> string \<Rightarrow> NegativeCache" where
  "nc_insert now c p = c\<lparr>nc_entries := (nc_entries c)(p := Some now)\<rparr>"

definition is_negative :: "nat \<Rightarrow> NegativeCache \<Rightarrow> string \<Rightarrow> bool" where
  "is_negative now c p = (case nc_entries c p of Some t \<Rightarrow> now - t < nc_ttl c | None \<Rightarrow> False)"

definition nc_remove :: "NegativeCache \<Rightarrow> string \<Rightarrow> NegativeCache" where
  "nc_remove c p = c\<lparr>nc_entries := (nc_entries c)(p := None)\<rparr>"

definition evict_expired :: "nat \<Rightarrow> NegativeCache \<Rightarrow> NegativeCache" where
  "evict_expired now c =
     c\<lparr>nc_entries := (\<lambda>p. case nc_entries c p of
                           Some t \<Rightarrow> if now - t < nc_ttl c then Some t else None
                         | None \<Rightarrow> None)\<rparr>"

section \<open>Model: disk cache\<close>

record DiskCache =
  dc_dir :: path
  dc_max_bytes :: u64

text \<open>Slicing the key inside a multi-byte character panics.\<close>

definition path_for :: "DiskCache \<Rightarrow> string \<Rightarrow> path res" where
  "path_for c key =
     (if length key \<ge> 2
      then (if length key > 2 \<and> is_cont (key ! 2) then Err (EPanic ''str slice'')
            else Ok (path_join (path_join (dc_dir c) (path_of (take 2 key))) (path_of key)))
      else Ok (path_join (path_join (dc_dir c) (path_of ''xx'')) (path_of key)))"

definition dc_get :: "fs \<Rightarrow> DiskCache \<Rightarrow> string \<Rightarrow> bytes option res" where
  "dc_get f c key =
     (case path_for c key of
        Inl e \<Rightarrow> Inl e
      | Inr p \<Rightarrow> Ok (case fs_read f p of Inl _ \<Rightarrow> None | Inr d \<Rightarrow> Some d))"

definition dc_contains :: "fs \<Rightarrow> DiskCache \<Rightarrow> string \<Rightarrow> bool res" where
  "dc_contains f c key = (case path_for c key of Inl e \<Rightarrow> Inl e | Inr p \<Rightarrow> Ok (fs_exists f p))"

type_synonym rdir = "fs \<Rightarrow> path \<Rightarrow> path list res"
type_synonym centry = "path \<times> u64 \<times> int"

definition scan_entry :: "fs \<Rightarrow> path \<Rightarrow> centry list res" where
  "scan_entry f p =
     (case fs_metadata f p of
        Inl e \<Rightarrow> Inl e
      | Inr (len, mt) \<Rightarrow>
          if fs_is_file f p \<and> \<not> (case file_name p of None \<Rightarrow> False | Some n \<Rightarrow> ends_with ''.tmp'' n)
          then Ok [(p, len, case mt of None \<Rightarrow> 0 | Some t \<Rightarrow> t)]
          else Ok [])"

definition scan_shard :: "rdir \<Rightarrow> fs \<Rightarrow> path \<Rightarrow> centry list res" where
  "scan_shard rd f shard =
     (case fs_metadata f shard of
        Inl e \<Rightarrow> Inl e
      | Inr _ \<Rightarrow>
          if \<not> fs_is_dir f shard then Ok []
          else (case rd f shard of
                  Inl e \<Rightarrow> Inl e
                | Inr ps \<Rightarrow> (case map_res (scan_entry f) ps of Inl e \<Rightarrow> Inl e | Inr es \<Rightarrow> Ok (concat es))))"

definition scan_cache :: "rdir \<Rightarrow> fs \<Rightarrow> DiskCache \<Rightarrow> centry list res" where
  "scan_cache rd f c =
     (case rd f (dc_dir c) of
        Inl e \<Rightarrow> Inl e
      | Inr ss \<Rightarrow> (case map_res (scan_shard rd f) ss of Inl e \<Rightarrow> Inl e | Inr es \<Rightarrow> Ok (concat es)))"

text \<open>The total is a \<^verbatim>\<open>u64\<close>: the sum wraps around, the subtraction is \<^verbatim>\<open>saturating_sub\<close>.\<close>

fun evict_loop :: "u64 \<Rightarrow> u64 \<Rightarrow> centry list \<Rightarrow> fs \<Rightarrow> fs" where
  "evict_loop mx tot [] f = f"
| "evict_loop mx tot ((p, sz, t) # r) f =
     (if tot \<le> mx then f
      else evict_loop mx (if sz \<le> tot then tot - sz else 0) r (snd (fs_remove_file f p)))"

definition evict_if_needed :: "rdir \<Rightarrow> fs \<Rightarrow> DiskCache \<Rightarrow> unit res \<times> fs" where
  "evict_if_needed rd f c =
     (case scan_cache rd f c of
        Inl e \<Rightarrow> (Inl e, f)
      | Inr es \<Rightarrow>
          (let tot = sum_list (map (\<lambda>(p, sz, t). sz) es)
           in if tot \<le> dc_max_bytes c then (Ok (), f)
              else (Ok (), evict_loop (dc_max_bytes c) tot (sort_key (\<lambda>(p, sz, t). t) es) f)))"

definition dc_put :: "rdir \<Rightarrow> fs \<Rightarrow> DiskCache \<Rightarrow> string \<Rightarrow> bytes \<Rightarrow> unit res \<times> fs" where
  "dc_put rd f c key d =
     (case path_for c key of
        Inl e \<Rightarrow> (Inl e, f)
      | Inr p \<Rightarrow>
          (case fs_ensure_parent f p of
             (Inl e, f1) \<Rightarrow> (Inl e, f1)
           | (Inr _, f1) \<Rightarrow>
               (case fs_replace f1 (with_extension p ''tmp'') p d of
                  (Inl e, f2) \<Rightarrow> (Inl e, f2)
                | (Inr _, f2) \<Rightarrow> (Ok (), snd (evict_if_needed rd f2 c)))))"

definition cache_key_for_path :: "string \<Rightarrow> string" where
  "cache_key_for_path manifest_path = rsplit_first slash manifest_path"

section \<open>Model: hydration\<close>

fun fetch_loop :: "'s operator \<Rightarrow> 's \<Rightarrow> string \<Rightarrow> string list \<Rightarrow> bytes res" where
  "fetch_loop opr s rp [] = Ok []"
| "fetch_loop opr s rp (h # hs) =
     (case op_read opr s (chunk_key rp h) of
        Inl e \<Rightarrow> Inl e
      | Inr d \<Rightarrow> (case fetch_loop opr s rp hs of Inl e \<Rightarrow> Inl e | Inr r \<Rightarrow> Ok (d @ r)))"

definition fetch_content :: "'s operator \<Rightarrow> 's \<Rightarrow> string \<Rightarrow> string \<Rightarrow> bytes res" where
  "fetch_content opr s manifest_path remote_prefix =
     (case op_read opr s manifest_path of
        Inl e \<Rightarrow> Inl e
      | Inr mb \<Rightarrow>
          (case from_utf8 mb of
             None \<Rightarrow> Err (EUtf8 ''manifest'')
           | Some text \<Rightarrow>
               (let hs = filter (\<lambda>l. l \<noteq> []) (str_lines text)
                in if hs = [] then Err (EEmptyManifest manifest_path)
                   else fetch_loop opr s (trim_end_matches slash remote_prefix) hs)))"

definition fetch_cached ::
  "'s operator \<Rightarrow> rdir \<Rightarrow> fs \<Rightarrow> 's \<Rightarrow> DiskCache \<Rightarrow> string \<Rightarrow> string \<Rightarrow> bytes res \<times> fs" where
  "fetch_cached opr rd f s c manifest_path remote_prefix =
     (case dc_get f c (cache_key_for_path manifest_path) of
        Inl e \<Rightarrow> (Inl e, f)
      | Inr (Some d) \<Rightarrow> (Ok d, f)
      | Inr None \<Rightarrow>
          (case fetch_content opr s manifest_path remote_prefix of
             Inl e \<Rightarrow> (Inl e, f)
           | Inr d \<Rightarrow> (Ok d, snd (dc_put rd f c (cache_key_for_path manifest_path) d))))"

section \<open>Negative cache\<close>

text \<open>
  The negative cache answers exactly for the lifetime of an entry: a path is reported absent
  only if it was recorded and not removed since, and less than the TTL ago; and evicting expired
  entries is invisible to every later query.
\<close>

theorem negative_cache_correct:
  assumes "now \<le> t"
  shows "is_negative t (evict_expired now c) p = is_negative t c p \<and>
         is_negative t (nc_insert now c q) p = (if p = q then t - now < nc_ttl c else is_negative t c p) \<and>
         is_negative t (nc_remove c q) p = (p \<noteq> q \<and> is_negative t c p) \<and>
         \<not> is_negative t (nc_new ttl) p"
  using assms
  by (auto simp: is_negative_def evict_expired_def nc_insert_def nc_remove_def nc_new_def split: option.splits)

theorem negative_cache_correct_witness:
  "is_negative 12 (nc_insert 10 (nc_new 5) ''/a'') ''/a'' \<and> \<not> is_negative 15 (nc_insert 10 (nc_new 5) ''/a'') ''/a''"
  using negative_cache_correct[of 10 12 "nc_new 5" "''/a''" "''/a''"]
    negative_cache_correct[of 10 15 "nc_new 5" "''/a''" "''/a''"]
  by (simp add: nc_new_def)

section \<open>Disk cache\<close>

lemma fs_remove_file_files:
  "files (snd (fs_remove_file f p)) q = files f q \<or> files (snd (fs_remove_file f p)) q = None"
  "fault (snd (fs_remove_file f p)) = fault f"
  by (auto simp: fs_remove_file_def)

lemma evict_loop_only_removes:
  "(files (evict_loop mx tot es f) q = files f q \<or> files (evict_loop mx tot es f) q = None) \<and>
   fault (evict_loop mx tot es f) = fault f"
proof (induction mx tot es f rule: evict_loop.induct)
  case (2 mx tot p sz t r f)
  then show ?case
    using fs_remove_file_files(1)[of f p q] fs_remove_file_files(2)[of f p] by (auto split: if_splits)
qed simp

lemma evict_only_removes:
  "files (snd (evict_if_needed rd f c)) q = files f q \<or> files (snd (evict_if_needed rd f c)) q = None"
  "fault (snd (evict_if_needed rd f c)) = fault f"
  using evict_loop_only_removes[of "dc_max_bytes c" _ _ f q]
  by (auto simp: evict_if_needed_def Let_def split: sum.splits)

lemma dc_put_ok_cases:
  assumes "dc_put rd f c key d = (Inr u, f')" and "path_for c key = Inr p"
  obtains f1 f2 where "fs_ensure_parent f p = (Inr (), f1)"
    "fs_replace f1 (with_extension p ''tmp'') p d = (Inr (), f2)" "f' = snd (evict_if_needed rd f2 c)"
  using assms by (auto simp: dc_put_def split: prod.splits sum.splits)

text \<open>
  The disk cache never serves wrong bytes. After a successful store a lookup returns exactly
  the stored content or, when eviction removed it again, nothing; every other entry keeps its
  content or is evicted.
\<close>

theorem disk_cache_get_after_put:
  assumes "dc_put rd f c key d = (Inr u, f')" and "path_for c key = Inr p"
    and "path_for c key' = Inr p'" and "p' \<noteq> p" and "p' \<noteq> with_extension p ''tmp''"
  shows "dc_get f' c key \<in> {Inr (Some d), Inr None} \<and>
         dc_get f' c key' \<in> {dc_get f c key', Inr None}"
proof -
  obtain f1 f2 where e: "fs_ensure_parent f p = (Inr (), f1)"
    and r: "fs_replace f1 (with_extension p ''tmp'') p d = (Inr (), f2)"
    and f': "f' = snd (evict_if_needed rd f2 c)"
    using dc_put_ok_cases[OF assms(1,2)] by metis
  have "files f1 = files f" "fault f1 = fault f"
    using ensure_parent_files[of f p] ensure_parent_env(1)[of f p] by (simp_all add: e)
  then have f2: "files f2 p' = files f p'" "fault f2 = fault f"
    "files f2 p = Some \<lparr>f_data = d, f_mtime = mclock f1\<rparr>"
    using fs_replace_ok[OF r] fs_replace_env[OF r] assms(4,5) by simp_all
  have "files f' q = files f2 q \<or> files f' q = None" "fault f' = fault f2" for q
    using evict_only_removes[of rd f2 c] by (simp_all add: f')
  note f'_cases = this(1)[of p] this(1)[of p'] this(2)
  show ?thesis
    using f'_cases f2 by (auto simp: dc_get_def assms(2,3) fs_read_def split: option.splits)
qed

definition cache_fs :: fs where
  "cache_fs = one_file\<lparr>dirs := (\<lambda>q. q \<in> {path_of ''/'', path_of ''/c'', path_of ''/c/ab''})\<rparr>"

definition sample_disk :: DiskCache where
  "sample_disk = \<lparr>dc_dir = path_of ''/c'', dc_max_bytes = 100\<rparr>"

theorem disk_cache_get_after_put_witness:
  "is_ok (fst (dc_put (\<lambda>_ _. Ok []) cache_fs sample_disk ''abc1'' [7])) \<and>
   dc_get (snd (dc_put (\<lambda>_ _. Ok []) cache_fs sample_disk ''abc1'' [7])) sample_disk ''abc1'' \<in> {Inr (Some [7]), Inr None}"
proof -
  let ?r = "dc_put (\<lambda>_ _. Ok []) cache_fs sample_disk ''abc1'' [7]"
  have ok: "is_ok (fst ?r)" by code_simp
  then obtain u f' where r: "?r = (Inr u, f')" by (cases ?r) (auto simp: is_ok_def split: sum.splits)
  have "path_for sample_disk ''abc1'' = Inr (path_of ''/c/ab/abc1'')"
    "path_for sample_disk ''abd2'' = Inr (path_of ''/c/ab/abd2'')"
    "path_of ''/c/ab/abd2'' \<noteq> path_of ''/c/ab/abc1''"
    "path_of ''/c/ab/abd2'' \<noteq> with_extension (path_of ''/c/ab/abc1'') ''tmp''"
    by code_simp+
  from disk_cache_get_after_put[OF r this] r show ?thesis by simp
qed

definition remove_all :: "fs \<Rightarrow> centry list \<Rightarrow> fs" where
  "remove_all f es = foldl (\<lambda>g (p, sz, t). snd (fs_remove_file g p)) f es"

text \<open>The sizes added up as numbers, without wrap-around.\<close>

abbreviation sizes_of :: "centry list \<Rightarrow> nat" where
  "sizes_of es \<equiv> sum_list (map (\<lambda>(p, sz, t). unat sz) es)"

lemma total_no_wrap:
  "sizes_of es < 2 ^ 64 \<Longrightarrow> unat (sum_list (map (\<lambda>(p, sz, t). sz) es)) = sizes_of es"
  by (induction es) (auto simp: unat_word_ariths)

lemma evict_loop_prefix:
  "unat tot = sizes_of es \<Longrightarrow>
   \<exists>k \<le> length es. evict_loop mx tot es f = remove_all f (take k es) \<and>
     (k = length es \<or> sizes_of (drop k es) \<le> unat mx) \<and> (\<forall>j < k. sizes_of (drop j es) > unat mx)"
proof (induction es arbitrary: f tot)
  case (Cons e es)
  obtain p sz t where e: "e = (p, sz, t)" by (cases e)
  have tot: "unat tot = unat sz + sizes_of es" using Cons.prems by (simp add: e)
  then have le: "sz \<le> tot" by (simp add: word_le_nat_alt)
  show ?case
  proof (cases "tot \<le> mx")
    case True
    then show ?thesis using Cons.prems by (intro exI[of _ 0]) (simp add: e remove_all_def word_le_nat_alt)
  next
    case False
    have "unat (tot - sz) = sizes_of es" using tot le by (simp add: unat_sub)
    then obtain k where k: "k \<le> length es"
      "evict_loop mx (tot - sz) es (snd (fs_remove_file f p)) = remove_all (snd (fs_remove_file f p)) (take k es)"
      "k = length es \<or> sizes_of (drop k es) \<le> unat mx" "\<forall>j < k. sizes_of (drop j es) > unat mx"
      using Cons.IH by blast
    have "\<forall>j < Suc k. sizes_of (drop j (e # es)) > unat mx"
      using False k(4) Cons.prems by (auto simp: less_Suc_eq_0_disj word_le_nat_alt)
    with False k le show ?thesis
      by (intro exI[of _ "Suc k"]) (simp add: e remove_all_def)
  qed
qed (simp add: remove_all_def)

text \<open>
  C20: eviction removes the least recently modified entries first and no more than needed. As long as
  the sizes in the cache directory add up to less than $2^{64}$ bytes (the code adds them in a
  \<^verbatim>\<open>u64\<close>), what it deletes is the shortest run of least recently modified entries whose removal brings
  the cache within its limit (all of them if even that does not); a cache within its limit is left
  alone. The order is that of modification times, not of accesses as the comments in the code say.
\<close>

theorem eviction_minimal:
  assumes "scan_cache rd f c = Inr es" and "sizes_of es < 2 ^ 64"
  shows "\<exists>k \<le> length es. let old = sort_key (\<lambda>(p, sz, t). t) es in
           evict_if_needed rd f c = (Inr (), remove_all f (take k old)) \<and>
           (k = length es \<or> sizes_of (drop k old) \<le> unat (dc_max_bytes c)) \<and>
           (\<forall>j < k. sizes_of (drop j old) > unat (dc_max_bytes c))"
proof -
  let ?old = "sort_key (\<lambda>(p, sz, t). t) es" and ?tot = "sum_list (map (\<lambda>(p, sz, t). sz) es)"
  have "sizes_of ?old = sizes_of es"
    by (metis (mono_tags, lifting) mset_map mset_sort sum_mset_sum_list)
  then have tot: "unat ?tot = sizes_of ?old" using total_no_wrap[OF assms(2)] by simp
  show ?thesis
  proof (cases "?tot \<le> dc_max_bytes c")
    case True
    then show ?thesis
      using assms(1) tot
      by (intro exI[of _ 0]) (simp add: evict_if_needed_def remove_all_def word_le_nat_alt)
  next
    case False
    with assms(1) evict_loop_prefix[OF tot, of "dc_max_bytes c" f] show ?thesis
      by (auto simp: evict_if_needed_def Let_def)
  qed
qed

text \<open>
  Past $2^{64}$ bytes the sum wraps around and a cache far beyond its limit may be left alone: two
  entries of $2^{63}$ bytes count as an empty cache.
\<close>

lemma eviction_total_wraps:
  assumes "scan_cache rd f c = Inr [(p, sz, t), (q, sz, u)]" and "sz = 2 ^ 63"
  shows "evict_if_needed rd f c = (Inr (), f)"
proof -
  have "(2 ^ 63 :: u64) + 2 ^ 63 = 0" by code_simp
  then have "sz + sz = 0" by (simp only: assms(2))
  with assms(1) show ?thesis by (simp add: evict_if_needed_def)
qed

definition two_entries_fs :: fs where
  "two_entries_fs = cache_fs\<lparr>files := (\<lambda>q. if q = path_of ''/c/ab/abc1'' then Some \<lparr>f_data = replicate 80 0, f_mtime = Some 9\<rparr>
     else if q = path_of ''/c/ab/abd2'' then Some \<lparr>f_data = replicate 40 0, f_mtime = Some 5\<rparr> else None)\<rparr>"

definition two_entries_rd :: rdir where
  "two_entries_rd f p = (if p = path_of ''/c'' then Ok [path_of ''/c/ab'']
     else if p = path_of ''/c/ab'' then Ok [path_of ''/c/ab/abc1'', path_of ''/c/ab/abd2''] else Ok [])"

theorem eviction_minimal_witness:
  "\<exists>k. let old = [(path_of ''/c/ab/abd2'', 40, 5), (path_of ''/c/ab/abc1'', 80, 9)] in
     evict_if_needed two_entries_rd two_entries_fs sample_disk = (Inr (), remove_all two_entries_fs (take k old)) \<and>
     (k = 2 \<or> sizes_of (drop k old) \<le> 100) \<and> (\<forall>j < k. sizes_of (drop j old) > 100)"
proof -
  let ?es = "[(path_of ''/c/ab/abc1'', 80, 9), (path_of ''/c/ab/abd2'', 40, 5)] :: centry list"
  have m: "fs_metadata two_entries_fs (path_of ''/c/ab'') = Inr (0, None)" "fs_is_dir two_entries_fs (path_of ''/c/ab'')"
    "scan_entry two_entries_fs (path_of ''/c/ab/abc1'') = Inr [(path_of ''/c/ab/abc1'', 80, 9)]"
    "scan_entry two_entries_fs (path_of ''/c/ab/abd2'') = Inr [(path_of ''/c/ab/abd2'', 40, 5)]"
    "two_entries_rd two_entries_fs (path_of ''/c'') = Inr [path_of ''/c/ab'']"
    "two_entries_rd two_entries_fs (path_of ''/c/ab'') = Inr [path_of ''/c/ab/abc1'', path_of ''/c/ab/abd2'']"
    by code_simp+
  have scan: "scan_cache two_entries_rd two_entries_fs sample_disk = Inr ?es"
    by (simp add: scan_cache_def scan_shard_def sample_disk_def m)
  have mx: "unat (dc_max_bytes sample_disk) = 100" by (simp add: sample_disk_def)
  have sorted: "sort_key (\<lambda>(p, sz, t). t) ?es = [(path_of ''/c/ab/abd2'', 40, 5), (path_of ''/c/ab/abc1'', 80, 9)]"
    by simp
  obtain k where "let old = sort_key (\<lambda>(p, sz, t). t) ?es in
      evict_if_needed two_entries_rd two_entries_fs sample_disk = (Inr (), remove_all two_entries_fs (take k old)) \<and>
      (k = length ?es \<or> sizes_of (drop k old) \<le> unat (dc_max_bytes sample_disk)) \<and>
      (\<forall>j < k. sizes_of (drop j old) > unat (dc_max_bytes sample_disk))"
    using eviction_minimal[OF scan] by (auto simp: unat_numeral)
  moreover have "length ?es = 2" by simp
  ultimately show ?thesis
    unfolding Let_def sorted mx by metis
qed

section \<open>Hydration\<close>

text \<open>The cache holds nothing for the manifest, or what fetching it returns.\<close>

definition coherent :: "'s operator \<Rightarrow> 's \<Rightarrow> fs \<Rightarrow> DiskCache \<Rightarrow> string \<Rightarrow> string \<Rightarrow> bool" where
  "coherent opr s f c mp rp \<longleftrightarrow>
     (case dc_get f c (cache_key_for_path mp) of
        Inl _ \<Rightarrow> False
      | Inr None \<Rightarrow> True
      | Inr (Some d) \<Rightarrow> fetch_content opr s mp rp = Inr d)"

lemma dc_put_err_keeps:
  assumes "dc_put rd f c key d = (Inl e, f')" and "path_for c key = Inr p"
    and "file_name p \<noteq> None" and "extension p \<noteq> Some ''tmp''"
  shows "files f' p = files f p \<and> fault f' = fault f"
proof -
  have "p \<noteq> with_extension p ''tmp''"
    using with_extension_neq[of "''tmp''" p] assms(3,4) by auto
  then show ?thesis
    using assms(1,2) ensure_parent_files[of f p] ensure_parent_env(1)[of f p]
    by (auto simp: dc_put_def split: prod.splits sum.splits dest: fs_replace_err fs_replace_env)
qed

lemma dc_put_get:
  assumes "dc_put rd f c key d = (r, f')" and "path_for c key = Inr p"
    and "file_name p \<noteq> None" and "extension p \<noteq> Some ''tmp''"
  shows "dc_get f' c key \<in> {Inr (Some d), Inr None, dc_get f c key}"
proof (cases r)
  case (Inl e)
  then show ?thesis
    using dc_put_err_keeps[OF _ assms(2-4)] assms(1) by (simp add: dc_get_def fs_read_def assms(2))
next
  case (Inr u)
  obtain f1 f2 where r: "fs_replace f1 (with_extension p ''tmp'') p d = (Inr (), f2)"
    and f': "f' = snd (evict_if_needed rd f2 c)"
    using dc_put_ok_cases[of rd f c key d u f' p] assms(1,2) Inr by metis
  then show ?thesis
    using evict_only_removes(1)[of rd f2 c p] fs_replace_ok[OF r]
    by (auto simp: dc_get_def assms(2) fs_read_def f' split: option.splits)
qed


definition v1_store :: "string \<Rightarrow> bytes option" where
  "v1_store = (\<lambda>_. None)(''p/manifests/ab'' := Some (bytes_of_str (v1_text [''aa'', ''bb''])),
     ''p/chunks/aa'' := Some [1], ''p/chunks/bb'' := Some [2])"


text \<open>
  \<^verbatim>\<open>serde_json::to_vec_pretty\<close> prints a struct over several lines, the first of which is the
  opening brace alone.
\<close>

definition pretty_laws :: "manifest_codec \<Rightarrow> bool" where
  "pretty_laws M \<longleftrightarrow> (\<forall>m s. mf_to_json M m = Some s \<longrightarrow> (\<exists>r. s = CHR 0x7B # nl # r))"

lemma not_hex_brace: "\<not> hex_digit (CHR 0x7B)"
  by (simp add: hex_digit_def)

text \<open>
  C22: the FUSE driver cannot open files the sync engine uploads. Hydration reads every manifest
  as the v1 text format, so a manifest written by this version (multi-line JSON) makes it look for
  a chunk named by the opening brace, which no content-addressed store holds: hydration of such a
  manifest always fails.
\<close>

theorem hydration_rejects_json_manifests:
  assumes "engine_laws E" and "pretty_laws (l_mf E)" and "cas_ok E (trim_end_matches slash rp) s"
    and "op_read (l_op E) s mp = Inr mb" and "to_bytes (l_mf E) m = Inr mb"
  shows "\<exists>e. fetch_content (l_op E) s mp rp = Inl e"
proof -
  note L = engine_lawsD[OF assms(1)]
  let ?p = "trim_end_matches slash rp"
  obtain js where js: "mf_to_json (l_mf E) m = Some js" and mb: "mb = bytes_of_str js"
    using assms(5) by (auto simp: to_bytes_def split: option.splits)
  then obtain r where r: "js = CHR 0x7B # nl # r" using assms(2) by (auto simp: pretty_laws_def)
  have utf8: "from_utf8 mb = Some js" using L(4) js mb by (simp add: manifest_codec_laws_def)
  have "str_lines ([CHR 0x7B] @ nl # r) = [CHR 0x7B] # str_lines r"
    by (rule str_lines_plain) (simp add: plain_line_def)
  then have lines: "str_lines js = [CHR 0x7B] # str_lines r" by (simp add: r)
  have "op_read (l_op E) s (chunk_key ?p [CHR 0x7B]) \<noteq> Inr d" for d
  proof
    assume "op_read (l_op E) s (chunk_key ?p [CHR 0x7B]) = Inr d"
    then have "hex_of E d = [CHR 0x7B]" using cas_readD[OF assms(3)] by blast
    moreover have "list_all hex_digit (hex_of E d)"
      using hasher_hex_digits[OF L(2)] by (simp add: hex_of_def hash_to_hex_def hash_bytes_def)
    ultimately show False using not_hex_brace by simp
  qed
  then obtain e where "op_read (l_op E) s (chunk_key ?p [CHR 0x7B]) = Inl e"
    by (cases "op_read (l_op E) s (chunk_key ?p [CHR 0x7B])") auto
  with assms(4) utf8 lines show ?thesis
    by (simp add: fetch_content_def Let_def)
qed

definition pretty_codec :: "SyncManifest \<Rightarrow> manifest_codec" where
  "pretty_codec m0 =
     \<lparr>mf_to_json = (\<lambda>m. if m = m0 then Some [CHR 0x7B, nl, CHR 0x7D] else None),
      mf_from_json = (\<lambda>s. if s = [CHR 0x7B, nl, CHR 0x7D] then Some m0 else None)\<rparr>"

lemma pretty_codec_laws: "manifest_codec_laws (pretty_codec m0)" "pretty_laws (pretty_codec m0)"
  using not_hex_brace
  by (auto simp: manifest_codec_laws_def pretty_laws_def pretty_codec_def ascii_str_def split: if_splits)

definition pretty_libs :: "(string \<Rightarrow> bytes option) libs" where
  "pretty_libs = \<lparr>l_op = mem_operator, l_hash = toy_hasher, l_cdc = whole_cdc, l_mf = pretty_codec sample_manifest,
     l_crypto = False, l_aead = toy_aead, l_b64 = toy_base64\<rparr>"

theorem hydration_rejects_json_manifests_witness:
  "\<exists>e. fetch_content mem_operator ((\<lambda>_. None)(''p/manifests/ab'' := Some (bytes_of_str [CHR 0x7B, nl, CHR 0x7D])))
         ''p/manifests/ab'' ''p'' = Inl e"
proof -
  let ?s = "(\<lambda>_. None)(''p/manifests/ab'' := Some (bytes_of_str [CHR 0x7B, nl, CHR 0x7D]))"
  have "engine_laws pretty_libs"
    by (simp add: engine_laws_def pretty_libs_def mem_operator_laws toy_hasher_laws whole_cdc_laws
        pretty_codec_laws toy_aead_laws toy_base64_laws)
  moreover have "trim_end_matches slash ''p'' = ''p''" by code_simp
  moreover have "cas_ok pretty_libs ''p'' ?s"
    by (simp add: cas_in_def pretty_libs_def mem_operator_def chunk_key_def)
  ultimately show ?thesis
    using hydration_rejects_json_manifests[of pretty_libs "''p''" ?s "''p/manifests/ab''"
        "bytes_of_str [CHR 0x7B, nl, CHR 0x7D]" sample_manifest] pretty_codec_laws(2)
    by (simp add: pretty_libs_def mem_operator_def to_bytes_def pretty_codec_def)
qed

end
