(* ===== verification/Engine_Roundtrip.thy ===== *)
theory Engine_Roundtrip
  imports Engine_Props
begin

text \<open>
  Downloads: verification before the local file is touched, the round trip through the remote
  store (plain and encrypted), and the two kinds of manifest that can never be downloaded.
\<close>

section \<open>Downloads are all or nothing\<close>

lemma fetch_chunks_verified:
  "fetch_chunks E key s p i hs = Inr d \<Longrightarrow> h \<in> set hs \<Longrightarrow>
   \<exists>b. op_read (l_op E) s (chunk_key p h) = Inr b \<and> hex_of E b = h"
  by (induction E key s p i hs arbitrary: d rule: fetch_chunks.induct)
    (auto split: sum.splits if_splits option.splits)

lemma fetch_verified_Ok:
  assumes "fetch_verified E s remote p enc = Inr (m, d)"
  obtains mb key where "op_read (l_op E) s remote = Inr mb" "from_bytes (l_mf E) mb = Inr m"
    "chunks m \<noteq> []" "download_key E enc remote m = Inr key"
    "fetch_chunks E key s p 0 (chunks m) = Inr d" "hex_of E d = file_hash m"
  using assms by (auto simp: fetch_verified_def chunk_hashes_def split: sum.splits if_splits)

definition tmp_of :: "path \<Rightarrow> path" where
  "tmp_of p = with_extension p ''tcfs_tmp''"

lemma download_cases:
  assumes "download_file_with_device E f s remote lp p dev st enc = (r, f', st')"
  obtains (rejected) e where "r = Inl e" "f' = f" "st' = st"
  | (io) e m d where "fetch_verified E s remote p enc = Inr (m, d)" "r = Inl e" "st' = st"
      "f' = snd (fs_ensure_parent f lp) \<or> (\<exists>f1. f1 = snd (fs_ensure_parent f lp) \<and>
         fs_replace f1 (tmp_of lp) lp d = (Inl e, f'))"
  | (written) m d f1 where "fetch_verified E s remote p enc = Inr (m, d)"
      "f1 = snd (fs_ensure_parent f lp)" "fs_replace f1 (tmp_of lp) lp d = (Inr (), f')"
  using assms
  by (auto simp: download_file_with_device_def tmp_of_def Let_def
      split: sum.splits prod.splits option.splits if_splits)

text \<open>
  C2: a download never leaves a partial or unverified file. Whatever step fails, the target is
  either exactly as before or holds the complete content whose hash the manifest states, every
  chunk of which matched its own hash; success means the latter; and apart from the scratch file
  beside the target no other file changes.
\<close>

theorem download_all_or_nothing:
  assumes "download_file_with_device E f s remote lp p dev st enc = (r, f', st')"
    and "file_name lp \<noteq> None" and "extension lp \<noteq> Some ''tcfs_tmp''"
  shows "(files f' lp = files f lp \<and> \<not> is_ok r \<or>
          (\<exists>m d. fetch_verified E s remote p enc = Inr (m, d) \<and> hex_of E d = file_hash m \<and>
                 (\<forall>h \<in> set (chunks m). \<exists>b. op_read (l_op E) s (chunk_key p h) = Inr b \<and> hex_of E b = h) \<and>
                 files f' lp = Some \<lparr>f_data = d, f_mtime = mclock f\<rparr>)) \<and>
         (\<forall>q. q \<noteq> lp \<and> q \<noteq> tmp_of lp \<longrightarrow> files f' q = files f q)"
proof -
  have neq: "lp \<noteq> tmp_of lp"
    using with_extension_neq[of "''tcfs_tmp''" lp] assms(2,3) by (auto simp: tmp_of_def)
  have clk: "mclock (snd (fs_ensure_parent f lp)) = mclock f"
    and fl: "files (snd (fs_ensure_parent f lp)) = files f"
    by (simp_all add: io_simps)
  from assms(1) show ?thesis
  proof (cases rule: download_cases)
    case (io e m d)
    then have "q \<noteq> tmp_of lp \<Longrightarrow> files f' q = files f q" for q
      using fl fs_replace_err by metis
    with io(2) neq show ?thesis by simp
  next
    case (written m d f1)
    from written(1) have "hex_of E d = file_hash m"
      "\<forall>h \<in> set (chunks m). \<exists>b. op_read (l_op E) s (chunk_key p h) = Inr b \<and> hex_of E b = h"
      by (auto elim!: fetch_verified_Ok dest: fetch_chunks_verified)
    with written fs_replace_ok[OF written(3)] clk fl show ?thesis by auto
  qed simp
qed

section \<open>The round trip\<close>

lemma fetch_chunks_cong:
  "(\<And>h. op_read (l_op E) s' (chunk_key p h) = op_read (l_op E) s (chunk_key p h)) \<Longrightarrow>
   fetch_chunks E key s' p i hs = fetch_chunks E key s p i hs"
  by (induction hs arbitrary: i) (simp_all split: sum.split option.split)

definition good_rnd :: "rnd \<Rightarrow> bool" where
  "good_rnd rn \<longleftrightarrow> length (r_file_key rn) = KEY_SIZE \<and> length (r_wrap_nonce rn) = NONCE_SIZE \<and>
     (\<forall>i. length (r_nonce rn i) = NONCE_SIZE)"

lemma upload_write_OkE:
  assumes "upload_write E rn f s c lp p dev rel enc cs data h vc out = (Inr r, s', c')"
  obtains key hs s1 wk m mb where "upload_key E rn enc h = Inr key"
    "upload_chunks E key (r_nonce rn) data p s 0 cs = (Inr hs, s1)"
    "wrapped_key E rn enc key = Inr wk" "to_bytes (l_mf E) m = Inr mb"
    "file_hash m = h" "chunks m = hs" "encrypted_file_key m = wk"
    "op_write (l_op E) s1 (manifest_key p h) mb = (Inr (), s')"
    "ur_remote_path r = manifest_key p h"
  using assms
  by (auto simp: upload_write_def Let_def split: sum.splits prod.splits)

text \<open>The key a manifest carries unwraps to the key its chunks were encrypted with.\<close>

lemma download_key_of_upload:
  assumes "aead_laws (l_aead E)" and "base64_laws (l_b64 E)" and "good_rnd rn"
    and "upload_key E rn enc (file_hash m) = Inr key" and "wrapped_key E rn enc key = Inr (encrypted_file_key m)"
  shows "download_key E enc remote m = Inr key"
proof (cases "l_crypto E \<and> enc \<noteq> None")
  case False
  then have "key = None" using assms(4) by (auto simp: upload_key_def)
  with False assms(5) show ?thesis
    by (cases enc) (auto simp: download_key_def wrapped_key_def)
next
  case True
  then obtain ctx fid where enc: "enc = Some ctx" and fid: "hash_from_hex (l_hash E) (file_hash m) = Inr fid"
    and key: "key = Some (generate_file_key (r_file_key rn), fid)"
    using assms(4) by (auto simp: upload_key_def split: sum.splits)
  obtain w where w: "wrap_key (l_aead E) (r_wrap_nonce rn) (master_key ctx) (generate_file_key (r_file_key rn)) = Inr w"
    and efk: "encrypted_file_key m = Some (b64_enc (l_b64 E) w)"
    using assms(5) by (auto simp: wrapped_key_def enc key split: sum.splits)
  have "unwrap_key (l_aead E) (master_key ctx) w = Inr (generate_file_key (r_file_key rn))"
    using unwrap_wrap_key(1)[OF assms(1) _ _ w] assms(3) by (simp add: good_rnd_def generate_file_key_def)
  with True enc fid key efk assms(2) show ?thesis
    by (simp add: download_key_def base64_laws_def)
qed

text \<open>The stored contents under consideration: what the store holds and what the upload adds.\<close>

definition upload_blobs_in ::
  "'s libs \<Rightarrow> rnd \<Rightarrow> fs \<Rightarrow> path \<Rightarrow> EncryptionContext option \<Rightarrow> bytes set \<Rightarrow> bool" where
  "upload_blobs_in E rn f lp enc U \<longleftrightarrow>
     (\<forall>cs data key. chunk_file (l_hash E) (l_cdc E) f lp = Inr (cs, data) \<longrightarrow>
        upload_key E rn enc (hex_of E data) = Inr key \<longrightarrow> blobs_in E key (r_nonce rn) data U 0 cs)"

lemma upload_write_fetch:
  assumes "engine_laws E" and "good_rnd rn" and "cas_in E p U s" and "inj_on (hex_of E) U"
    and "upload_blobs_in E rn f lp enc U"
    and "chunk_file (l_hash E) (l_cdc E) f lp = Inr (cs, data)" and "data \<noteq> []"
    and "upload_write E rn f s c lp p dev rel enc cs data (hex_of E data) vc out = (Inr r, s', c')"
  shows "\<exists>m. fetch_verified E s' (ur_remote_path r) p enc = Inr (m, data)"
proof -
  note L = engine_lawsD[OF assms(1)]
  note C = chunk_file_ok[OF L(3) assms(6)]
  obtain key hs s1 wk m mb where key: "upload_key E rn enc (hex_of E data) = Inr key"
    and up: "upload_chunks E key (r_nonce rn) data p s 0 cs = (Inr hs, s1)"
    and wk: "wrapped_key E rn enc key = Inr wk" and mb: "to_bytes (l_mf E) m = Inr mb"
    and m: "file_hash m = hex_of E data" "chunks m = hs" "encrypted_file_key m = wk"
    and w: "op_write (l_op E) s1 (manifest_key p (hex_of E data)) mb = (Inr (), s')"
    and r: "ur_remote_path r = manifest_key p (hex_of E data)"
    using upload_write_OkE[OF assms(8)] by metis
  have "blobs_in E key (r_nonce rn) data U 0 cs"
    using assms(5,6) key by (auto simp: upload_blobs_in_def)
  then have fetch: "fetch_chunks E key s1 p 0 hs = Inr data" and len: "length hs = length cs"
    using upload_then_fetch[OF L(1) assms(4) L(5) _ up assms(3) C(2)] assms(2) C(3)
    by (simp_all add: good_rnd_def)
  have "fetch_chunks E key s' p 0 hs = Inr data"
    using fetch store_write_frame[OF L(1) w] by (subst fetch_chunks_cong) simp_all
  moreover have "hs \<noteq> []" using len C(4) assms(7) by auto
  moreover have "download_key E enc (manifest_key p (hex_of E data)) m = Inr key"
    by (rule download_key_of_upload[OF L(5,6) assms(2)]) (simp_all add: m key wk)
  ultimately show ?thesis
    using store_write_read[OF L(1) w] to_bytes_from_bytes[OF L(4) mb] m r
    by (simp add: fetch_verified_def chunk_hashes_def)
qed

text \<open>A target a file can be written to.\<close>

definition writable :: "fs \<Rightarrow> path \<Rightarrow> bool" where
  "writable g q \<longleftrightarrow> fst (fs_ensure_parent g q) = Inr () \<and> path_parent q \<noteq> None \<and>
     \<not> dirs g q \<and> \<not> dirs g (tmp_of q) \<and> \<not> fault g OpWrite (tmp_of q) \<and> \<not> fault g OpRename (tmp_of q)"

lemma writable_replace:
  assumes "writable g q"
  shows "fst (fs_replace (snd (fs_ensure_parent g q)) (tmp_of q) q d) = Inr ()"
proof -
  obtain par where par: "path_parent q = Some par" using assms by (auto simp: writable_def)
  then have tmp: "path_parent (tmp_of q) = Some par"
    by (simp add: tmp_of_def path_parent_with_extension)
  show ?thesis
  proof (rule fs_replace_succeeds[OF par tmp])
    show "dirs (snd (fs_ensure_parent g q)) par"
      using assms par by (auto simp: writable_def intro: ensure_parent_dir)
    show "\<not> dirs (snd (fs_ensure_parent g q)) q" "\<not> dirs (snd (fs_ensure_parent g q)) (tmp_of q)"
      using assms par tmp ensure_parent_keeps_dir[of q q g] ensure_parent_keeps_dir[of "tmp_of q" q g]
      by (simp_all add: writable_def)
  qed (use assms in \<open>simp_all add: writable_def io_simps\<close>)
qed

lemma download_writes_state:
  assumes "fetch_verified E s remote p enc = Inr (m, d)" and "writable g q" and "\<not> fault g OpStat q"
  shows "\<exists>dr g' st'. download_file_with_device E g s remote q p dev st enc = (Inr dr, g', st') \<and>
           map_option f_data (files g' q) = Some d \<and> (st = None \<longrightarrow> st' = None)"
proof -
  let ?r = "fs_replace (snd (fs_ensure_parent g q)) (tmp_of q) q d"
  obtain g' where g': "?r = (Inr (), g')"
    using writable_replace[OF assms(2), of d] by (cases ?r) auto
  have "fs_ensure_parent g q = (Inr (), snd (fs_ensure_parent g q))"
    using assms(2) by (simp add: writable_def prod_eq_iff)
  moreover have "record_sync g' c q h n r v dv \<noteq> (Inl e, c')" for c h n r v dv e c'
    using fs_replace_ok[OF g'] fs_replace_env[OF g'] assms(3)
    by (simp add: record_sync_def make_sync_state_full_def fs_metadata_def io_simps)
  ultimately show ?thesis
    using assms(1) g' fs_replace_ok[OF g']
    by (auto simp: download_file_with_device_def tmp_of_def Let_def
        split: prod.splits option.splits sum.splits)
qed

lemma download_writes:
  assumes "fetch_verified E s remote p enc = Inr (m, d)" and "writable g q"
  shows "\<exists>dr g'. download_file_with_device E g s remote q p [] None enc = (Inr dr, g', None) \<and>
           map_option f_data (files g' q) = Some d"
proof -
  let ?r = "fs_replace (snd (fs_ensure_parent g q)) (tmp_of q) q d"
  obtain g' where g': "?r = (Inr (), g')"
    using writable_replace[OF assms(2), of d] by (cases ?r) auto
  have "fs_ensure_parent g q = (Inr (), snd (fs_ensure_parent g q))"
    using assms(2) by (simp add: writable_def prod_eq_iff)
  with assms(1) g' fs_replace_ok[OF g'] show ?thesis
    by (auto simp: download_file_with_device_def tmp_of_def Let_def split: prod.splits)
qed

text \<open>Uploading new content stores it under the key of its hash, where it can be fetched.\<close>

lemma upload_new_fetch:
  assumes "engine_laws E" and "good_rnd rn" and "cas_in E p U s" and "inj_on (hex_of E) U"
    and "upload_blobs_in E rn f lp enc U"
    and "sc_needs_sync (l_hash E) f c lp = Inr (Some why)"
    and "fs_read f lp = Inr data" and "data \<noteq> []"
    and "op_exists (l_op E) s (manifest_key p (hex_of E data)) = Inr False"
    and "upload_file_with_device E rn f s c lp p dev rel enc = (Inr r, s', c')"
  shows "(\<exists>m. fetch_verified E s' (ur_remote_path r) p enc = Inr (m, data)) \<and>
         ur_hash r = hex_of E data \<and> ur_remote_path r = manifest_key p (hex_of E data) \<and> \<not> ur_skipped r"
proof -
  obtain cs where cf: "chunk_file (l_hash E) (l_cdc E) f lp = Inr (cs, data)"
    using chunk_data_ok[OF engine_lawsD(3)[OF assms(1)], of "for_path lp" "l_hash E" data] assms(7)
    by (auto simp: chunk_file_def)
  have "remote_check E now s (manifest_key p (hex_of E data)) vc h rel dev = None" for now vc h
    by (simp add: remote_check_def assms(9))
  then obtain vc where w: "upload_write E rn f s c lp p dev rel enc cs data (hex_of E data) vc None = (Inr r, s', c')"
    using assms(6,9,10) by (auto simp: upload_file_with_device_def cf Let_def exists_or_false_def)
  then have "ur_hash r = hex_of E data \<and> ur_remote_path r = manifest_key p (hex_of E data) \<and> \<not> ur_skipped r"
    by (auto simp: upload_write_def Let_def split: sum.splits prod.splits)
  with upload_write_fetch[OF assms(1-5) cf assms(8) w] show ?thesis by metis
qed

text \<open>
  C1: the round trip. A non-empty file uploaded as new content (plain or encrypted) downloads to
  any writable place, with the same encryption context, as exactly the bytes that were uploaded,
  provided the contents stored under the prefix and those uploaded have no hash collision.
\<close>

theorem upload_download_round_trip:
  assumes "engine_laws E" and "good_rnd rn" and "cas_in E p U s" and "inj_on (hex_of E) U"
    and "upload_blobs_in E rn f lp enc U"
    and "sc_needs_sync (l_hash E) f c lp = Inr (Some why)"
    and "fs_read f lp = Inr data" and "data \<noteq> []"
    and "op_exists (l_op E) s (manifest_key p (hex_of E data)) = Inr False"
    and "upload_file_with_device E rn f s c lp p dev rel enc = (Inr r, s', c')"
    and "writable g q"
  shows "\<exists>dr g'. download_file_with_device E g s' (ur_remote_path r) q p [] None enc = (Inr dr, g', None) \<and>
           map_option f_data (files g' q) = Some data"
proof -
  obtain m where "fetch_verified E s' (ur_remote_path r) p enc = Inr (m, data)"
    using upload_new_fetch[OF assms(1-10)] by metis
  then show ?thesis by (rule download_writes[OF _ assms(11)])
qed

section \<open>Manifests that cannot be downloaded\<close>

text \<open>
  C23: an empty file cannot be restored. Its upload succeeds and stores a manifest with no chunks,
  and every later download of that manifest is refused as empty.
\<close>

theorem empty_file_not_downloadable:
  assumes "engine_laws E" and "fs_read f lp = Inr []"
    and "sc_needs_sync (l_hash E) f c lp = Inr (Some why)"
    and "op_exists (l_op E) s (manifest_key p (hex_of E [])) = Inr False"
    and "upload_file_with_device E rn f s c lp p dev rel enc = (Inr r, s', c')"
  shows "\<not> ur_skipped r \<and>
         fetch_verified E s' (ur_remote_path r) p enc' = Inl (EEmptyManifest (ur_remote_path r))"
proof -
  note L = engine_lawsD[OF assms(1)]
  have cf: "chunk_file (l_hash E) (l_cdc E) f lp = Inr ([], [])"
    by (simp add: chunk_file_def assms(2) chunk_data_def)
  have "remote_check E now s (manifest_key p (hex_of E [])) vc h rel dev = None" for now vc h
    by (simp add: remote_check_def assms(4))
  then obtain vc where w: "upload_write E rn f s c lp p dev rel enc [] [] (hex_of E []) vc None = (Inr r, s', c')"
    using assms(3,4,5) by (auto simp: upload_file_with_device_def cf Let_def exists_or_false_def)
  then have skip: "\<not> ur_skipped r"
    by (auto simp: upload_write_def Let_def split: sum.splits prod.splits)
  from w obtain key hs s1 m mb where "upload_chunks E key (r_nonce rn) [] p s 0 [] = (Inr hs, s1)"
    and mb: "to_bytes (l_mf E) m = Inr mb" and "chunks m = hs"
    and wr: "op_write (l_op E) s1 (manifest_key p (hex_of E [])) mb = (Inr (), s')"
    and rp: "ur_remote_path r = manifest_key p (hex_of E [])"
    using upload_write_OkE[OF w] by metis
  then have "chunks m = []" by simp
  with skip store_write_read[OF L(1) wr] to_bytes_from_bytes[OF L(4) mb] rp show ?thesis
    by (simp add: fetch_verified_def chunk_hashes_def)
qed

text \<open>
  A legacy (v1) manifest parses, but its file hash is empty and no content hashes to the
  empty string, so no download of one ever succeeds.
\<close>

theorem v1_manifest_not_downloadable:
  assumes "hasher_laws (l_hash E)" and "op_read (l_op E) s remote = Inr mb"
    and "from_bytes (l_mf E) mb = Inr (v1_manifest cs)"
  shows "\<exists>e. fetch_verified E s remote p enc = Inl e"
proof -
  have "length (hex_of E d) = 64" for d
    using hasher_hex_length[OF assms(1)] by (simp add: hex_of_def hash_to_hex_def hash_bytes_def)
  then have "hex_of E d \<noteq> []" for d
    by (metis list.size(3) zero_neq_numeral)
  then show ?thesis
    using assms(2,3) by (auto simp: fetch_verified_def v1_manifest_def split: sum.splits)
qed

section \<open>A concrete run\<close>

text \<open>
  One device uploads \<^verbatim>\<open>/a\<close> (two bytes), encrypted under the zero master key, to an empty in-memory
  store; the codec knows the manifest this upload writes.
\<close>

definition demo_rnd :: rnd where
  "demo_rnd = \<lparr>r_file_key = replicate 32 5, r_nonce = (\<lambda>_. zero_nonce), r_wrap_nonce = zero_nonce\<rparr>"

definition demo_enc :: "EncryptionContext option" where
  "demo_enc = Some \<lparr>master_key = zero_master\<rparr>"

definition demo_hex :: "bytes \<Rightarrow> string" where
  "demo_hex d = h_to_hex toy_hasher (h_hash toy_hasher d)"

definition demo_blob :: bytes where
  "demo_blob = zero_nonce @ [1, 2] @ toy_tag (build_aad 0 (h_hash toy_hasher [1, 2]))"

definition demo_manifest :: SyncManifest where
  "demo_manifest = \<lparr>version = 2, file_hash = demo_hex [1, 2], file_size = 2, chunks = [demo_hex demo_blob],
     m_vclock = tick vc_new ''d1'', written_by = ''d1'', written_at = 9, rel_path = Some ''a'',
     encrypted_file_key = Some (hex_encode (zero_nonce @ replicate 32 5 @ toy_tag []))\<rparr>"

definition demo_libs :: "SyncManifest \<Rightarrow> (string \<Rightarrow> bytes option) libs" where
  "demo_libs m = \<lparr>l_op = mem_operator, l_hash = toy_hasher, l_cdc = whole_cdc, l_mf = one_manifest_codec m,
     l_crypto = True, l_aead = toy_aead, l_b64 = toy_base64\<rparr>"

lemma demo_libs_simps [simp]:
  "l_op (demo_libs m) = mem_operator" "l_hash (demo_libs m) = toy_hasher" "l_cdc (demo_libs m) = whole_cdc"
  "l_mf (demo_libs m) = one_manifest_codec m" "l_crypto (demo_libs m)" "l_aead (demo_libs m) = toy_aead"
  "l_b64 (demo_libs m) = toy_base64" "r_nonce demo_rnd i = zero_nonce"
  by (simp_all add: demo_libs_def demo_rnd_def)

abbreviation empty_store :: "string \<Rightarrow> bytes option" where
  "empty_store \<equiv> \<lambda>_. None"

lemma demo_laws: "engine_laws (demo_libs m)"
  by (simp add: engine_laws_def demo_libs_def mem_operator_laws toy_hasher_laws whole_cdc_laws
      one_manifest_codec_laws toy_aead_laws toy_base64_laws)

lemma demo_rnd_good: "good_rnd demo_rnd"
  by (simp add: good_rnd_def demo_rnd_def zero_nonce_def crypto_sizes)

lemma empty_store_ok: "cas_in (demo_libs m) p U empty_store" "store_ok (demo_libs m) p empty_store"
  by (simp_all add: store_ok_def cas_in_def manifests_ok_def mem_operator_def)

definition demo_upload ::
  "SyncManifest \<Rightarrow> fs \<Rightarrow> UploadResult res \<times> (string \<Rightarrow> bytes option) \<times> StateCache" where
  "demo_upload m f = upload_file_with_device (demo_libs m) demo_rnd f empty_store sample_cache (path_of ''/a'')
     ''p'' ''d1'' (Some ''a'') demo_enc"

definition demo_chunk :: Chunk where
  "demo_chunk = \<lparr>ch_offset = 0, ch_length = 2, ch_hash = h_hash toy_hasher [1, 2]\<rparr>"

lemma demo_chunk_file:
  "chunk_file toy_hasher whole_cdc one_file (path_of ''/a'') = Inr ([demo_chunk], [1, 2])"
  by code_simp

lemma demo_upload_key:
  "upload_key (demo_libs m) demo_rnd demo_enc (demo_hex d) =
     Inr (Some (generate_file_key (replicate 32 5), h_hash toy_hasher d))"
  using toy_hasher_laws
  by (simp add: upload_key_def demo_libs_def demo_enc_def demo_rnd_def demo_hex_def hash_from_hex_def
      hasher_laws_def)

lemma demo_hex_of [simp]: "hex_of (demo_libs m) d = demo_hex d"
  by (simp add: hex_of_def demo_hex_def hash_to_hex_def hash_bytes_def)

lemma demo_upload_blob:
  "upload_blob (demo_libs m) (Some (generate_file_key (replicate 32 5), h_hash toy_hasher [1, 2])) (r_nonce demo_rnd)
     [1, 2] 0 demo_chunk = Inr (demo_blob, demo_hex demo_blob)"
  by (simp add: upload_blob_def demo_chunk_def toy_encrypt_chunk demo_blob_def)

lemma demo_blobs_in: "upload_blobs_in (demo_libs m) demo_rnd one_file (path_of ''/a'') demo_enc {demo_blob}"
  by (auto simp: upload_blobs_in_def demo_upload_key demo_chunk_file blobs_in_def demo_upload_blob
      simp del: demo_libs_simps(8))

lemma demo_upload_eq:
  assumes "chunk_file toy_hasher whole_cdc f (path_of ''/a'') = Inr (cs, data)"
    and "sc_needs_sync toy_hasher f sample_cache (path_of ''/a'') = Inr (Some NewFile)"
  shows "demo_upload m f = upload_write (demo_libs m) demo_rnd f empty_store sample_cache (path_of ''/a'') ''p''
           ''d1'' (Some ''a'') demo_enc cs data (demo_hex data) vc_new None"
proof -
  have "sc_get f sample_cache (path_of ''/a'') = None"
    by (simp add: sc_get_def sample_cache_def)
  then show ?thesis
    using assms
    by (simp add: demo_upload_def upload_file_with_device_def Let_def remote_check_def mem_operator_def)
qed

lemma demo_wrapped_key:
  "wrapped_key (demo_libs m) demo_rnd demo_enc (Some (generate_file_key (replicate 32 5), fid)) =
     Inr (encrypted_file_key demo_manifest)"
  by (simp add: wrapped_key_def demo_enc_def demo_rnd_def toy_wrap_key toy_base64_def demo_manifest_def
      generate_file_key_def)

lemma demo_record: "is_ok (fst (record_sync one_file sample_cache (path_of ''/a'') h n r v d))"
proof -
  have "fs_metadata one_file (path_of ''/a'') = Inr (2, Some 5)" by code_simp
  then show ?thesis by (simp add: record_sync_def make_sync_state_full_def)
qed

lemma demo_upload_ok: "is_ok (fst (demo_upload demo_manifest one_file))"
proof -
  have ns: "sc_needs_sync toy_hasher one_file sample_cache (path_of ''/a'') = Inr (Some NewFile)"
    by code_simp
  have "to_bytes (l_mf (demo_libs demo_manifest)) demo_manifest = Inr (bytes_of_str ''{m}'')"
    by (simp add: to_bytes_def one_manifest_codec_def)
  moreover have "\<lparr>version = 2, file_hash = demo_hex [1, 2], file_size = u64_len [1, 2 :: u8],
      chunks = [demo_hex demo_blob], m_vclock = tick vc_new ''d1'', written_by = ''d1'',
      written_at = fs_now one_file, rel_path = Some ''a'',
      encrypted_file_key = encrypted_file_key demo_manifest\<rparr> = demo_manifest"
    by (simp add: demo_manifest_def u64_len_def one_file_def)
  ultimately show ?thesis
    using demo_record[of "demo_hex [1, 2]" 1 "manifest_key ''p'' (demo_hex [1, 2])" "tick vc_new ''d1''" "''d1''"]
    by (auto simp: demo_upload_eq[OF demo_chunk_file ns] upload_write_def Let_def demo_upload_key demo_upload_blob
        demo_wrapped_key put_chunk_def exists_or_false_def mem_operator_def
        simp del: demo_libs_simps(4,8) split: sum.splits prod.splits)
qed

lemma demo_writable: "writable one_file (path_of ''/b'')"
  by code_simp

lemma demo_needs_sync: "sc_needs_sync toy_hasher one_file sample_cache (path_of ''/a'') = Inr (Some NewFile)"
  by code_simp

lemma demo_read: "fs_read one_file (path_of ''/a'') = Inr [1, 2]"
  by code_simp

theorem upload_download_round_trip_witness:
  "\<exists>r s' c' dr g'. demo_upload demo_manifest one_file = (Inr r, s', c') \<and>
     download_file_with_device (demo_libs demo_manifest) one_file s' (ur_remote_path r) (path_of ''/b'') ''p'' []
       None demo_enc = (Inr dr, g', None) \<and>
     map_option f_data (files g' (path_of ''/b'')) = Some [1, 2]"
proof -
  obtain r s' c' where up: "demo_upload demo_manifest one_file = (Inr r, s', c')"
    using demo_upload_ok by (cases "demo_upload demo_manifest one_file") (auto simp: is_ok_def split: sum.splits)
  have "\<exists>dr g'. download_file_with_device (demo_libs demo_manifest) one_file s' (ur_remote_path r)
          (path_of ''/b'') ''p'' [] None demo_enc = (Inr dr, g', None) \<and>
        map_option f_data (files g' (path_of ''/b'')) = Some [1, 2]"
    by (rule upload_download_round_trip[OF demo_laws demo_rnd_good empty_store_ok(1) _ demo_blobs_in _
          demo_read _ _ up[unfolded demo_upload_def] demo_writable])
      (use demo_needs_sync in \<open>simp_all add: mem_operator_def\<close>)
  with up show ?thesis by blast
qed

theorem upload_keeps_store_ok_witness:
  "store_ok (demo_libs demo_manifest) ''p'' (fst (snd (demo_upload demo_manifest one_file)))"
proof -
  obtain r s' c' where up: "demo_upload demo_manifest one_file = (r, s', c')"
    using prod_cases3 by blast
  from upload_keeps_store_ok[OF demo_laws empty_store_ok(2) up[unfolded demo_upload_def]] up
  show ?thesis by simp
qed

theorem upload_never_reports_conflict_witness:
  "\<exists>r. fst (demo_upload demo_manifest one_file) = Inr r \<and> ur_outcome r \<in> {None, Some UpToDate}"
proof -
  obtain r s' c' where up: "demo_upload demo_manifest one_file = (Inr r, s', c')"
    using demo_upload_ok by (cases "demo_upload demo_manifest one_file") (auto simp: is_ok_def split: sum.splits)
  show ?thesis
    using upload_never_reports_conflict[OF empty_store_ok(2) up[unfolded demo_upload_def]] up by simp
qed

theorem download_all_or_nothing_witness:
  "let r = download_file_with_device (demo_libs demo_manifest) one_file empty_store ''p/manifests/x''
             (path_of ''/a'') ''p'' [] None None
   in files (fst (snd r)) (path_of ''/a'') = files one_file (path_of ''/a'') \<and> \<not> is_ok (fst r)"
proof -
  let ?r = "download_file_with_device (demo_libs demo_manifest) one_file empty_store ''p/manifests/x''
             (path_of ''/a'') ''p'' [] None None"
  have p: "file_name (path_of ''/a'') \<noteq> None" "extension (path_of ''/a'') \<noteq> Some ''tcfs_tmp''"
    by code_simp+
  have "fetch_verified (demo_libs demo_manifest) empty_store ''p/manifests/x'' ''p'' None \<noteq> Inr x" for x
    by (simp add: fetch_verified_def mem_operator_def)
  with download_all_or_nothing[OF _ p, of "demo_libs demo_manifest" one_file empty_store
      "''p/manifests/x''" "''p''" "[]" None None "fst ?r" "fst (snd ?r)" "snd (snd ?r)"]
  show ?thesis by simp
qed

definition empty_file_fs :: fs where
  "empty_file_fs = one_file\<lparr>files := (\<lambda>q. if q = path_of ''/a'' then Some \<lparr>f_data = [], f_mtime = Some 5\<rparr> else None)\<rparr>"

definition empty_manifest :: SyncManifest where
  "empty_manifest = demo_manifest\<lparr>file_hash := demo_hex [], file_size := 0, chunks := []\<rparr>"

theorem empty_file_not_downloadable_witness:
  "\<exists>r s' c'. demo_upload empty_manifest empty_file_fs = (Inr r, s', c') \<and>
     fetch_verified (demo_libs empty_manifest) s' (ur_remote_path r) ''p'' demo_enc =
       Inl (EEmptyManifest (ur_remote_path r))"
proof -
  have ns: "sc_needs_sync toy_hasher empty_file_fs sample_cache (path_of ''/a'') = Inr (Some NewFile)"
    and cf: "chunk_file toy_hasher whole_cdc empty_file_fs (path_of ''/a'') = Inr ([], [])"
    and md: "fs_metadata empty_file_fs (path_of ''/a'') = Inr (0, Some 5)"
    by code_simp+
  have "\<lparr>version = 2, file_hash = demo_hex [], file_size = u64_len ([] :: bytes),
      chunks = [], m_vclock = tick vc_new ''d1'', written_by = ''d1'',
      written_at = fs_now empty_file_fs, rel_path = Some ''a'',
      encrypted_file_key = encrypted_file_key demo_manifest\<rparr> = empty_manifest"
    by (simp add: demo_manifest_def empty_manifest_def u64_len_def empty_file_fs_def one_file_def)
  moreover have "to_bytes (l_mf (demo_libs empty_manifest)) empty_manifest = Inr (bytes_of_str ''{m}'')"
    by (simp add: to_bytes_def one_manifest_codec_def)
  ultimately have "is_ok (fst (demo_upload empty_manifest empty_file_fs))"
    by (simp add: demo_upload_eq[OF cf ns] upload_write_def Let_def demo_upload_key demo_wrapped_key
        record_sync_def make_sync_state_full_def md mem_operator_def del: demo_libs_simps(4))
  then obtain r s' c' where up: "demo_upload empty_manifest empty_file_fs = (Inr r, s', c')"
    by (cases "demo_upload empty_manifest empty_file_fs") (auto simp: is_ok_def split: sum.splits)
  have "fs_read empty_file_fs (path_of ''/a'') = Inr []"
    by code_simp
  with ns empty_file_not_downloadable[OF demo_laws _ _ _ up[unfolded demo_upload_def], where enc' = demo_enc] up
  show ?thesis by (simp add: mem_operator_def)
qed

theorem v1_manifest_not_downloadable_witness:
  "\<exists>e. fetch_verified (demo_libs demo_manifest)
         (\<lambda>k. if k = ''p/manifests/ab'' then Some (bytes_of_str (v1_text [''ab''])) else None)
         ''p/manifests/ab'' ''p'' None = Inl e"
proof (rule v1_manifest_not_downloadable)
  show "hasher_laws (l_hash (demo_libs demo_manifest))"
    using demo_laws[of demo_manifest] by (simp add: engine_laws_def)
  show "from_bytes (l_mf (demo_libs demo_manifest)) (bytes_of_str (v1_text [''ab''])) = Inr (v1_manifest [''ab''])"
    by (rule from_bytes_v1) (simp_all add: one_manifest_codec_laws hex_digit_def)
qed (simp add: mem_operator_def)

end
