(* ===== verification/Git_Safety.thy ===== *)
theory Git_Safety
  imports Tcfs_Fs
begin

text \<open>
  \<^verbatim>\<open>crates/tcfs-sync/src/git_safety.rs\<close>: the checks made before a \<^verbatim>\<open>.git\<close> directory is synced, the
  bundle snapshot and restore (the \<^verbatim>\<open>git\<close> executable is a parameter), and the cooperative lock.
  The lock is also modelled as a step relation of several processes, one step per system call.
\<close>

section \<open>Model\<close>

record GitSafetyCheck =
  blocking :: "string list"
  warnings :: "string list"

definition lock_files :: "string list" where
  "lock_files = [''index.lock'', ''HEAD.lock'', ''gc.pid'', ''refs/heads/*.lock'', ''shallow.lock'',
                 ''packed-refs.lock'']"

definition in_progress :: "(string \<times> string) list" where
  "in_progress =
     [(''rebase-merge'', ''interactive rebase in progress''), (''rebase-apply'', ''rebase/am in progress''),
      (''MERGE_HEAD'', ''merge in progress''), (''CHERRY_PICK_HEAD'', ''cherry-pick in progress''),
      (''BISECT_LOG'', ''bisect in progress''), (''REVERT_HEAD'', ''revert in progress'')]"

text \<open>\<^verbatim>\<open>modified.elapsed()\<close> in whole seconds; an error for a time in the future.\<close>

definition elapsed_secs :: "fs \<Rightarrow> int \<Rightarrow> int option" where
  "elapsed_secs f t = (if t \<le> uint (fs_now f) then Some (uint (fs_now f) - t) else None)"

definition fetch_head_stale :: "fs \<Rightarrow> path \<Rightarrow> bool" where
  "fetch_head_stale f git_dir =
     (case fs_metadata f (path_join git_dir (path_of ''FETCH_HEAD'')) of
        Inr (_, Some t) \<Rightarrow> (case elapsed_secs f t of None \<Rightarrow> False | Some s \<Rightarrow> s > 3600)
      | _ \<Rightarrow> False)"

definition git_is_safe :: "fs \<Rightarrow> path \<Rightarrow> GitSafetyCheck" where
  "git_is_safe f git_dir =
     \<lparr>blocking =
        map (\<lambda>l. ''lock file exists: '' @ l)
            (filter (\<lambda>l. fs_exists f (path_join git_dir (path_of l))) lock_files) @
        map (\<lambda>(n, desc). desc @ '': '' @ n @ '' exists'')
            (filter (\<lambda>(n, desc). fs_exists f (path_join git_dir (path_of n))) in_progress),
      warnings = (if fetch_head_stale f git_dir then [''FETCH_HEAD is stale (>1h old)''] else [])\<rparr>"

text \<open>Running \<^verbatim>\<open>git\<close>: arguments and working directory to an exit status and standard error.\<close>

type_synonym git_exe = "fs \<Rightarrow> string list \<Rightarrow> path option \<Rightarrow> (bool \<times> string) res \<times> fs"

definition snapshot_git_for_sync :: "git_exe \<Rightarrow> fs \<Rightarrow> path \<Rightarrow> path res \<times> fs" where
  "snapshot_git_for_sync git f repo_root =
     (let bundle_path = path_join repo_root (path_of ''.git-tcfs-bundle'')
      in case git f [''bundle'', ''create'', path_str bundle_path, ''--all''] (Some repo_root) of
           (Inl e, f') \<Rightarrow> (Err (EIo ''running git bundle'' []), f')
         | (Inr (success, stderr), f') \<Rightarrow>
             if \<not> success then (Err (EIo ''git bundle failed'' stderr), f') else (Ok bundle_path, f'))"

definition restore_git_from_bundle :: "git_exe \<Rightarrow> fs \<Rightarrow> path \<Rightarrow> path \<Rightarrow> unit res \<times> fs" where
  "restore_git_from_bundle git f bundle target =
     (case git f [''clone'', path_str bundle, path_str target] None of
        (Inl e, f') \<Rightarrow> (Err (EIo ''running git clone from bundle'' []), f')
      | (Inr (success, stderr), f') \<Rightarrow>
          if \<not> success then (Err (EIo ''git clone from bundle failed'' stderr), f') else (Ok (), f'))"

text \<open>\<^verbatim>\<open>OpenOptions::new().create_new(true).write(true).open(p)\<close>\<close>

definition fs_create_new :: "fs \<Rightarrow> path \<Rightarrow> unit res \<times> fs" where
  "fs_create_new f p =
     (if fault f OpCreate p \<or> files f p \<noteq> None \<or> dirs f p
         \<or> (case path_parent p of None \<Rightarrow> True | Some q \<Rightarrow> \<not> dirs f q)
      then (Err (EIo ''creating'' (path_str p)), f)
      else (Ok (), f\<lparr>files := (files f)(p := Some \<lparr>f_data = [], f_mtime = mclock f\<rparr>)\<rparr>))"

definition lock_path :: "path \<Rightarrow> path" where
  "lock_path git_dir = path_join git_dir (path_of ''tcfs.lock'')"

definition acquire_git_lock :: "fs \<Rightarrow> path \<Rightarrow> unit res \<times> fs" where
  "acquire_git_lock f git_dir =
     (if fs_exists f (lock_path git_dir)
      then (Err (EAlreadyExists (path_str (lock_path git_dir))), f)
      else fs_create_new f (lock_path git_dir))"

section \<open>The safety check\<close>

definition op_marker :: "fs \<Rightarrow> path \<Rightarrow> string \<Rightarrow> bool" where
  "op_marker f git_dir n \<longleftrightarrow> fs_exists f (path_join git_dir (path_of n))"

lemma git_is_safe_iff:
  "blocking (git_is_safe f g) = [] \<longleftrightarrow> \<not> list_ex (op_marker f g) (lock_files @ map fst in_progress)"
  by (force simp: git_is_safe_def op_marker_def filter_empty_conv list_ex_iff)

lemma join_comps_eq:
  "path_join g (path_of a) = path_join g (path_of b) \<Longrightarrow> \<not> p_abs (path_of a) \<Longrightarrow> \<not> p_abs (path_of b) \<Longrightarrow>
   ''.'' \<notin> set (p_comps (path_of a)) \<Longrightarrow> ''.'' \<notin> set (p_comps (path_of b)) \<Longrightarrow>
   p_comps (path_of a) = p_comps (path_of b)"
proof -
  have id: "filter (\<lambda>c. c \<noteq> ''.'') xs = xs" if "''.'' \<notin> set xs" for xs
    using that by (auto simp: filter_id_conv)
  assume "path_join g (path_of a) = path_join g (path_of b)" "\<not> p_abs (path_of a)" "\<not> p_abs (path_of b)"
    "''.'' \<notin> set (p_comps (path_of a))" "''.'' \<notin> set (p_comps (path_of b))"
  then show "p_comps (path_of a) = p_comps (path_of b)"
    by (auto simp: path_join_def id split: if_splits)
qed

definition checked_names :: "string list" where
  "checked_names = ''FETCH_HEAD'' # lock_files @ map fst in_progress"

lemma checked_names_other:
  "list_all (\<lambda>n. \<not> p_abs (path_of n) \<and> ''.'' \<notin> set (p_comps (path_of n)) \<and>
                 p_comps (path_of n) \<noteq> p_comps (path_of ''refs/heads/main.lock'')) checked_names"
  by code_simp

lemma branch_lock_path:
  "\<not> p_abs (path_of ''refs/heads/main.lock'')" "''.'' \<notin> set (p_comps (path_of ''refs/heads/main.lock''))"
  by code_simp+

lemma checked_path_other:
  "n \<in> set checked_names \<Longrightarrow>
   path_join g (path_of n) \<noteq> path_join g (path_of ''refs/heads/main.lock'')"
  using join_comps_eq branch_lock_path checked_names_other by (fastforce simp: list_all_iff)

text \<open>
  The check looks for the fixed names of its two tables and for nothing else: it blocks
  exactly when one of them exists. The entry \<^verbatim>\<open>refs/heads/*.lock\<close> is such a fixed name, not a
  pattern, so the lock git takes on a branch (here \<^verbatim>\<open>refs/heads/main.lock\<close>) does not change the
  outcome.
\<close>

theorem git_check_is_literal:
  "(blocking (git_is_safe f g) = [] \<longleftrightarrow>
      \<not> list_ex (op_marker f g) (lock_files @ map fst in_progress)) \<and>
   git_is_safe (f\<lparr>files := (files f)(path_join g (path_of ''refs/heads/main.lock'') := Some x)\<rparr>) g =
   git_is_safe f g"
proof
  let ?f = "f\<lparr>files := (files f)(path_join g (path_of ''refs/heads/main.lock'') := Some x)\<rparr>"
  have ex: "fs_exists ?f (path_join g (path_of n)) = fs_exists f (path_join g (path_of n))"
    "fs_metadata ?f (path_join g (path_of n)) = fs_metadata f (path_join g (path_of n))"
    if "n \<in> set checked_names" for n
    using checked_path_other[OF that, of g] by (simp_all add: fs_exists_def fs_metadata_def split: option.split)
  have "fetch_head_stale ?f g = fetch_head_stale f g"
    by (simp add: fetch_head_stale_def ex checked_names_def elapsed_secs_def
        split: sum.split option.split prod.split)
  moreover have "filter (\<lambda>l. fs_exists ?f (path_join g (path_of l))) lock_files =
      filter (\<lambda>l. fs_exists f (path_join g (path_of l))) lock_files"
    by (rule filter_cong[OF refl ex(1)]) (simp add: checked_names_def)
  moreover have "filter (\<lambda>(n, desc). fs_exists ?f (path_join g (path_of n))) in_progress =
      filter (\<lambda>(n, desc). fs_exists f (path_join g (path_of n))) in_progress"
  proof (rule filter_cong[OF refl], goal_cases)
    case (1 nd)
    obtain n desc where nd: "nd = (n, desc)" by (cases nd)
    then have "n \<in> fst ` set in_progress" using 1 by (metis fst_conv imageI)
    then have "n \<in> set checked_names" by (simp add: checked_names_def)
    from ex(1)[OF this] show ?case by (simp add: nd)
  qed
  ultimately show "git_is_safe ?f g = git_is_safe f g"
    by (simp only: git_is_safe_def)
qed (rule git_is_safe_iff)

section \<open>Mutual exclusion of the cooperative lock\<close>

text \<open>
  Each process runs \<open>acquire_git_lock\<close> in two system calls, the existence test and the exclusive
  creation; another process may run between them.
\<close>

datatype lock_pc = Idle | Tested | Holding | Refused

type_synonym lock_state = "fs \<times> (nat \<Rightarrow> lock_pc)"

inductive lock_step :: "path \<Rightarrow> lock_state \<Rightarrow> lock_state \<Rightarrow> bool" for g where
  test_free: "pc i = Idle \<Longrightarrow> \<not> fs_exists f (lock_path g) \<Longrightarrow>
     lock_step g (f, pc) (f, pc(i := Tested))"
| test_taken: "pc i = Idle \<Longrightarrow> fs_exists f (lock_path g) \<Longrightarrow>
     lock_step g (f, pc) (f, pc(i := Refused))"
| create_ok: "pc i = Tested \<Longrightarrow> fs_create_new f (lock_path g) = (Inr u, f') \<Longrightarrow>
     lock_step g (f, pc) (f', pc(i := Holding))"
| create_lost: "pc i = Tested \<Longrightarrow> fs_create_new f (lock_path g) = (Inl e, f') \<Longrightarrow>
     lock_step g (f, pc) (f', pc(i := Refused))"

inductive_cases lock_stepE: "lock_step g s s'"

definition lock_inv :: "path \<Rightarrow> lock_state \<Rightarrow> bool" where
  "lock_inv g s \<longleftrightarrow>
     (\<forall>i j. snd s i = Holding \<longrightarrow> snd s j = Holding \<longrightarrow> i = j) \<and>
     (\<forall>i. snd s i = Holding \<longrightarrow> files (fst s) (lock_path g) \<noteq> None)"

lemma fs_create_new_exclusive:
  "fs_create_new f p = (Inr u, f') \<Longrightarrow> files f p = None \<and> files f' p \<noteq> None"
  by (auto simp: fs_create_new_def split: if_splits)

lemma fs_create_new_err: "fs_create_new f p = (Inl e, f') \<Longrightarrow> f' = f"
  by (auto simp: fs_create_new_def split: if_splits)

lemma lock_inv_step: "lock_step g s s' \<Longrightarrow> lock_inv g s \<Longrightarrow> lock_inv g s'"
proof (induction rule: lock_step.induct)
  case (create_ok pc i f u f')
  then have "pc j \<noteq> Holding" for j
    using fs_create_new_exclusive[OF create_ok(2)] by (auto simp: lock_inv_def)
  then show ?case
    using fs_create_new_exclusive[OF create_ok(2)] by (auto simp: lock_inv_def)
next
  case (create_lost pc i f e f')
  then show ?case
    using fs_create_new_err[OF create_lost(2)] by (auto simp: lock_inv_def)
qed (auto simp: lock_inv_def)

lemma lock_inv_reachable: "(lock_step g)\<^sup>*\<^sup>* s s' \<Longrightarrow> lock_inv g s \<Longrightarrow> lock_inv g s'"
  by (induction rule: rtranclp_induct) (auto intro: lock_inv_step)

lemma acquire_refines:
  assumes "pc i = Idle" and "fst (acquire_git_lock f g) = Inr u"
  shows "(lock_step g)\<^sup>*\<^sup>* (f, pc) (snd (acquire_git_lock f g), pc(i := Holding))"
proof -
  have free: "\<not> fs_exists f (lock_path g)"
    and c: "fs_create_new f (lock_path g) = (Inr u, snd (acquire_git_lock f g))"
    using assms(2) by (auto simp: acquire_git_lock_def prod_eq_iff split: if_splits)
  have "lock_step g (f, pc) (f, pc(i := Tested))"
    using assms(1) free by (rule test_free)
  moreover have "lock_step g (f, pc(i := Tested)) (snd (acquire_git_lock f g), pc(i := Tested, i := Holding))"
    using c by (intro create_ok) simp_all
  ultimately show ?thesis by simp
qed

text \<open>
  C17: however the system calls of competing processes interleave, at most one of them ever holds
  the lock of a git directory, and a successful \<open>acquire_git_lock\<close> is such a sequence of steps.
\<close>

theorem git_lock_mutual_exclusion:
  assumes "\<forall>i. pc i = Idle" and "(lock_step g)\<^sup>*\<^sup>* (f, pc) (f', pc')"
    and "pc' i = Holding" and "pc' j = Holding"
  shows "i = j \<and> files f' (lock_path g) \<noteq> None"
proof -
  have "lock_inv g (f, pc)" using assms(1) by (simp add: lock_inv_def)
  from lock_inv_reachable[OF assms(2) this] assms(3,4) show ?thesis
    by (auto simp: lock_inv_def)
qed

definition git_fs :: fs where
  "git_fs = \<lparr>files = (\<lambda>_. None), dirs = (\<lambda>q. q = path_of ''/'' \<or> q = path_of ''/.git''),
     dirmeta = (\<lambda>_. (0, None)), canon = (\<lambda>q. Some q),
     fault = (\<lambda>_ _. False), torn = (\<lambda>_. None), mclock = Some 9, fs_now = 9\<rparr>"

theorem git_lock_mutual_exclusion_witness:
  "\<exists>f' pc'. (lock_step (path_of ''/.git''))\<^sup>*\<^sup>* (git_fs, \<lambda>_. Idle) (f', pc') \<and> pc' 3 = Holding \<and>
     files f' (lock_path (path_of ''/.git'')) \<noteq> None"
proof -
  let ?f' = "snd (acquire_git_lock git_fs (path_of ''/.git''))"
  let ?pc = "(\<lambda>_. Idle)(3 := Holding)"
  have "fst (acquire_git_lock git_fs (path_of ''/.git'')) = Inr ()" by code_simp
  then have reach: "(lock_step (path_of ''/.git''))\<^sup>*\<^sup>* (git_fs, \<lambda>_. Idle) (?f', ?pc)"
    by (intro acquire_refines) simp_all
  from git_lock_mutual_exclusion[OF _ reach, of 3 3] reach show ?thesis
    by (intro exI[of _ ?f'] exI[of _ ?pc]) simp
qed

end
