(* ===== verification/Fuse_Stub.thy ===== *)
theory Fuse_Stub
  imports Tcfs_Fs Hex_Codec
begin

text \<open>
  \<^verbatim>\<open>crates/tcfs-fuse/src/stub.rs\<close>: the text format of \<^verbatim>\<open>.tc\<close> stub files, the names of stubs, and
  the index entries the sync engine writes and the FUSE driver reads.
\<close>

section \<open>Model: stub files\<close>

abbreviation space :: char where "space \<equiv> CHR '' ''"

definition STUB_VERSION :: string where
  "STUB_VERSION = ''https://tummycrypt.io/tcfs/v1''"

record StubMeta =
  sm_chunks :: usize
  sm_compressed :: bool
  sm_fetched :: bool
  sm_oid :: string
  sm_origin :: string
  sm_size :: u64

text \<open>The local variables of \<^verbatim>\<open>StubMeta::parse\<close>.\<close>

record stub_vars =
  v_chunks :: "usize option"
  v_compressed :: "bool option"
  v_fetched :: "bool option"
  v_oid :: "string option"
  v_origin :: "string option"
  v_size :: "u64 option"
  v_version :: bool

definition stub_start :: stub_vars where
  "stub_start = \<lparr>v_chunks = None, v_compressed = None, v_fetched = None, v_oid = None, v_origin = None,
     v_size = None, v_version = False\<rparr>"

definition stub_key :: "stub_vars \<Rightarrow> string \<Rightarrow> string \<Rightarrow> stub_vars res" where
  "stub_key v k x =
     (if k = ''version'' then
        (if x \<noteq> STUB_VERSION then Err (EUnsupported x) else Ok (v\<lparr>v_version := True\<rparr>))
      else if k = ''chunks'' then
        (case parse_u64 x of None \<Rightarrow> Err (EParse ''invalid chunks'' x) | Some n \<Rightarrow> Ok (v\<lparr>v_chunks := Some n\<rparr>))
      else if k = ''compressed'' then Ok (v\<lparr>v_compressed := Some (x \<noteq> ''0'')\<rparr>)
      else if k = ''fetched'' then Ok (v\<lparr>v_fetched := Some (x \<noteq> ''0'')\<rparr>)
      else if k = ''oid'' then Ok (v\<lparr>v_oid := Some x\<rparr>)
      else if k = ''origin'' then Ok (v\<lparr>v_origin := Some x\<rparr>)
      else if k = ''size'' then
        (case parse_u64 x of None \<Rightarrow> Err (EParse ''invalid size'' x) | Some n \<Rightarrow> Ok (v\<lparr>v_size := Some n\<rparr>))
      else Ok v)"

fun stub_lines :: "stub_vars \<Rightarrow> string list \<Rightarrow> stub_vars res" where
  "stub_lines v [] = Ok v"
| "stub_lines v (l # ls) =
     (if l = [] then stub_lines v ls
      else (case split_once space l of
              None \<Rightarrow> Err (EParse ''no space separator'' l)
            | Some (k, x) \<Rightarrow> (case stub_key v k x of Inl e \<Rightarrow> Inl e | Inr v' \<Rightarrow> stub_lines v' ls)))"

definition stub_parse :: "string \<Rightarrow> StubMeta res" where
  "stub_parse content =
     (case stub_lines stub_start (str_lines content) of
        Inl e \<Rightarrow> Inl e
      | Inr v \<Rightarrow>
          if \<not> v_version v then Err (EMissing ''version'')
          else (case (v_oid v, v_origin v, v_size v) of
                  (None, _, _) \<Rightarrow> Err (EMissing ''oid'')
                | (Some _, None, _) \<Rightarrow> Err (EMissing ''origin'')
                | (Some _, Some _, None) \<Rightarrow> Err (EMissing ''size'')
                | (Some oid, Some origin, Some sz) \<Rightarrow>
                    Ok \<lparr>sm_chunks = (case v_chunks v of None \<Rightarrow> 0 | Some n \<Rightarrow> n),
                        sm_compressed = (case v_compressed v of None \<Rightarrow> False | Some b \<Rightarrow> b),
                        sm_fetched = (case v_fetched v of None \<Rightarrow> False | Some b \<Rightarrow> b),
                        sm_oid = oid, sm_origin = origin, sm_size = sz\<rparr>))"

definition flag_str :: "bool \<Rightarrow> string" where
  "flag_str b = (if b then ''1'' else ''0'')"

definition kv :: "char \<Rightarrow> string \<Rightarrow> string \<Rightarrow> string" where
  "kv sep k x = k @ sep # x"

definition to_stub_string :: "StubMeta \<Rightarrow> string" where
  "to_stub_string m =
     unlines [kv space ''version'' STUB_VERSION, kv space ''chunks'' (dec_of_u64 (sm_chunks m)),
       kv space ''compressed'' (flag_str (sm_compressed m)), kv space ''fetched'' (flag_str (sm_fetched m)),
       kv space ''oid'' (sm_oid m), kv space ''origin'' (sm_origin m),
       kv space ''size'' (dec_of_u64 (sm_size m))]"

definition stub_to_bytes :: "StubMeta \<Rightarrow> bytes" where
  "stub_to_bytes m = bytes_of_str (to_stub_string m)"

definition blake3_hex :: "StubMeta \<Rightarrow> string option" where
  "blake3_hex m = strip_prefix ''blake3:'' (sm_oid m)"

definition for_upload :: "string \<Rightarrow> u64 \<Rightarrow> usize \<Rightarrow> string \<Rightarrow> string \<Rightarrow> StubMeta" where
  "for_upload manifest_hash sz n remote_prefix rel =
     \<lparr>sm_chunks = n, sm_compressed = False, sm_fetched = False, sm_oid = ''blake3:'' @ manifest_hash,
      sm_origin = ''seaweedfs://'' @ remote_prefix @ ''/'' @ rel, sm_size = sz\<rparr>"

definition is_stub_path :: "path \<Rightarrow> bool" where
  "is_stub_path p = (case extension p of None \<Rightarrow> False | Some e \<Rightarrow> e = ''tc'' \<or> e = ''tcf'')"

definition stub_to_real_name :: "string \<Rightarrow> string option" where
  "stub_to_real_name s =
     (case strip_suffix ''.tc'' s of Some r \<Rightarrow> Some r | None \<Rightarrow> strip_suffix ''.tcf'' s)"

definition real_to_stub_name :: "string \<Rightarrow> string" where
  "real_to_stub_name s = s @ ''.tc''"

section \<open>Model: index entries\<close>

record IndexEntry =
  ie_manifest_hash :: string
  ie_size :: u64
  ie_chunks :: usize

record index_vars =
  x_hash :: "string option"
  x_size :: "u64 option"
  x_chunks :: "usize option"

fun index_lines :: "index_vars \<Rightarrow> string list \<Rightarrow> index_vars res" where
  "index_lines v [] = Ok v"
| "index_lines v (l # ls) =
     (case split_once (CHR ''='') l of
        None \<Rightarrow> index_lines v ls
      | Some (k, x) \<Rightarrow>
          if k = ''manifest_hash'' then index_lines (v\<lparr>x_hash := Some x\<rparr>) ls
          else if k = ''size'' then
            (case parse_u64 x of None \<Rightarrow> Err (EParse ''invalid size'' x)
             | Some n \<Rightarrow> index_lines (v\<lparr>x_size := Some n\<rparr>) ls)
          else if k = ''chunks'' then
            (case parse_u64 x of None \<Rightarrow> Err (EParse ''invalid chunks'' x)
             | Some n \<Rightarrow> index_lines (v\<lparr>x_chunks := Some n\<rparr>) ls)
          else index_lines v ls)"

definition index_parse :: "string \<Rightarrow> IndexEntry res" where
  "index_parse content =
     (case index_lines \<lparr>x_hash = None, x_size = None, x_chunks = None\<rparr> (str_lines content) of
        Inl e \<Rightarrow> Inl e
      | Inr v \<Rightarrow>
          (case (x_hash v, x_size v) of
             (None, _) \<Rightarrow> Err (EMissing ''manifest_hash'')
           | (Some _, None) \<Rightarrow> Err (EMissing ''size'')
           | (Some h, Some n) \<Rightarrow>
               Ok \<lparr>ie_manifest_hash = h, ie_size = n,
                   ie_chunks = (case x_chunks v of None \<Rightarrow> 0 | Some c \<Rightarrow> c)\<rparr>))"

definition manifest_path :: "IndexEntry \<Rightarrow> string \<Rightarrow> string" where
  "manifest_path i rprefix = trim_end_matches slash rprefix @ ''/manifests/'' @ ie_manifest_hash i"

text \<open>The text the sync engine writes (\<^verbatim>\<open>push_tree_with_device\<close>).\<close>

definition index_text :: "string \<Rightarrow> u64 \<Rightarrow> usize \<Rightarrow> string" where
  "index_text h sz n =
     unlines [kv (CHR ''='') ''manifest_hash'' h, kv (CHR ''='') ''size'' (dec_of_u64 sz),
       kv (CHR ''='') ''chunks'' (dec_of_u64 n)]"

section \<open>Round trips\<close>

lemma plain_kv: "plain_line (kv c k x) \<longleftrightarrow> plain_line (k @ [c]) \<and> plain_line x"
  by (auto simp: kv_def plain_line_def)

lemma plain_flag [simp]: "plain_line (flag_str b)"
  by (simp add: flag_str_def plain_line_def)

lemma flag_str_zero [simp]: "flag_str b \<noteq> ''0'' \<longleftrightarrow> b" "flag_str b = ''0'' \<longleftrightarrow> \<not> b"
  by (simp_all add: flag_str_def)

lemma split_kv: "c \<notin> set k \<Longrightarrow> split_once c (kv c k x) = Some (k, x)"
  unfolding kv_def by (rule split_once_append)

lemma kv_nonempty: "kv c k x \<noteq> []"
  by (simp add: kv_def)

lemma str_lines_stub:
  "plain_line (sm_oid m) \<Longrightarrow> plain_line (sm_origin m) \<Longrightarrow> str_lines (to_stub_string m) =
     [kv space ''version'' STUB_VERSION, kv space ''chunks'' (dec_of_u64 (sm_chunks m)),
       kv space ''compressed'' (flag_str (sm_compressed m)), kv space ''fetched'' (flag_str (sm_fetched m)),
       kv space ''oid'' (sm_oid m), kv space ''origin'' (sm_origin m),
       kv space ''size'' (dec_of_u64 (sm_size m))]"
  unfolding to_stub_string_def
  by (rule str_lines_unlines) (simp add: plain_kv, simp add: plain_line_def STUB_VERSION_def)

lemma stub_round_trip:
  "plain_line (sm_oid m) \<Longrightarrow> plain_line (sm_origin m) \<Longrightarrow> stub_parse (to_stub_string m) = Inr m"
  by (simp add: stub_parse_def str_lines_stub split_kv kv_nonempty stub_key_def stub_start_def)

interpretation stub_codec: text_codec to_stub_string stub_parse
  "\<lambda>m. plain_line (sm_oid m) \<and> plain_line (sm_origin m)"
  by unfold_locales (simp add: stub_round_trip)

lemma str_lines_index:
  "plain_line h \<Longrightarrow> str_lines (index_text h sz n) =
     [kv (CHR ''='') ''manifest_hash'' h, kv (CHR ''='') ''size'' (dec_of_u64 sz),
       kv (CHR ''='') ''chunks'' (dec_of_u64 n)]"
  unfolding index_text_def
  by (rule str_lines_unlines) (simp add: plain_kv, simp add: plain_line_def)

lemma index_round_trip:
  "plain_line h \<Longrightarrow>
   index_parse (index_text h sz n) = Inr \<lparr>ie_manifest_hash = h, ie_size = sz, ie_chunks = n\<rparr>"
  by (simp add: index_parse_def str_lines_index split_kv)

interpretation index_codec: text_codec "\<lambda>i. index_text (ie_manifest_hash i) (ie_size i) (ie_chunks i)"
  index_parse "\<lambda>i. plain_line (ie_manifest_hash i)"
  by unfold_locales (simp add: index_round_trip)

lemma stub_name_round_trip: "stub_to_real_name (real_to_stub_name n) = Some n"
  by (simp add: stub_to_real_name_def real_to_stub_name_def)

text \<open>
  A stub written for an upload is read back exactly, yields the manifest hash it was made
  from, and two stubs with the same text are the same stub; the stub name of a file maps back to
  its name.
\<close>

theorem stub_format_correct:
  assumes "plain_line h" and "plain_line rprefix" and "plain_line rel"
  shows "stub_parse (to_stub_string (for_upload h sz n rprefix rel)) = Inr (for_upload h sz n rprefix rel) \<and>
         blake3_hex (for_upload h sz n rprefix rel) = Some h \<and>
         (\<forall>m. plain_line (sm_oid m) \<and> plain_line (sm_origin m) \<and>
              to_stub_string m = to_stub_string (for_upload h sz n rprefix rel) \<longrightarrow>
              m = for_upload h sz n rprefix rel) \<and>
         stub_to_real_name (real_to_stub_name rel) = Some rel"
proof -
  let ?m = "for_upload h sz n rprefix rel"
  have v: "plain_line (sm_oid ?m) \<and> plain_line (sm_origin ?m)"
    using assms by (simp add: for_upload_def) (simp add: plain_line_def)
  have "blake3_hex ?m = Some h"
    by (simp add: blake3_hex_def for_upload_def)
  with v stub_codec.round_trip[OF v] stub_codec.enc_inj[OF _ v] stub_name_round_trip show ?thesis
    by metis
qed

theorem stub_format_correct_witness:
  "stub_parse (to_stub_string (for_upload ''ab'' 7 1 ''data'' ''a/b.txt'')) =
     Inr (for_upload ''ab'' 7 1 ''data'' ''a/b.txt'')"
  using stub_format_correct[of "''ab''" "''data''" "''a/b.txt''" 7 1] by (simp add: plain_line_def)

end
