(* ===== verification/Push_Tree.thy ===== *)
theory Push_Tree
  imports Engine_Roundtrip Git_Safety Fuse_Stub
begin

text \<open>
  Pushing a directory tree (\<^verbatim>\<open>crates/tcfs-sync/src/engine.rs\<close>: \<^verbatim>\<open>collect_files\<close> and
  \<^verbatim>\<open>push_tree_with_device\<close>): which files are collected, and the loop that uploads them and writes
  the index the FUSE driver reads. The directory tree is the snapshot \<^verbatim>\<open>read_dir\<close> returns, in any
  order; symbolic links are neither directories nor regular files there. The glob library is a
  parameter.
\<close>

section \<open>Model\<close>

record CollectConfig =
  sync_git_dirs :: bool
  git_sync_mode :: string
  sync_hidden_dirs :: bool
  exclude_patterns :: "string list"

definition default_collect :: CollectConfig where
  "default_collect = \<lparr>sync_git_dirs = False, git_sync_mode = ''bundle'', sync_hidden_dirs = False,
     exclude_patterns = []\<rparr>"

text \<open>
  Directory entries with their names (\<open>None\<close>: not UTF-8). \<open>Unreadable\<close> is a directory that
  \<^verbatim>\<open>read_dir\<close> refuses, \<open>BadEntry\<close> an entry whose metadata cannot be read.
\<close>

datatype dtree = RegFile | OtherNode | BadEntry | Unreadable | Dir "(string option \<times> dtree) list"

text \<open>\<^verbatim>\<open>glob::Pattern::new(p)\<close>, and matching; invalid patterns are dropped.\<close>

type_synonym globber = "string \<Rightarrow> (string \<Rightarrow> bool) option"

definition excluded :: "globber \<Rightarrow> CollectConfig \<Rightarrow> string \<Rightarrow> bool" where
  "excluded G cfg name \<longleftrightarrow> list_ex (\<lambda>m. m name) (List.map_filter G (exclude_patterns cfg))"

text \<open>Whether the walk enters the directory \<open>name\<close> at path \<open>d\<close>.\<close>

definition descend :: "fs \<Rightarrow> CollectConfig \<Rightarrow> path \<Rightarrow> string \<Rightarrow> bool" where
  "descend f cfg d name =
     (if name = ''target'' \<or> name = ''node_modules'' \<or> name = ''.DS_Store'' then False
      else if name = ''.git'' then
        sync_git_dirs cfg \<and> blocking (git_is_safe f d) = [] \<and> git_sync_mode cfg \<noteq> ''bundle''
      else \<not> (starts_with ''.'' name \<and> \<not> sync_hidden_dirs cfg))"

fun collect_entries ::
  "globber \<Rightarrow> fs \<Rightarrow> CollectConfig \<Rightarrow> path \<Rightarrow> (string option \<times> dtree) list \<Rightarrow> path list res"
and collect_node ::
  "globber \<Rightarrow> fs \<Rightarrow> CollectConfig \<Rightarrow> path \<Rightarrow> string option \<Rightarrow> dtree \<Rightarrow> path list res" where
  "collect_entries G f cfg d [] = Ok []"
| "collect_entries G f cfg d ((n, t) # r) =
     (case collect_node G f cfg d n t of
        Inl e \<Rightarrow> Inl e
      | Inr ps \<Rightarrow> (case collect_entries G f cfg d r of Inl e \<Rightarrow> Inl e | Inr qs \<Rightarrow> Ok (ps @ qs)))"
| "collect_node G f cfg d n BadEntry = Err (EIo ''stat dir entry'' (path_str d))"
| "collect_node G f cfg d n RegFile =
     (case n of None \<Rightarrow> Ok [] | Some name \<Rightarrow> if excluded G cfg name then Ok [] else Ok [path_child d name])"
| "collect_node G f cfg d n OtherNode = Ok []"
| "collect_node G f cfg d n Unreadable =
     (case n of
        None \<Rightarrow> Ok []
      | Some name \<Rightarrow>
          if excluded G cfg name \<or> \<not> descend f cfg (path_child d name) name then Ok []
          else Err (EIo ''reading dir'' (path_str (path_child d name))))"
| "collect_node G f cfg d n (Dir es) =
     (case n of
        None \<Rightarrow> Ok []
      | Some name \<Rightarrow>
          if excluded G cfg name \<or> \<not> descend f cfg (path_child d name) name then Ok []
          else collect_entries G f cfg (path_child d name) es)"

fun collect_files_inner :: "globber \<Rightarrow> fs \<Rightarrow> CollectConfig \<Rightarrow> path \<Rightarrow> dtree \<Rightarrow> path list res" where
  "collect_files_inner G f cfg root (Dir es) = collect_entries G f cfg root es"
| "collect_files_inner G f cfg root _ = Err (EIo ''reading dir'' (path_str root))"

definition collect_files :: "globber \<Rightarrow> fs \<Rightarrow> CollectConfig \<Rightarrow> path \<Rightarrow> dtree \<Rightarrow> path list res" where
  "collect_files G f cfg root t =
     (case collect_files_inner G f cfg root t of
        Inl e \<Rightarrow> Inl e
      | Inr ps \<Rightarrow> Ok (sort_key p_comps ps))"

definition remote_path_prefix :: "string \<Rightarrow> string" where
  "remote_path_prefix rprefix = trim_end_matches slash rprefix"

definition index_key :: "string \<Rightarrow> string \<Rightarrow> string" where
  "index_key rprefix rel = rprefix @ ''/index/'' @ rel"

text \<open>\<^verbatim>\<open>rel.to_string_lossy().replace('\\', "/")\<close>\<close>

definition rel_string :: "path \<Rightarrow> path \<Rightarrow> string" where
  "rel_string root p =
     map (\<lambda>c. if c = CHR 0x5C then slash else c)
       (path_str (case path_strip_prefix root p of None \<Rightarrow> p | Some r \<Rightarrow> r))"

type_synonym counts = "nat \<times> nat \<times> u64"

definition count_upload :: "UploadResult \<Rightarrow> counts \<Rightarrow> counts" where
  "count_upload r = (\<lambda>(up, sk, by). if ur_skipped r then (up, sk + 1, by) else (up + 1, sk, by + ur_bytes r))"

fun push_loop ::
  "'s libs \<Rightarrow> (nat \<Rightarrow> rnd) \<Rightarrow> fs \<Rightarrow> path \<Rightarrow> string \<Rightarrow> string \<Rightarrow> EncryptionContext option \<Rightarrow> nat \<Rightarrow> path list \<Rightarrow>
   's \<Rightarrow> StateCache \<Rightarrow> counts \<Rightarrow> 's \<times> StateCache \<times> counts" where
  "push_loop E rn f root rprefix dev enc i [] s c n = (s, c, n)"
| "push_loop E rn f root rprefix dev enc i (p # ps) s c n =
     (let rel = rel_string root p; rp = remote_path_prefix rprefix
      in case upload_file_with_device E (rn i) f s c p rp dev (Some rel) enc of
           (Inl e, s', c') \<Rightarrow> push_loop E rn f root rprefix dev enc (Suc i) ps s' c' n
         | (Inr r, s', c') \<Rightarrow>
             (let s'' = snd (op_write (l_op E) s' (index_key rp rel)
                               (bytes_of_str (index_text (ur_hash r) (ur_bytes r) (word_of_nat (ur_chunks r)))))
              in push_loop E rn f root rprefix dev enc (Suc i) ps s'' c' (count_upload r n)))"

definition push_tree_with_device ::
  "'s libs \<Rightarrow> state_codec \<Rightarrow> globber \<Rightarrow> (nat \<Rightarrow> rnd) \<Rightarrow> fs \<Rightarrow> dtree \<Rightarrow> 's \<Rightarrow> StateCache \<Rightarrow> path \<Rightarrow> string \<Rightarrow>
   string \<Rightarrow> CollectConfig option \<Rightarrow> EncryptionContext option \<Rightarrow> counts res \<times> fs \<times> 's \<times> StateCache" where
  "push_tree_with_device E J G rn f t s c root rprefix dev cfg enc =
     (case collect_files G f (case cfg of None \<Rightarrow> default_collect | Some x \<Rightarrow> x) root t of
        Inl e \<Rightarrow> (Inl e, f, s, c)
      | Inr ps \<Rightarrow>
          (case push_loop E rn f root rprefix dev enc 0 ps s c (0, 0, 0) of
             (s', c', n) \<Rightarrow>
               (case sc_flush J f c' of
                  (Inl e, f', c'') \<Rightarrow> (Inl e, f', s', c'')
                | (Inr _, f', c'') \<Rightarrow> (Ok n, f', s', c''))))"

definition push_tree ::
  "'s libs \<Rightarrow> state_codec \<Rightarrow> globber \<Rightarrow> (nat \<Rightarrow> rnd) \<Rightarrow> fs \<Rightarrow> dtree \<Rightarrow> 's \<Rightarrow> StateCache \<Rightarrow> path \<Rightarrow> string \<Rightarrow>
   counts res \<times> fs \<times> 's \<times> StateCache" where
  "push_tree E J G rn f t s c root rprefix = push_tree_with_device E J G rn f t s c root rprefix [] None None"

section \<open>Collection\<close>

text \<open>The files below a tree, with every directory name and the file name passed on the way.\<close>

inductive below :: "path \<Rightarrow> (string option \<times> dtree) list \<Rightarrow> (path \<times> string) list \<Rightarrow> path \<Rightarrow> bool" where
  here: "(Some n, RegFile) \<in> set es \<Longrightarrow> below d es [] (path_child d n)"
| there: "(Some n, Dir es') \<in> set es \<Longrightarrow> below (path_child d n) es' ds p \<Longrightarrow>
     below d es ((path_child d n, n) # ds) p"

inductive_cases below_NilE: "below d es [] p"
inductive_cases below_ConsE: "below d es (x # ds) p"

definition visited :: "globber \<Rightarrow> fs \<Rightarrow> CollectConfig \<Rightarrow> path \<times> string \<Rightarrow> bool" where
  "visited G f cfg = (\<lambda>(d, n). \<not> excluded G cfg n \<and> descend f cfg d n)"

lemma below_mono: "below d es ds p \<Longrightarrow> set es \<subseteq> set es' \<Longrightarrow> below d es' ds p"
  by (erule below.cases) (auto intro: below.intros)

lemma collect_sound:
  "collect_entries G f cfg d es = Inr ps \<Longrightarrow> p \<in> set ps \<Longrightarrow>
     \<exists>ds. below d es ds p \<and> list_all (visited G f cfg) ds \<and> \<not> excluded G cfg (last (p_comps p))"
  "collect_node G f cfg d n t = Inr ps \<Longrightarrow> p \<in> set ps \<Longrightarrow>
     \<exists>ds. below d [(n, t)] ds p \<and> list_all (visited G f cfg) ds \<and> \<not> excluded G cfg (last (p_comps p))"
proof (induction G f cfg d es and G f cfg d n t arbitrary: ps and ps rule: collect_entries_collect_node.induct)
  case (2 G f cfg d n t r)
  obtain qs rs where q: "collect_node G f cfg d n t = Inr qs" and r: "collect_entries G f cfg d r = Inr rs"
    and ps: "ps = qs @ rs"
    using 2(3) by (auto split: sum.splits)
  then consider "p \<in> set qs" | "p \<in> set rs" using 2(4) by auto
  then show ?case
  proof cases
    case 1
    with 2(1)[OF q] show ?thesis using below_mono[of d "[(n, t)]" _ p "(n, t) # r"] by fastforce
  next
    case b: 2
    with 2(2)[OF q r] show ?thesis using below_mono[of d r _ p "(n, t) # r"] by fastforce
  qed
next
  case (4 G f cfg d n)
  then show ?case
    by (intro exI[of _ "[]"]) (auto split: option.splits if_splits intro!: below.here)
next
  case (7 G f cfg d n es)
  then obtain name where n: "n = Some name" and v: "visited G f cfg (path_child d name, name)"
    and c: "collect_entries G f cfg (path_child d name) es = Inr ps"
    by (auto simp: visited_def split: option.splits if_splits)
  with 7 obtain ds where "below (path_child d name) es ds p" "list_all (visited G f cfg) ds"
    "\<not> excluded G cfg (last (p_comps p))"
    by (auto simp: visited_def)
  with n v show ?case
    by (intro exI[of _ "(path_child d name, name) # ds"]) (auto intro: below.there)
qed (auto split: option.splits if_splits)

lemma collect_entries_member:
  "collect_entries G f cfg d es = Inr ps \<Longrightarrow> (n, t) \<in> set es \<Longrightarrow>
   \<exists>qs. collect_node G f cfg d n t = Inr qs \<and> set qs \<subseteq> set ps"
  by (induction es arbitrary: ps) (auto split: sum.splits, blast)

lemma collect_complete:
  "below d es ds p \<Longrightarrow> collect_entries G f cfg d es = Inr ps \<Longrightarrow> list_all (visited G f cfg) ds \<Longrightarrow>
   \<not> excluded G cfg (last (p_comps p)) \<Longrightarrow> p \<in> set ps"
proof (induction arbitrary: ps rule: below.induct)
  case (here n es d)
  from collect_entries_member[OF here(2,1)] here(4) show ?case by auto
next
  case (there n es' es d ds p)
  from collect_entries_member[OF there(4,1)] obtain qs
    where "collect_node G f cfg d (Some n) (Dir es') = Inr qs" "set qs \<subseteq> set ps" by blast
  with there show ?case by (auto simp: visited_def)
qed

text \<open>
  C16: a tree walk that succeeds collects exactly the regular files all of whose enclosing
  directories are entered (never \<^verbatim>\<open>target\<close> or \<^verbatim>\<open>node_modules\<close>, hidden directories only on request, \<^verbatim>\<open>.git\<close>
  only in raw mode when no git operation is in progress) and that no exclude pattern matches, in
  the order of their paths.
\<close>

theorem collect_files_exact:
  assumes "collect_files G f cfg root (Dir es) = Inr ps"
  shows "(p \<in> set ps \<longleftrightarrow>
            (\<exists>ds. below root es ds p \<and> list_all (visited G f cfg) ds \<and> \<not> excluded G cfg (last (p_comps p)))) \<and>
         sorted (map p_comps ps)"
proof -
  obtain qs where qs: "collect_entries G f cfg root es = Inr qs" and ps: "ps = sort_key p_comps qs"
    using assms by (auto simp: collect_files_def split: sum.splits)
  then show ?thesis
    using collect_sound(1)[OF qs, of p] collect_complete[of root es _ p, OF _ qs] by auto
qed

definition demo_tree :: "(string option \<times> dtree) list" where
  "demo_tree = [(Some ''target'', Dir [(Some ''x'', RegFile)]), (Some ''b'', RegFile),
     (Some ''.git'', Dir [(Some ''HEAD'', RegFile)]), (Some ''a'', Dir [(Some ''z'', RegFile)])]"

theorem collect_files_exact_witness:
  "\<exists>ps. collect_files (\<lambda>_. None) one_file default_collect (path_of ''/r'') (Dir demo_tree) = Inr ps \<and>
     path_of ''/r/b'' \<in> set ps \<and> sorted (map p_comps ps)"
proof -
  have "is_ok (collect_files (\<lambda>_. None) one_file default_collect (path_of ''/r'') (Dir demo_tree))"
    by code_simp
  then obtain ps where ps: "collect_files (\<lambda>_. None) one_file default_collect (path_of ''/r'') (Dir demo_tree) = Inr ps"
    by (auto simp: is_ok_def split: sum.splits)
  have "path_child (path_of ''/r'') ''b'' = path_of ''/r/b''" by code_simp
  moreover have "below (path_of ''/r'') demo_tree [] (path_child (path_of ''/r'') ''b'')"
    by (rule below.here) (simp add: demo_tree_def)
  moreover have "\<not> excluded (\<lambda>_. None) default_collect x" for x
    by (simp add: excluded_def default_collect_def)
  ultimately have "\<exists>ds. below (path_of ''/r'') demo_tree ds (path_of ''/r/b'') \<and>
      list_all (visited (\<lambda>_. None) one_file default_collect) ds \<and>
      \<not> excluded (\<lambda>_. None) default_collect (last (p_comps (path_of ''/r/b'')))"
    by (intro exI[of _ "[]"]) auto
  with collect_files_exact[OF ps, of "path_of ''/r/b''"] ps show ?thesis by blast
qed

section \<open>What a push publishes\<close>

lemma index_key_other [simp]:
  "index_key p r \<noteq> chunk_key p h" "chunk_key p h \<noteq> index_key p r"
  "index_key p r \<noteq> manifest_key p h" "manifest_key p h \<noteq> index_key p r"
  "index_key p r = index_key p r' \<longleftrightarrow> r = r'"
  by (simp_all add: index_key_def chunk_key_def manifest_key_def)

text \<open>Every cached state names a stored manifest.\<close>

definition cache_synced :: "'s libs \<Rightarrow> string \<Rightarrow> StateCache \<Rightarrow> 's \<Rightarrow> bool" where
  "cache_synced E p c s \<longleftrightarrow>
     (\<forall>k st. entries c k = Some st \<longrightarrow> list_all hex_digit (ss_blake3 st) \<and> has_manifest E p s (ss_blake3 st))"

text \<open>Every index object parses, and the manifest path the FUSE driver derives from it holds its manifest.\<close>

definition index_ok :: "'s libs \<Rightarrow> string \<Rightarrow> 's \<Rightarrow> bool" where
  "index_ok E p s \<longleftrightarrow>
     (\<forall>rel d. op_read (l_op E) s (index_key p rel) = Inr d \<longrightarrow>
        (\<exists>t i mb m. from_utf8 d = Some t \<and> index_parse t = Inr i \<and>
            op_read (l_op E) s (manifest_path i p) = Inr mb \<and> from_bytes (l_mf E) mb = Inr m \<and>
            file_hash m = ie_manifest_hash i))"

definition published :: "'s libs \<Rightarrow> string \<Rightarrow> 's \<Rightarrow> StateCache \<Rightarrow> bool" where
  "published E p s c \<longleftrightarrow> store_ok E p s \<and> cache_synced E p c s \<and> index_ok E p s"

lemma upload_write_result:
  assumes "upload_write E rn f s c lp p dev rel enc cs data h vc out = (r, s', c')"
  shows "c' = c \<or> (\<exists>st. c' = sc_set f c lp st \<and> ss_blake3 st = h \<and> is_ok r)"
    and "r = Inr x \<Longrightarrow> ur_hash x = h"
  using assms
  by (auto simp: upload_write_def Let_def record_sync_def make_sync_state_full_def
      split: sum.splits prod.splits)

lemma upload_chunked_cases:
  assumes "upload_file_with_device E rn f s c lp p dev rel enc = (r, s', c')"
    and "sc_needs_sync (l_hash E) f c lp = Inr (Some w)" and "chunk_file (l_hash E) (l_cdc E) f lp = Inr (cs, data)"
  obtains (failed) e where "r = Inl e" "s' = s" "c' = c"
  | (other) x m out now vc where "r = Inr x" "s' = s" "c' = c"
      "remote_check E now s (manifest_key p (hex_of E data)) vc (hex_of E data) rel dev = Some (out, m)" "out \<noteq> UpToDate"
  | (noted) x st where "r = Inr x" "s' = s" "c' = sc_set f c lp st" "ss_blake3 st = hex_of E data"
      "ur_hash x = hex_of E data" "op_exists (l_op E) s (manifest_key p (hex_of E data)) = Inr True"
  | (wrote) vc out where "upload_write E rn f s c lp p dev rel enc cs data (hex_of E data) vc out = (r, s', c')"
proof -
  let ?h = "hex_of E data"
  let ?vc = "case sc_get f c lp of None \<Rightarrow> vc_new | Some st \<Rightarrow> ss_vclock st"
  let ?rc = "remote_check E (fs_now f) s (manifest_key p ?h) ?vc ?h rel dev"
  let ?note = "record_sync f c lp ?h (length cs) (manifest_key p ?h) ?vc dev"
  note eq = assms(1)[unfolded upload_file_with_device_def Let_def assms(2,3), simplified]
  have note_step: thesis
    if "(case ?note of (Inl e, c') \<Rightarrow> (Inl e, s, c') | (Inr _, c') \<Rightarrow> (Inr y, s, c')) = (r, s', c')"
      and "ur_hash y = ?h" and "op_exists (l_op E) s (manifest_key p ?h) = Inr True" for y
    using that noted failed
    by (auto simp: record_sync_def make_sync_state_full_def split: sum.splits prod.splits)
  show ?thesis
  proof (cases ?rc)
    case None
    then show ?thesis
      using eq wrote note_step by (auto simp: exists_or_false_def split: sum.splits if_splits)
  next
    case (Some om)
    obtain out m where rc: "?rc = Some (out, m)" using Some by (cases om) simp
    have ex: "op_exists (l_op E) s (manifest_key p ?h) = Inr True"
      using rc by (auto simp: remote_check_def split: if_splits)
    show ?thesis
      using eq rc other[OF _ _ _ rc] wrote note_step[OF _ _ ex] by (cases out) auto
  qed
qed

lemma upload_cases:
  assumes "upload_file_with_device E rn f s c lp p dev rel enc = (r, s', c')"
  obtains (failed) e where "r = Inl e" "s' = s" "c' = c"
  | (cached) x st where "r = Inr x" "s' = s" "c' = c" "sc_get f c lp = Some st" "ur_hash x = ss_blake3 st"
  | (other) x m out h now vc where "r = Inr x" "s' = s" "c' = c"
      "remote_check E now s (manifest_key p h) vc h rel dev = Some (out, m)" "out \<noteq> UpToDate"
  | (noted) x st data where "r = Inr x" "s' = s" "c' = sc_set f c lp st" "ss_blake3 st = hex_of E data"
      "ur_hash x = hex_of E data" "op_exists (l_op E) s (manifest_key p (hex_of E data)) = Inr True"
  | (wrote) cs data vc out where "chunk_file (l_hash E) (l_cdc E) f lp = Inr (cs, data)"
      "upload_write E rn f s c lp p dev rel enc cs data (hex_of E data) vc out = (r, s', c')"
proof (cases "sc_needs_sync (l_hash E) f c lp")
  case (Inl e)
  then show ?thesis using assms failed[of e] by (simp add: upload_file_with_device_def)
next
  case (Inr why)
  show ?thesis
  proof (cases why)
    case None
    then show ?thesis
      using assms Inr failed cached
      by (cases "sc_get f c lp") (auto simp: upload_file_with_device_def)
  next
    case (Some w)
    note sync = Inr[unfolded Some]
    show ?thesis
    proof (cases "chunk_file (l_hash E) (l_cdc E) f lp")
      case (Inl e)
      then show ?thesis using assms sync failed[of e] by (simp add: upload_file_with_device_def)
    next
      case (Inr cd)
      then obtain cs data where cf: "chunk_file (l_hash E) (l_cdc E) f lp = Inr (cs, data)" by (cases cd) simp
      show ?thesis
      proof (rule upload_chunked_cases[OF assms sync cf])
        show thesis if "r = Inl e" "s' = s" "c' = c" for e by (rule failed[OF that])
        show thesis if "r = Inr x" "s' = s" "c' = c"
          "remote_check E now s (manifest_key p (hex_of E data)) vc (hex_of E data) rel dev = Some (out, m)" "out \<noteq> UpToDate"
          for x m out now vc by (rule other[OF that])
        show thesis if "r = Inr x" "s' = s" "c' = sc_set f c lp st" "ss_blake3 st = hex_of E data"
          "ur_hash x = hex_of E data" "op_exists (l_op E) s (manifest_key p (hex_of E data)) = Inr True" for x st
          by (rule noted[OF that])
        show thesis if "upload_write E rn f s c lp p dev rel enc cs data (hex_of E data) vc out = (r, s', c')" for vc out
          by (rule wrote[OF cf that])
      qed
    qed
  qed
qed

lemma upload_frame:
  assumes "store_laws (l_op E)" and "upload_file_with_device E rn f s c lp p dev rel enc = (r, s', c')"
    and "\<And>h. k \<noteq> chunk_key p h" and "\<And>h. k \<noteq> manifest_key p h"
  shows "op_read (l_op E) s' k = op_read (l_op E) s k"
  using assms(2)
proof (cases rule: upload_effects)
  case (2 cs data vc out)
  from 2(2) show ?thesis
  proof (cases rule: upload_write_effects)
    case (3 key hs s1 m mb r2)
    then show ?thesis
      using upload_chunks_frame[OF assms(1,3) 3(1)] store_write_frame[OF assms(1) 3(4), of k] assms(4) by simp
  qed (use upload_chunks_frame[OF assms(1,3)] in auto)
qed simp

lemma hex_of_digits: "hasher_laws (l_hash E) \<Longrightarrow> list_all hex_digit (hex_of E d)"
  using hasher_hex_digits by (simp add: hex_of_def hash_to_hex_def hash_bytes_def)

lemma cache_synced_set:
  "cache_synced E p c s \<Longrightarrow> list_all hex_digit (ss_blake3 st) \<Longrightarrow> has_manifest E p s (ss_blake3 st) \<Longrightarrow>
   cache_synced E p (sc_set f c lp st) s"
  by (auto simp: cache_synced_def)

lemma cache_synced_mono:
  "cache_synced E p c s \<Longrightarrow> (\<And>h. has_manifest E p s h \<Longrightarrow> has_manifest E p s' h) \<Longrightarrow> cache_synced E p c s'"
  by (auto simp: cache_synced_def)

text \<open>An upload that returns names a manifest that is in the store.\<close>

lemma upload_publishes:
  assumes "engine_laws E" and "store_ok E p s" and "cache_synced E p c s"
    and "upload_file_with_device E rn f s c lp p dev rel enc = (r, s', c')"
  shows "cache_synced E p c' s'"
    and "r = Inr x \<Longrightarrow> list_all hex_digit (ur_hash x) \<and> has_manifest E p s' (ur_hash x)"
proof -
  note hex = hex_of_digits[OF engine_lawsD(2)[OF assms(1)]]
  have mok: "manifests_ok E p s" using assms(2) by (simp add: store_ok_def)
  have "cache_synced E p c' s' \<and>
        (\<forall>x. r = Inr x \<longrightarrow> list_all hex_digit (ur_hash x) \<and> has_manifest E p s' (ur_hash x))"
    using assms(4)
  proof (cases rule: upload_cases)
    case (cached x st)
    then show ?thesis using assms(3) by (auto simp: cache_synced_def sc_get_def)
  next
    case (other x m out h now vc)
    then show ?thesis using remote_check_named[OF mok] by blast
  next
    case (noted x st data)
    then have "has_manifest E p s (hex_of E data)" using mok by (simp add: manifests_ok_def)
    with noted hex show ?thesis using cache_synced_set[OF assms(3)] by simp
  next
    case (wrote cs data vc out)
    note w = upload_write_store[OF assms(1,2) wrote]
    have "cache_synced E p c s'" by (rule cache_synced_mono[OF assms(3) w(2)])
    with upload_write_result[OF wrote(2)] w(3) hex show ?thesis
      using cache_synced_set by fastforce
  qed (use assms(3) in simp)
  then show "cache_synced E p c' s'"
    "r = Inr x \<Longrightarrow> list_all hex_digit (ur_hash x) \<and> has_manifest E p s' (ur_hash x)" by blast+
qed

lemma index_text_ascii: "list_all hex_digit h \<Longrightarrow> ascii_str (index_text h sz n)"
proof -
  have "digit_val c \<noteq> None \<Longrightarrow> (of_char c :: nat) < 128" for c
    by (auto simp: digit_val_def Let_def split: if_splits)
  then have dec: "ascii_str (dec_of_u64 w)" for w
    using dec_of_nat_digits[of _ "unat w"] by (auto simp: ascii_str_def dec_of_u64_def)
  assume "list_all hex_digit h"
  then show ?thesis
    using hex_ascii[of h] dec[of sz] dec[of n]
    by (auto simp: ascii_str_def index_text_def unlines_def kv_def)
qed

lemma manifest_path_normal:
  "manifest_path i (remote_path_prefix p) = manifest_key (remote_path_prefix p) (ie_manifest_hash i)"
  by (simp add: manifest_path_def manifest_key_def remote_path_prefix_def)

lemma index_write_published:
  assumes "store_laws (l_op E)" and "p = remote_path_prefix rp" and "published E p s c"
    and "list_all hex_digit h" and "has_manifest E p s h"
    and "op_write (l_op E) s (index_key p rel) (bytes_of_str (index_text h sz n)) = (r, s')"
  shows "published E p s' c"
proof -
  note fr = store_write_frame[OF assms(1,6)] store_write_frame_exists[OF assms(1,6)]
  have mk: "op_read (l_op E) s' (manifest_key p g) = op_read (l_op E) s (manifest_key p g)"
    "op_exists (l_op E) s' (manifest_key p g) = op_exists (l_op E) s (manifest_key p g)"
    "op_read (l_op E) s' (chunk_key p g) = op_read (l_op E) s (chunk_key p g)"
    "op_exists (l_op E) s' (chunk_key p g) = op_exists (l_op E) s (chunk_key p g)" for g
    by (simp_all add: fr)
  have st: "store_ok E p s'" "cache_synced E p c s'"
    using assms(3) manifests_ok_cong[of E s' p s, OF mk(1,2)]
    by (simp_all add: published_def store_ok_def cas_in_def cache_synced_def mk(3,4))
  have "\<exists>t i mb m. from_utf8 d = Some t \<and> index_parse t = Inr i \<and>
            op_read (l_op E) s' (manifest_path i p) = Inr mb \<and> from_bytes (l_mf E) mb = Inr m \<and>
            file_hash m = ie_manifest_hash i"
    if rd: "op_read (l_op E) s' (index_key p rel') = Inr d" for rel' d
  proof (cases "op_read (l_op E) s (index_key p rel') = Inr d")
    case True
    then show ?thesis
      using assms(3) unfolding published_def index_ok_def assms(2) manifest_path_normal
      using mk(1)[unfolded assms(2)] by simp
  next
    case False
    then have "rel' = rel" and d: "d = bytes_of_str (index_text h sz n)"
      using rd fr(1)[of "index_key p rel'"] store_write_atomic[OF assms(1,6)]
      by (metis index_key_other(5), metis index_key_other(5) sum.inject(2))
    have "plain_line h" using assms(4) by (rule hex_plain)
    then show ?thesis
      using assms(5) unfolding d assms(2) manifest_path_normal
      by (simp add: index_text_ascii[OF assms(4)] index_round_trip has_manifest_def mk(1)[unfolded assms(2)])
  qed
  with st show ?thesis by (simp add: published_def index_ok_def)
qed

lemma upload_published:
  assumes "engine_laws E" and "p = remote_path_prefix rp" and "published E p s c"
    and "upload_file_with_device E rn f s c lp p dev rel enc = (r, s', c')"
  shows "published E p s' c'"
proof -
  have inv: "store_ok E p s" "cache_synced E p c s" "index_ok E p s"
    using assms(3) by (simp_all add: published_def)
  have ik: "op_read (l_op E) s' (index_key p x) = op_read (l_op E) s (index_key p x)" for x
    by (rule upload_frame[OF engine_lawsD(1)[OF assms(1)] assms(4)]) simp_all
  have "index_ok E p s'"
    unfolding index_ok_def ik
  proof (intro allI impI)
    fix x d
    assume "op_read (l_op E) s (index_key p x) = Inr d"
    then obtain t i mb m where t: "from_utf8 d = Some t" "index_parse t = Inr i"
      and "op_read (l_op E) s (manifest_path i p) = Inr mb" "from_bytes (l_mf E) mb = Inr m"
        "file_hash m = ie_manifest_hash i"
      using inv(3) unfolding index_ok_def by blast
    then have "has_manifest E p s (ie_manifest_hash i)"
      unfolding assms(2) manifest_path_normal by (auto simp: has_manifest_def)
    then have "has_manifest E p s' (ie_manifest_hash i)"
      by (rule upload_store(2)[OF assms(1) inv(1) assms(4)])
    with t show "\<exists>t i mb m. from_utf8 d = Some t \<and> index_parse t = Inr i \<and>
        op_read (l_op E) s' (manifest_path i p) = Inr mb \<and> from_bytes (l_mf E) mb = Inr m \<and>
        file_hash m = ie_manifest_hash i"
      unfolding assms(2) manifest_path_normal by (auto simp: has_manifest_def)
  qed
  then show ?thesis
    using upload_store(1)[OF assms(1) inv(1) assms(4)] upload_publishes(1)[OF assms(1) inv(1,2) assms(4)]
    by (simp add: published_def)
qed

lemma push_loop_published:
  assumes "engine_laws E"
  shows "published E (remote_path_prefix rp) s c \<Longrightarrow>
    push_loop E rn f root rp dev enc i ps s c n = (s', c', n') \<Longrightarrow> published E (remote_path_prefix rp) s' c'"
proof (induction ps arbitrary: i s c n)
  case (Cons lp ps)
  let ?p = "remote_path_prefix rp"
  obtain r s1 c1 where up: "upload_file_with_device E (rn i) f s c lp ?p dev (Some (rel_string root lp)) enc = (r, s1, c1)"
    using prod_cases3 by blast
  have pub: "published E ?p s1 c1"
    by (rule upload_published[OF assms refl Cons.prems(1) up])
  show ?case
  proof (cases r)
    case (Inl e)
    then show ?thesis using Cons.IH[OF pub] Cons.prems(2) up by simp
  next
    case (Inr x)
    let ?w = "op_write (l_op E) s1 (index_key ?p (rel_string root lp))
                (bytes_of_str (index_text (ur_hash x) (ur_bytes x) (word_of_nat (ur_chunks x))))"
    obtain r2 s2 where w: "?w = (r2, s2)" by (cases ?w)
    have inv: "store_ok E ?p s" "cache_synced E ?p c s" using Cons.prems(1) by (simp_all add: published_def)
    from upload_publishes(2)[OF assms inv up Inr] have "published E ?p s2 c1"
      using index_write_published[OF engine_lawsD(1)[OF assms] refl pub _ _ w] by blast
    then show ?thesis using Cons.IH[of s2 c1] Cons.prems(2) up Inr w by (simp add: Let_def)
  qed
qed simp


lemma empty_published: "published (demo_libs m) p empty_store sample_cache"
  using empty_store_ok(2)[of m p]
  by (simp add: published_def cache_synced_def index_ok_def sample_cache_def mem_operator_def)


text \<open>The totals count every file at most once.\<close>

lemma push_loop_counts:
  "push_loop E rn f root rp dev enc i ps s c (u, k, b) = (s', c', (u', k', b')) \<Longrightarrow>
   u \<le> u' \<and> k \<le> k' \<and> u' + k' \<le> u + k + length ps"
  by (induction ps arbitrary: i s c u k b)
    (fastforce simp: count_upload_def Let_def split: prod.splits sum.splits if_splits)+

end
