(* ===== verification/Fuse_Driver.thy ===== *)
theory Fuse_Driver
  imports Fuse_Cache Push_Tree
begin

text \<open>
  The FUSE driver, \<^verbatim>\<open>crates/tcfs-fuse/src/driver.rs\<close>: the virtual tree derived from index objects,
  attribute and directory queries, and the table of open file handles. A request runs against the
  store, the local file system (of the disk cache) and the clock; paths that are not UTF-8 are
  \<open>None\<close>.
\<close>

section \<open>Model\<close>

datatype errno = ENOENT | EIO | EBADF | CRASH

datatype FileType = RegularFile | Directory

record FileAttr =
  fa_size :: u64
  fa_blocks :: u64
  fa_time :: int
  fa_kind :: FileType
  fa_perm :: nat
  fa_nlink :: u32
  fa_uid :: u32
  fa_gid :: u32
  fa_blksize :: u32

record TcfsFs =
  t_prefix :: string
  t_uid :: u32
  t_gid :: u32
  t_negative :: NegativeCache
  t_disk :: DiskCache
  t_handles :: "u64 \<Rightarrow> bytes option"
  t_next_fh :: u64
  t_mount_time :: int

definition tcfs_new :: "string \<Rightarrow> path \<Rightarrow> u64 \<Rightarrow> nat \<Rightarrow> u32 \<Rightarrow> u32 \<Rightarrow> int \<Rightarrow> TcfsFs" where
  "tcfs_new rp cache_dir cache_max negative_ttl uid gid now =
     \<lparr>t_prefix = rp, t_uid = uid, t_gid = gid, t_negative = nc_new negative_ttl,
      t_disk = \<lparr>dc_dir = cache_dir, dc_max_bytes = cache_max\<rparr>, t_handles = (\<lambda>_. None), t_next_fh = 1,
      t_mount_time = now\<rparr>"

definition index_key_for :: "TcfsFs \<Rightarrow> string \<Rightarrow> string option" where
  "index_key_for x vpath =
     (let rel = trim_start_matches slash vpath
      in if rel = [] then None
         else Some (trim_end_matches slash (t_prefix x) @ ''/index/'' @
                (case strip_suffix ''.tc'' rel of
                   Some r \<Rightarrow> r
                 | None \<Rightarrow> (case strip_suffix ''.tcf'' rel of Some r \<Rightarrow> r | None \<Rightarrow> rel))))"

definition index_prefix_for_dir :: "TcfsFs \<Rightarrow> string \<Rightarrow> string" where
  "index_prefix_for_dir x vdir =
     (let rel = trim_end_matches slash (trim_start_matches slash vdir); rp = trim_end_matches slash (t_prefix x)
      in if rel = [] then rp @ ''/index/'' else rp @ ''/index/'' @ rel @ ''/'')"

definition read_index :: "'s operator \<Rightarrow> 's \<Rightarrow> string \<Rightarrow> IndexEntry option" where
  "read_index opr s key =
     (case op_read opr s key of
        Inl _ \<Rightarrow> None
      | Inr d \<Rightarrow>
          (case from_utf8 d of
             None \<Rightarrow> None
           | Some t \<Rightarrow> (case index_parse t of Inl _ \<Rightarrow> None | Inr i \<Rightarrow> Some i)))"

definition get_index_entry :: "'s operator \<Rightarrow> 's \<Rightarrow> TcfsFs \<Rightarrow> string \<Rightarrow> IndexEntry option" where
  "get_index_entry opr s x vpath = Option.bind (index_key_for x vpath) (read_index opr s)"

text \<open>Text that is not UTF-8 counts as the empty text here, which does not parse either.\<close>

definition read_index_entry_size :: "'s operator \<Rightarrow> 's \<Rightarrow> string \<Rightarrow> u64" where
  "read_index_entry_size opr s key =
     (case op_read opr s key of
        Inl _ \<Rightarrow> 0
      | Inr d \<Rightarrow>
          (case index_parse (case from_utf8 d of None \<Rightarrow> [] | Some t \<Rightarrow> t) of Inl _ \<Rightarrow> 0 | Inr i \<Rightarrow> ie_size i))"

definition div_ceil_512 :: "u64 \<Rightarrow> u64" where
  "div_ceil_512 n = n div 512 + (if n mod 512 = 0 then 0 else 1)"

definition file_attr :: "TcfsFs \<Rightarrow> u64 \<Rightarrow> FileAttr" where
  "file_attr x sz =
     \<lparr>fa_size = sz, fa_blocks = div_ceil_512 sz, fa_time = t_mount_time x, fa_kind = RegularFile, fa_perm = 292,
      fa_nlink = 1, fa_uid = t_uid x, fa_gid = t_gid x, fa_blksize = 4096\<rparr>"

definition dir_attr :: "TcfsFs \<Rightarrow> FileAttr" where
  "dir_attr x =
     \<lparr>fa_size = 0, fa_blocks = 0, fa_time = t_mount_time x, fa_kind = Directory, fa_perm = 365,
      fa_nlink = 2, fa_uid = t_uid x, fa_gid = t_gid x, fa_blksize = 4096\<rparr>"

definition is_stub_name :: "string \<Rightarrow> bool" where
  "is_stub_name s \<longleftrightarrow> ends_with ''.tc'' s \<or> ends_with ''.tcf'' s"

text \<open>The part shared by \<^verbatim>\<open>getattr\<close> and \<^verbatim>\<open>lookup\<close>: \<open>stub\<close> tells whether the name is a stub's.\<close>

definition resolve :: "'s operator \<Rightarrow> 's \<Rightarrow> nat \<Rightarrow> TcfsFs \<Rightarrow> string \<Rightarrow> bool \<Rightarrow> (errno + FileAttr) \<times> TcfsFs" where
  "resolve opr s now x vpath stub =
     (let absent = (Inl ENOENT, x\<lparr>t_negative := nc_insert now (t_negative x) vpath\<rparr>)
      in if is_negative now (t_negative x) vpath then (Inl ENOENT, x)
         else if stub then
           (case get_index_entry opr s x vpath of
              Some i \<Rightarrow> (Inr (file_attr x (ie_size i)), x)
            | None \<Rightarrow> absent)
         else (case op_list opr s (index_prefix_for_dir x vpath) of
                 Inr es \<Rightarrow> if es \<noteq> [] then (Inr (dir_attr x), x) else absent
               | Inl _ \<Rightarrow> absent))"

definition getattr :: "'s operator \<Rightarrow> 's \<Rightarrow> nat \<Rightarrow> TcfsFs \<Rightarrow> string option \<Rightarrow> (errno + FileAttr) \<times> TcfsFs" where
  "getattr opr s now x p =
     (case p of
        None \<Rightarrow> (Inl ENOENT, x)
      | Some vpath \<Rightarrow>
          if vpath = ''/'' then (Inr (dir_attr x), x)
          else resolve opr s now x vpath (is_stub_name vpath))"

definition child_path :: "string \<Rightarrow> string \<Rightarrow> string" where
  "child_path parent name =
     (if parent = ''/'' then ''/'' @ name else trim_end_matches slash parent @ ''/'' @ name)"

definition fuse_lookup ::
  "'s operator \<Rightarrow> 's \<Rightarrow> nat \<Rightarrow> TcfsFs \<Rightarrow> string option \<Rightarrow> string option \<Rightarrow> (errno + FileAttr) \<times> TcfsFs" where
  "fuse_lookup opr s now x parent name =
     (case name of
        None \<Rightarrow> (Inl ENOENT, x)
      | Some n \<Rightarrow>
          resolve opr s now x (child_path (case parent of None \<Rightarrow> ''/'' | Some p \<Rightarrow> p) n) (is_stub_name n))"

subsection \<open>Directory listings\<close>

record 'a DirectoryEntry =
  de_kind :: FileType
  de_name :: string
  de_offset :: int
  de_attr :: 'a

text \<open>\<^verbatim>\<open>str::trim_start_matches(&str)\<close> removes the pattern as often as it occurs in front.\<close>

function trim_start_str :: "string \<Rightarrow> string \<Rightarrow> string" where
  "trim_start_str p s =
     (if p = [] then s else (case strip_prefix p s of None \<Rightarrow> s | Some r \<Rightarrow> trim_start_str p r))"
  by pat_completeness auto
termination
  by (relation "measure (\<lambda>(p, s). length s)") (auto simp: strip_prefix_iff)

declare trim_start_str.simps [simp del]

definition entry_rel :: "string \<Rightarrow> string \<Rightarrow> string" where
  "entry_rel ip full = trim_start_matches slash (trim_start_str ip full)"

text \<open>The loop over the listed objects; \<open>fattr\<close> and \<open>dattr\<close> give the attributes of the plus variant.\<close>

fun dir_loop ::
  "(string \<Rightarrow> 'a) \<Rightarrow> 'a \<Rightarrow> string \<Rightarrow> int \<Rightarrow> string set \<Rightarrow> int \<Rightarrow> string list \<Rightarrow> 'a DirectoryEntry list" where
  "dir_loop fattr dattr ip off seen nxt [] = []"
| "dir_loop fattr dattr ip off seen nxt (full # r) =
     (let rel = entry_rel ip full; first = hd (split_on slash rel)
      in if rel = [] then dir_loop fattr dattr ip off seen nxt r
         else if slash \<in> set rel then
           (let dn = trim_end_matches slash first
            in if dn \<in> seen then dir_loop fattr dattr ip off seen nxt r
               else (if nxt > off
                     then [\<lparr>de_kind = Directory, de_name = dn, de_offset = nxt, de_attr = dattr\<rparr>] else []) @
                    dir_loop fattr dattr ip off (insert dn seen) (nxt + 1) r)
         else (if nxt > off
               then [\<lparr>de_kind = RegularFile, de_name = first @ ''.tc'', de_offset = nxt, de_attr = fattr full\<rparr>]
               else []) @
              dir_loop fattr dattr ip off seen (nxt + 1) r)"

definition dir_listing ::
  "'s operator \<Rightarrow> 's \<Rightarrow> TcfsFs \<Rightarrow> (string \<Rightarrow> 'a) \<Rightarrow> 'a \<Rightarrow> string option \<Rightarrow> int \<Rightarrow> errno + 'a DirectoryEntry list" where
  "dir_listing opr s x fattr dattr p off =
     (let ip = index_prefix_for_dir x (case p of None \<Rightarrow> ''/'' | Some q \<Rightarrow> q)
      in case op_list opr s ip of
           Inl _ \<Rightarrow> Inl EIO
         | Inr raw \<Rightarrow>
             Inr ((if off = 0 then [\<lparr>de_kind = Directory, de_name = ''.'', de_offset = 1, de_attr = dattr\<rparr>] else []) @
                  (if off \<le> 1 then [\<lparr>de_kind = Directory, de_name = ''..'', de_offset = 2, de_attr = dattr\<rparr>] else []) @
                  dir_loop fattr dattr ip off {} 3 raw))"

definition readdir :: "'s operator \<Rightarrow> 's \<Rightarrow> TcfsFs \<Rightarrow> string option \<Rightarrow> int \<Rightarrow> errno + unit DirectoryEntry list" where
  "readdir opr s x p off = dir_listing opr s x (\<lambda>_. ()) () p off"

definition readdirplus ::
  "'s operator \<Rightarrow> 's \<Rightarrow> TcfsFs \<Rightarrow> string option \<Rightarrow> u64 \<Rightarrow> errno + FileAttr DirectoryEntry list" where
  "readdirplus opr s x p off =
     dir_listing opr s x (\<lambda>k. file_attr x (read_index_entry_size opr s k)) (dir_attr x) p (sint off)"

subsection \<open>Open files\<close>

definition opendir :: "u64" where
  "opendir = 0"

text \<open>A failed hydration is \<^verbatim>\<open>EIO\<close>; a panic in it takes the request down.\<close>

definition open_errno :: "err \<Rightarrow> errno" where
  "open_errno e = (case e of EPanic _ \<Rightarrow> CRASH | _ \<Rightarrow> EIO)"

definition fuse_open ::
  "'s operator \<Rightarrow> rdir \<Rightarrow> 's \<Rightarrow> TcfsFs \<Rightarrow> fs \<Rightarrow> string option \<Rightarrow> (errno + u64) \<times> TcfsFs \<times> fs" where
  "fuse_open opr rd s x f p =
     (case p of
        None \<Rightarrow> (Inl ENOENT, x, f)
      | Some vpath \<Rightarrow>
          if \<not> is_stub_name vpath then (Inl ENOENT, x, f)
          else (case get_index_entry opr s x vpath of
                  None \<Rightarrow> (Inl ENOENT, x, f)
                | Some i \<Rightarrow>
                    (case fetch_cached opr rd f s (t_disk x) (manifest_path i (t_prefix x))
                            (trim_end_matches slash (t_prefix x)) of
                       (Inl e, f') \<Rightarrow> (Inl (open_errno e), x, f')
                     | (Inr d, f') \<Rightarrow>
                         (Inr (t_next_fh x),
                          x\<lparr>t_next_fh := t_next_fh x + 1, t_handles := (t_handles x)(t_next_fh x := Some d)\<rparr>, f'))))"

definition fuse_read :: "TcfsFs \<Rightarrow> u64 \<Rightarrow> u64 \<Rightarrow> u32 \<Rightarrow> errno + bytes" where
  "fuse_read x fh off sz =
     (case t_handles x fh of
        None \<Rightarrow> Inl EBADF
      | Some d \<Rightarrow>
          (let start = unat off
           in if start \<ge> length d then Inr []
              else let end' = min (start + unat sz) (length d) in Inr (take (end' - start) (drop start d))))"

definition fuse_release :: "TcfsFs \<Rightarrow> u64 \<Rightarrow> TcfsFs" where
  "fuse_release x fh = x\<lparr>t_handles := (t_handles x)(fh := None)\<rparr>"

section \<open>Names and index keys\<close>

lemma index_key_stub:
  assumes "rel \<noteq> []" and "hd rel \<noteq> slash"
  shows "index_key_for x (''/'' @ rel @ ''.tc'') = Some (index_key (remote_path_prefix (t_prefix x)) rel)"
proof -
  have "trim_start_matches slash (''/'' @ rel @ ''.tc'') = rel @ ''.tc''"
    using assms by (cases rel) (simp_all add: trim_start_matches_def)
  then show ?thesis
    by (simp add: index_key_for_def index_key_def remote_path_prefix_def)
qed

lemma stub_name_ends: "is_stub_name (n @ ''.tc'')"
  by (auto simp: is_stub_name_def str_simps)

text \<open>
  C8: what the sync engine publishes is what the driver shows. Take an index object of a published
  namespace, as a push writes it: hash, size and chunk count of a file. The path with the stub suffix
  resolves (unless it was recently recorded absent) to a regular file of exactly the recorded size,
  and opening it looks up exactly the recorded entry, whose manifest path holds a manifest for the
  recorded hash.
\<close>

theorem published_file_visible:
  assumes "published E (remote_path_prefix (t_prefix x)) s c" and "rel \<noteq> []" and "hd rel \<noteq> slash"
    and "op_read (l_op E) s (index_key (remote_path_prefix (t_prefix x)) rel) = Inr (bytes_of_str (index_text h sz n))"
    and "list_all hex_digit h"
    and "\<not> is_negative now (t_negative x) (''/'' @ rel @ ''.tc'')"
  shows "\<exists>a mb m. getattr (l_op E) s now x (Some (''/'' @ rel @ ''.tc'')) = (Inr a, x) \<and>
           fa_kind a = RegularFile \<and> fa_size a = sz \<and>
           get_index_entry (l_op E) s x (''/'' @ rel @ ''.tc'') = Some \<lparr>ie_manifest_hash = h, ie_size = sz, ie_chunks = n\<rparr> \<and>
           op_read (l_op E) s (manifest_path \<lparr>ie_manifest_hash = h, ie_size = sz, ie_chunks = n\<rparr> (t_prefix x)) = Inr mb \<and>
           from_bytes (l_mf E) mb = Inr m \<and> file_hash m = h"
proof -
  let ?p = "remote_path_prefix (t_prefix x)" and ?i = "\<lparr>ie_manifest_hash = h, ie_size = sz, ie_chunks = n\<rparr>"
  have t: "from_utf8 (bytes_of_str (index_text h sz n)) = Some (index_text h sz n)" "index_parse (index_text h sz n) = Inr ?i"
    using index_text_ascii[OF assms(5)] index_round_trip[OF hex_plain[OF assms(5)]] by simp_all
  then obtain mb m where m: "op_read (l_op E) s (manifest_path ?i ?p) = Inr mb" "from_bytes (l_mf E) mb = Inr m" "file_hash m = h"
    using assms(1,4) unfolding published_def index_ok_def by fastforce
  have mp: "manifest_path ?i (t_prefix x) = manifest_path ?i ?p"
    by (simp add: manifest_path_def remote_path_prefix_def)
  have get: "get_index_entry (l_op E) s x (''/'' @ rel @ ''.tc'') = Some ?i"
    using assms(4) t by (simp only: get_index_entry_def index_key_stub[OF assms(2,3)]) (simp add: read_index_def)
  have "is_stub_name (''/'' @ rel @ ''.tc'')"
    using stub_name_ends[of "''/'' @ rel"] by simp
  moreover have "''/'' @ rel @ ''.tc'' \<noteq> ''/''" by simp
  ultimately have "getattr (l_op E) s now x (Some (''/'' @ rel @ ''.tc'')) = (Inr (file_attr x sz), x)"
    using get assms(6) by (simp add: getattr_def resolve_def del: append_Cons append_Nil)
  then show ?thesis
    using get m mp by (intro exI[of _ "file_attr x sz"] exI[of _ mb] exI[of _ m]) (simp add: file_attr_def)
qed

definition visible_store :: "string \<Rightarrow> bytes option" where
  "visible_store = (\<lambda>_. None)(''p/index/a'' := Some (bytes_of_str (index_text ''ab'' 7 1)),
     ''p/manifests/ab'' := Some (bytes_of_str ''{m}''))"

theorem published_file_visible_witness:
  "\<exists>a. getattr mem_operator visible_store 0 (tcfs_new ''p/'' (path_of ''/c'') 100 30 0 0 0) (Some ''/a.tc'') =
     (Inr a, tcfs_new ''p/'' (path_of ''/c'') 100 30 0 0 0) \<and> fa_kind a = RegularFile \<and> fa_size a = 7"
proof -
  let ?E = "demo_libs sample_manifest" and ?x = "tcfs_new ''p/'' (path_of ''/c'') 100 30 0 0 0"
  have p: "remote_path_prefix (t_prefix ?x) = ''p''"
    by (simp add: tcfs_new_def) code_simp
  have mf: "file_hash sample_manifest = ''ab''" by (simp add: sample_manifest_def)
  have ch: "chunk_key ''p'' h \<noteq> ''p/index/a'' \<and> chunk_key ''p'' h \<noteq> ''p/manifests/ab''" for h
    by (simp add: chunk_key_def)
  have mk: "manifest_key ''p'' h = ''p/manifests/ab'' \<longleftrightarrow> h = ''ab''" "manifest_key ''p'' h \<noteq> ''p/index/a''" for h
    by (simp_all add: manifest_key_def)
  have ik: "index_key ''p'' r = ''p/index/a'' \<longleftrightarrow> r = ''a''" "index_key ''p'' r \<noteq> ''p/manifests/ab''" for r
    by (simp_all add: index_key_def)
  have fb: "from_bytes (one_manifest_codec sample_manifest) (bytes_of_str ''{m}'') = Inr sample_manifest"
    by (rule to_bytes_from_bytes[OF one_manifest_codec_laws]) (simp add: to_bytes_def one_manifest_codec_def)
  have hm: "has_manifest ?E ''p'' visible_store ''ab''"
    using fb mf by (simp add: has_manifest_def visible_store_def mem_operator_def mk)
  have st: "store_ok ?E ''p'' visible_store"
    using hm by (auto simp: store_ok_def cas_in_def manifests_ok_def visible_store_def mem_operator_def ch mk)
  have idx: "from_utf8 (bytes_of_str (index_text ''ab'' 7 1)) = Some (index_text ''ab'' 7 1)"
    "index_parse (index_text ''ab'' 7 1) = Inr \<lparr>ie_manifest_hash = ''ab'', ie_size = 7, ie_chunks = 1\<rparr>"
    using index_text_ascii[of "''ab''" 7 1] index_round_trip[of "''ab''" 7 1]
    by (simp_all add: hex_digit_def plain_line_def)
  have mp: "manifest_path \<lparr>ie_manifest_hash = ''ab'', ie_size = 7, ie_chunks = 1\<rparr> ''p'' = ''p/manifests/ab''"
    by code_simp
  have rd: "op_read mem_operator visible_store (index_key ''p'' r) = Inr d \<longleftrightarrow>
      r = ''a'' \<and> d = bytes_of_str (index_text ''ab'' 7 1)" for r d
    by (auto simp: visible_store_def mem_operator_def ik)
  have mrd: "op_read mem_operator visible_store ''p/manifests/ab'' = Inr (bytes_of_str ''{m}'')"
    by (simp add: visible_store_def mem_operator_def)
  have "index_ok ?E ''p'' visible_store"
    unfolding index_ok_def using rd idx mp mrd fb mf by auto
  with st have pub: "published ?E ''p'' visible_store sample_cache"
    by (simp add: published_def cache_synced_def sample_cache_def)
  have "op_read (l_op ?E) visible_store (index_key ''p'' ''a'') = Inr (bytes_of_str (index_text ''ab'' 7 1))"
    using rd by simp
  moreover have "\<not> is_negative 0 (t_negative ?x) (''/'' @ ''a'' @ ''.tc'')"
    by (simp add: tcfs_new_def is_negative_def nc_new_def)
  ultimately show ?thesis
    using published_file_visible[of ?E ?x visible_store sample_cache "''a''" "''ab''" 7 1 0] pub
    unfolding p by (auto simp: hex_digit_def)
qed

section \<open>Listings\<close>

lemma dir_loop_resume:
  "0 \<le> off \<Longrightarrow> 0 < nxt \<Longrightarrow>
   dir_loop fa da ip off seen nxt r = filter (\<lambda>e. off < de_offset e) (dir_loop fa da ip 0 seen nxt r)"
proof (induction r arbitrary: seen nxt)
  case (Cons full r)
  then have IH: "dir_loop fa da ip off sn (nxt + 1) r = filter (\<lambda>e. off < de_offset e) (dir_loop fa da ip 0 sn (nxt + 1) r)"
    "dir_loop fa da ip off sn nxt r = filter (\<lambda>e. off < de_offset e) (dir_loop fa da ip 0 sn nxt r)" for sn
    by simp_all
  from Cons.prems show ?case
    by (simp only: dir_loop.simps Let_def IH) simp
qed simp

lemma dir_loop_offsets:
  "e \<in> set (dir_loop fa da ip off seen nxt r) \<Longrightarrow> nxt \<le> de_offset e"
proof (induction r arbitrary: seen nxt)
  case (Cons full r)
  then show ?case
    by (fastforce simp: Let_def split: if_splits)
qed simp

lemma dir_loop_increasing: "sorted_wrt (<) (map de_offset (dir_loop fa da ip off seen nxt r))"
proof (induction r arbitrary: seen nxt)
  case (Cons full r)
  then show ?case
    using dir_loop_offsets[of _ fa da ip off _ "nxt + 1" r] by (fastforce simp: Let_def)
qed simp

text \<open>
  A directory listing can be resumed. The entries of a listing carry strictly increasing
  offsets, and asking again from an offset the kernel was given returns exactly the entries after
  it, so no entry is repeated or lost however the listing is split into requests.
\<close>

theorem readdir_resume:
  assumes "0 \<le> off" and "dir_listing opr s x fa da p 0 = Inr full"
  shows "dir_listing opr s x fa da p off = Inr (filter (\<lambda>e. off < de_offset e) full) \<and>
         sorted_wrt (<) (map de_offset full)"
proof -
  let ?ip = "index_prefix_for_dir x (case p of None \<Rightarrow> ''/'' | Some q \<Rightarrow> q)"
  obtain raw where raw: "op_list opr s ?ip = Inr raw"
    and full: "full = \<lparr>de_kind = Directory, de_name = ''.'', de_offset = 1, de_attr = da\<rparr> #
       \<lparr>de_kind = Directory, de_name = ''..'', de_offset = 2, de_attr = da\<rparr> # dir_loop fa da ?ip 0 {} 3 raw"
    using assms(2) by (auto simp: dir_listing_def Let_def split: sum.splits)
  have "sorted_wrt (<) (map de_offset full)"
    using dir_loop_increasing[of fa da ?ip 0 "{}" 3 raw] dir_loop_offsets[of _ fa da ?ip 0 "{}" 3 raw]
    by (force simp: full)
  moreover have "dir_listing opr s x fa da p off = Inr (filter (\<lambda>e. off < de_offset e) full)"
    using assms(1) raw dir_loop_resume[of off 3 fa da ?ip "{}" raw]
    by (simp add: dir_listing_def Let_def full)
  ultimately show ?thesis by blast
qed

definition list_operator :: "(string \<Rightarrow> string list) operator" where
  "list_operator = \<lparr>op_read = (\<lambda>s k. Err (EStorage ''read'' k)), op_write = (\<lambda>s k d. (Err (EStorage ''write'' k), s)),
     op_exists = (\<lambda>s k. Ok False), op_list = (\<lambda>s k. Ok (s k))\<rparr>"

theorem readdir_resume_witness:
  "\<exists>full. readdir list_operator (\<lambda>_. [''p/index/a'', ''p/index/d/'']) (tcfs_new ''p'' (path_of ''/c'') 9 9 0 0 0) (Some ''/'') 0 =
      Inr full \<and>
    readdir list_operator (\<lambda>_. [''p/index/a'', ''p/index/d/'']) (tcfs_new ''p'' (path_of ''/c'') 9 9 0 0 0) (Some ''/'') 2 =
      Inr (filter (\<lambda>e. 2 < de_offset e) full)"
proof -
  obtain full where "dir_listing list_operator (\<lambda>_. [''p/index/a'', ''p/index/d/''])
      (tcfs_new ''p'' (path_of ''/c'') 9 9 0 0 0) (\<lambda>_. ()) () (Some ''/'') 0 = Inr full"
    by (simp add: dir_listing_def list_operator_def Let_def)
  with readdir_resume[OF _ this, of 2] show ?thesis by (auto simp: readdir_def)
qed

lemma trim_start_str_once:
  "p \<noteq> [] \<Longrightarrow> strip_prefix p n = None \<Longrightarrow> trim_start_str p (p @ n) = n"
  by (subst trim_start_str.simps) (simp add: trim_start_str.simps[of p n])

lemma entry_rel_child:
  assumes "slash \<notin> set n" and "n \<noteq> []" and "slash \<in> set ip"
  shows "entry_rel ip (ip @ n) = n"
proof -
  have "strip_prefix ip n = None"
    using assms(1,3) by (cases "strip_prefix ip n") (auto simp: strip_prefix_iff)
  moreover have "hd n \<noteq> slash" using assms(1,2) by (cases n) auto
  moreover have "ip \<noteq> []" using assms(3) by auto
  ultimately show ?thesis
    using assms(2) trim_start_str_once[of ip n] trim_start_matches_id[OF assms(2), of slash]
    by (auto simp: entry_rel_def)
qed

lemma index_prefix_slash: "slash \<in> set (index_prefix_for_dir x d)"
  by (simp add: index_prefix_for_dir_def Let_def)

lemma dir_loop_lists:
  assumes "slash \<notin> set n" and "n \<noteq> []" and "0 < nxt"
  shows "\<exists>e \<in> set (dir_loop (\<lambda>_. ()) () (index_prefix_for_dir x dir) 0 seen nxt
           (pre @ (index_prefix_for_dir x dir @ n) # post)). de_kind e = RegularFile \<and> de_name e = n @ ''.tc''"
  using assms(3)
proof (induction pre arbitrary: seen nxt)
  case Nil
  then show ?case
    using assms(1,2) entry_rel_child[OF assms(1,2) index_prefix_slash[of x dir]]
    by (simp add: Let_def split_on_no_sep)
next
  case (Cons q pre)
  have "\<exists>e \<in> set (dir_loop (\<lambda>_. ()) () (index_prefix_for_dir x dir) 0 sn m (pre @ (index_prefix_for_dir x dir @ n) # post)).
    de_kind e = RegularFile \<and> de_name e = n @ ''.tc''" if "m = nxt \<or> m = nxt + 1" for sn m
    using Cons.IH[of m sn] Cons.prems that by auto
  then show ?case by (simp add: Let_def) blast
qed

text \<open>
  Listings and lookups agree. Every object directly below a directory of the virtual tree is
  listed as a regular file under its stub name, and resolving that name in that directory leads
  back to the same index object, for the root and for every nested directory.
\<close>

theorem listed_file_resolves:
  assumes "dir = ''/'' \<or> (\<exists>r. dir = ''/'' @ r \<and> r \<noteq> [] \<and> hd r \<noteq> slash \<and> last r \<noteq> slash)"
    and "slash \<notin> set n" and "n \<noteq> []"
    and "op_list opr s (index_prefix_for_dir x dir) = Inr (pre @ (index_prefix_for_dir x dir @ n) # post)"
  shows "(\<exists>es. readdir opr s x (Some dir) 0 = Inr es \<and>
            (\<exists>e \<in> set es. de_kind e = RegularFile \<and> de_name e = n @ ''.tc'')) \<and>
         index_key_for x (child_path dir (n @ ''.tc'')) = Some (index_prefix_for_dir x dir @ n)"
proof
  let ?ip = "index_prefix_for_dir x dir"
  have hn: "hd n \<noteq> slash" using assms(2,3) by (cases n) auto
  show "\<exists>es. readdir opr s x (Some dir) 0 = Inr es \<and>
      (\<exists>e \<in> set es. de_kind e = RegularFile \<and> de_name e = n @ ''.tc'')"
    using assms(4) dir_loop_lists[OF assms(2,3), of 3 x dir "{}" pre post] by (auto simp: readdir_def dir_listing_def Let_def)
  show "index_key_for x (child_path dir (n @ ''.tc'')) = Some (?ip @ n)"
    using assms(1)
  proof
    assume d: "dir = ''/''"
    have "index_key_for x (''/'' @ n @ ''.tc'') = Some (index_key (remote_path_prefix (t_prefix x)) n)"
      by (rule index_key_stub[OF assms(3) hn])
    then show ?thesis
      by (simp add: d child_path_def index_prefix_for_dir_def index_key_def remote_path_prefix_def
          trim_start_matches_def)
  next
    assume "\<exists>r. dir = ''/'' @ r \<and> r \<noteq> [] \<and> hd r \<noteq> slash \<and> last r \<noteq> slash"
    then obtain r where d: "dir = ''/'' @ r" and r: "r \<noteq> []" "hd r \<noteq> slash" "last r \<noteq> slash" by blast
    have "index_key_for x (''/'' @ (r @ ''/'' @ n) @ ''.tc'') =
        Some (index_key (remote_path_prefix (t_prefix x)) (r @ ''/'' @ n))"
      by (rule index_key_stub) (use r in simp_all)
    moreover have "trim_end_matches slash dir = dir" "trim_end_matches slash r = r" "trim_start_matches slash dir = r"
      using r by (simp_all add: d trim_end_matches_id trim_start_matches_def trim_start_matches_id[unfolded trim_start_matches_def])
    ultimately show ?thesis
      using r by (simp add: d child_path_def index_prefix_for_dir_def index_key_def remote_path_prefix_def Let_def)
  qed
qed

theorem listed_file_resolves_witness:
  "index_key_for (tcfs_new ''p'' (path_of ''/c'') 9 9 0 0 0) (child_path ''/src'' ''main.rs.tc'') =
     Some ''p/index/src/main.rs''"
proof -
  let ?x = "tcfs_new ''p'' (path_of ''/c'') 9 9 0 0 0"
  have ip: "index_prefix_for_dir ?x ''/src'' = ''p/index/src/''" by code_simp
  have "op_list list_operator (\<lambda>_. [''p/index/src/main.rs'']) (index_prefix_for_dir ?x ''/src'') =
      Inr ([] @ (index_prefix_for_dir ?x ''/src'' @ ''main.rs'') # [])"
    by (simp add: ip list_operator_def)
  then show ?thesis
    using listed_file_resolves[of "''/src''" "''main.rs''" list_operator "\<lambda>_. [''p/index/src/main.rs'']" ?x "[]" "[]"]
    by (simp add: ip)
qed

section \<open>File handles\<close>

datatype fuse_event =
    EvOpen "string option"
  | EvRelease u64
  | EvRead u64 u64 u32
  | EvGetattr "string option"
  | EvLookup "string option" "string option"

text \<open>One request, run at its own time against its own state of the store.\<close>

fun serve :: "'s operator \<Rightarrow> rdir \<Rightarrow> TcfsFs \<times> fs \<Rightarrow> fuse_event \<times> nat \<times> 's \<Rightarrow> TcfsFs \<times> fs" where
  "serve opr rd (x, f) (EvOpen p, now, s) = snd (fuse_open opr rd s x f p)"
| "serve opr rd (x, f) (EvRelease fh, now, s) = (fuse_release x fh, f)"
| "serve opr rd (x, f) (EvRead fh off sz, now, s) = (x, f)"
| "serve opr rd (x, f) (EvGetattr p, now, s) = (snd (getattr opr s now x p), f)"
| "serve opr rd (x, f) (EvLookup d n, now, s) = (snd (fuse_lookup opr s now x d n), f)"

text \<open>
  \<^verbatim>\<open>mount\<close>: set up the session and serve requests until the file system is unmounted. What the session
  gives is an argument: the user, the time, whether the mount succeeds, the requests and the end.
\<close>

record 's MountConfig =
  mt_op :: "'s operator"
  mt_prefix :: string
  mt_mountpoint :: path
  mt_cache_dir :: path
  mt_cache_max_bytes :: u64
  mt_negative_ttl_secs :: u64
  mt_read_only :: bool
  mt_allow_other :: bool

record 's mount_session =
  ms_uid :: u32
  ms_gid :: u32
  ms_now :: int
  ms_mounted :: "unit res"
  ms_requests :: "(fuse_event \<times> nat \<times> 's) list"
  ms_ended :: "unit res"

definition fuse_mount :: "rdir \<Rightarrow> 's mount_session \<Rightarrow> 's MountConfig \<Rightarrow> fs \<Rightarrow> unit res \<times> fs" where
  "fuse_mount rd S m f =
     (let x = tcfs_new (mt_prefix m) (mt_cache_dir m) (mt_cache_max_bytes m) (unat (mt_negative_ttl_secs m))
                (ms_uid S) (ms_gid S) (ms_now S)
      in case ms_mounted S of
           Inl e \<Rightarrow> (Inl e, f)
         | Inr _ \<Rightarrow> (ms_ended S, snd (foldl (serve (mt_op m) rd) (x, f) (ms_requests S))))"

section \<open>A mount changes only its cache directory\<close>

text \<open>A directory listing names paths below the directory.\<close>

definition lists_below :: "rdir \<Rightarrow> bool" where
  "lists_below rd \<longleftrightarrow> (\<forall>f d ps p. rd f d = Ok ps \<and> p \<in> set ps \<longrightarrow> is_ancestor d p)"

lemma is_ancestor_trans: "is_ancestor a b \<Longrightarrow> is_ancestor b c \<Longrightarrow> is_ancestor a c"
  by (auto simp: is_ancestor_def)

lemma map_res_set: "map_res g xs = Inr ys \<Longrightarrow> y \<in> set ys \<Longrightarrow> \<exists>x \<in> set xs. g x = Inr y"
  by (induction xs arbitrary: ys) (auto split: sum.splits)

lemma scan_below:
  assumes "lists_below rd" and "scan_cache rd f c = Inr es" and "(p, sz, t) \<in> set es"
  shows "is_ancestor (dc_dir c) p"
proof -
  obtain shards ess where ss: "rd f (dc_dir c) = Inr shards" "map_res (scan_shard rd f) shards = Inr ess" "es = concat ess"
    using assms(2) by (auto simp: scan_cache_def split: sum.splits)
  then obtain sh l where sh: "sh \<in> set shards" "scan_shard rd f sh = Inr l" "(p, sz, t) \<in> set l"
    using assms(3) map_res_set by fastforce
  then obtain ps ls where ps: "rd f sh = Inr ps" "map_res (scan_entry f) ps = Inr ls" "(p, sz, t) \<in> set (concat ls)"
    by (auto simp: scan_shard_def split: sum.splits if_splits)
  then obtain q l' where "q \<in> set ps" "scan_entry f q = Inr l'" "(p, sz, t) \<in> set l'"
    using map_res_set by fastforce
  then have "p \<in> set ps" by (auto simp: scan_entry_def split: sum.splits if_splits prod.splits)
  then show ?thesis
    using assms(1) ss(1) sh(1) ps(1) is_ancestor_trans unfolding lists_below_def by blast
qed

lemma evict_below:
  assumes "lists_below rd" and "\<not> is_ancestor (dc_dir c) q"
  shows "files (snd (evict_if_needed rd f c)) q = files f q"
proof -
  have loop: "files (evict_loop mx tot es f) q = files f q" if "\<forall>(p, sz, t) \<in> set es. p \<noteq> q" for mx tot es
    using that
  proof (induction mx tot es f rule: evict_loop.induct)
    case (2 mx tot p sz t r f)
    have "files (snd (fs_remove_file f p)) q = files f q" using 2(2) by (auto simp: fs_remove_file_def)
    with 2 show ?case by auto
  qed simp
  have "\<forall>(p, sz, t) \<in> set es. p \<noteq> q" if "scan_cache rd f c = Inr es" for es
    using scan_below[OF assms(1) that] assms(2) by auto
  then show ?thesis
    using loop by (auto simp: evict_if_needed_def Let_def split: sum.splits)
qed

lemma path_for_below:
  assumes "path_for c (cache_key_for_path mp) = Inr p"
  shows "is_ancestor (dc_dir c) p" and "is_ancestor (dc_dir c) (with_extension p ''tmp'')"
proof -
  let ?key = "cache_key_for_path mp"
  have rel: "\<not> p_abs (path_of k)" "p_comps (path_of k) = (if k = [] then [] else [k])" if "slash \<notin> set k" for k
    using that by (auto simp: path_of_def Let_def split_on_no_sep starts_with_iff)
  have key: "slash \<notin> set ?key" by (auto simp: cache_key_for_path_def rsplit_first_def dest: set_takeWhileD)
  define sh where "sh = (if length ?key \<ge> 2 then take 2 ?key else ''xx'')"
  have "length sh = 2" by (simp add: sh_def)
  then have sh: "slash \<notin> set sh" "sh \<noteq> []" "sh \<noteq> ''.''"
    using key by (auto simp: sh_def dest: in_set_takeD)
  have "p = path_join (path_join (dc_dir c) (path_of sh)) (path_of ?key)"
    using assms by (auto simp: path_for_def sh_def split: if_splits)
  then have "p_abs p = p_abs (dc_dir c)" "\<exists>l. p_comps p = p_comps (dc_dir c) @ sh # l"
    using rel[OF sh(1)] rel[OF key] sh by (auto simp: path_join_def)
  then obtain l where p: "p_abs p = p_abs (dc_dir c)" "p_comps p = p_comps (dc_dir c) @ sh # l" by blast
  then show "is_ancestor (dc_dir c) p" by (simp add: is_ancestor_def)
  have "butlast (p_comps p) = p_comps (dc_dir c) @ butlast (sh # l)" by (simp add: p butlast_append)
  then show "is_ancestor (dc_dir c) (with_extension p ''tmp'')"
    using p by (auto simp: with_extension_def is_ancestor_def split: option.split)
qed

lemma dc_put_below:
  assumes "lists_below rd" and "\<not> is_ancestor (dc_dir c) q"
  shows "files (snd (dc_put rd f c (cache_key_for_path mp) d)) q = files f q"
proof (cases "path_for c (cache_key_for_path mp)")
  case (Inr p)
  note below = path_for_below[OF Inr]
  obtain r f1 where e: "fs_ensure_parent f p = (r, f1)" by fastforce
  obtain r' f2 where rp: "fs_replace f1 (with_extension p ''tmp'') p d = (r', f2)" by fastforce
  have "q \<noteq> p" "q \<noteq> with_extension p ''tmp''" using below assms(2) by auto
  then have "files f2 q = files f1 q" using rp by (cases r') (auto dest: fs_replace_ok fs_replace_err)
  moreover have "files f1 q = files f q" using ensure_parent_files[of f p] e by simp
  ultimately show ?thesis
    using evict_below[OF assms, of f2] by (auto simp: dc_put_def Inr e rp split: sum.splits)
qed (simp add: dc_put_def)

lemma serve_below:
  assumes "lists_below rd" and "\<not> is_ancestor (dc_dir (t_disk x)) q" and "serve opr rd (x, f) ev = (x', f')"
  shows "files f' q = files f q \<and> t_disk x' = t_disk x"
proof -
  obtain e now s where ev: "ev = (e, now, s)" using prod_cases3 by blast
  show ?thesis
  proof (cases e)
    case (EvOpen p)
    have "files (snd (fetch_cached opr rd f s (t_disk x) mp rp)) q = files f q" for mp rp
      using dc_put_below[OF assms(1,2)] by (auto simp: fetch_cached_def split: sum.split option.split)
    then have "files g q = files f q" if "fetch_cached opr rd f s (t_disk x) mp rp = (r, g)" for mp rp r g
      using that by (metis snd_conv)
    with assms(3) show ?thesis
      by (auto simp: ev EvOpen fuse_open_def split: option.splits if_splits prod.splits sum.splits)
  qed (use assms(3) in \<open>auto simp: ev fuse_release_def getattr_def fuse_lookup_def resolve_def Let_def
      split: option.splits if_splits sum.splits\<close>)
qed

lemma fuse_mount_below:
  assumes "lists_below rd" and "\<not> is_ancestor (mt_cache_dir m) q"
  shows "files (snd (fuse_mount rd S m f)) q = files f q"
proof -
  have "files (snd (foldl (serve (mt_op m) rd) (x, f) evs)) q = files f q" if "dc_dir (t_disk x) = mt_cache_dir m" for x evs f
    using that
  proof (induction evs arbitrary: x f)
    case (Cons ev evs)
    obtain x1 f1 where st: "serve (mt_op m) rd (x, f) ev = (x1, f1)" by fastforce
    from serve_below[OF assms(1) _ st, of q] Cons assms(2) st show ?case by simp
  qed simp
  then show ?thesis by (simp add: fuse_mount_def tcfs_new_def Let_def split: sum.split)
qed

section \<open>Handles of a run\<close>

text \<open>Open handles are numbered from one and below the counter.\<close>

definition handles_ok :: "TcfsFs \<Rightarrow> bool" where
  "handles_ok x \<longleftrightarrow> 0 < t_next_fh x \<and> (\<forall>fh. t_handles x fh \<noteq> None \<longrightarrow> 0 < fh \<and> fh < t_next_fh x)"

lemma resolve_handles:
  "t_handles (snd (resolve opr s now x v b)) = t_handles x"
  "t_next_fh (snd (resolve opr s now x v b)) = t_next_fh x"
  by (auto simp: resolve_def Let_def split: option.splits sum.splits)

lemma query_handles:
  "t_handles (snd (getattr opr s now x p)) = t_handles x"
  "t_next_fh (snd (getattr opr s now x p)) = t_next_fh x"
  "t_handles (snd (fuse_lookup opr s now x d n)) = t_handles x"
  "t_next_fh (snd (fuse_lookup opr s now x d n)) = t_next_fh x"
  by (auto simp: getattr_def fuse_lookup_def resolve_handles split: option.splits)

lemma fuse_open_cases:
  assumes "fuse_open opr rd s x f p = (r, x', f')"
  obtains e where "r = Inl e" "x' = x"
  | d where "r = Inr (t_next_fh x)" "t_handles x' = (t_handles x)(t_next_fh x := Some d)"
      "t_next_fh x' = t_next_fh x + 1"
proof -
  have "(\<exists>e. r = Inl e \<and> x' = x) \<or> (\<exists>d. r = Inr (t_next_fh x) \<and>
      x' = x\<lparr>t_next_fh := t_next_fh x + 1, t_handles := (t_handles x)(t_next_fh x := Some d)\<rparr>)"
    using assms unfolding fuse_open_def
    by (simp split: option.splits sum.splits prod.splits if_splits) blast+
  with that show ?thesis by force
qed

lemma word_succ_less: "(n :: u64) \<noteq> -1 \<Longrightarrow> n < n + 1 \<and> unat (n + 1) = Suc (unat n)"
proof -
  assume "n \<noteq> -1"
  then have "n + 1 \<noteq> 0" by (metis add.commute add_eq_0_iff)
  then show ?thesis by (metis unatSuc word_less_nat_alt lessI add.commute)
qed

lemma unat_max: "unat (-1 :: u64) = 18446744073709551615"
  by (simp add: unsigned_minus_1_eq_mask mask_eq_exp_minus_1)

text \<open>One request changes the table only by an open (a fresh number) or a release (its own number).\<close>

lemma serve_handles:
  assumes "handles_ok x" and "t_next_fh x \<noteq> -1" and "serve opr rd (x, f) (ev, now, s) = (x', f')"
  shows "handles_ok x'"
    and "unat (t_next_fh x') \<le> Suc (unat (t_next_fh x))"
    and "ev \<noteq> EvRelease fh \<Longrightarrow> t_handles x fh = Some d \<Longrightarrow> t_handles x' fh = Some d"
proof -
  have "handles_ok x' \<and> unat (t_next_fh x') \<le> Suc (unat (t_next_fh x)) \<and>
        (ev \<noteq> EvRelease fh \<longrightarrow> t_handles x fh = Some d \<longrightarrow> t_handles x' fh = Some d)"
  proof (cases ev)
    case (EvOpen p)
    obtain r where o: "fuse_open opr rd s x f p = (r, x', f')"
      using assms(3) EvOpen by (cases "fuse_open opr rd s x f p") auto
    note suc = word_succ_less[OF assms(2)]
    from o show ?thesis
    proof (cases rule: fuse_open_cases)
      case (2 d')
      have "0 < t_next_fh x + 1" using assms(1) suc by (auto simp: handles_ok_def intro: less_trans)
      moreover have "fh \<noteq> t_next_fh x" if "t_handles x fh = Some d"
        using that assms(1) by (auto simp: handles_ok_def)
      ultimately show ?thesis
        using 2 suc assms(1) by (auto simp: handles_ok_def intro: less_trans)
    qed (use assms(1) in simp)
  next
    case (EvRelease g)
    then show ?thesis using assms(1,3) by (auto simp: fuse_release_def handles_ok_def split: if_splits)
  next
    case (EvGetattr p)
    then show ?thesis using assms(1,3) by (auto simp: handles_ok_def query_handles)
  next
    case (EvLookup p n)
    then show ?thesis using assms(1,3) by (auto simp: handles_ok_def query_handles)
  qed (use assms(1,3) in simp)
  then show "handles_ok x'" "unat (t_next_fh x') \<le> Suc (unat (t_next_fh x))"
    "ev \<noteq> EvRelease fh \<Longrightarrow> t_handles x fh = Some d \<Longrightarrow> t_handles x' fh = Some d" by blast+
qed

lemma serve_run:
  "handles_ok x \<Longrightarrow> unat (t_next_fh x) + length evs < 2 ^ 64 \<Longrightarrow>
   foldl (serve opr rd) (x, f) evs = (x', f') \<Longrightarrow>
   (\<forall>e \<in> set evs. fst e \<noteq> EvRelease fh) \<Longrightarrow> t_handles x fh = Some d \<Longrightarrow>
   handles_ok x' \<and> t_handles x' fh = Some d"
proof (induction evs arbitrary: x f)
  case (Cons e evs)
  obtain ev now s where e: "e = (ev, now, s)" by (cases e)
  obtain x1 f1 where st: "serve opr rd (x, f) (ev, now, s) = (x1, f1)" by (cases "serve opr rd (x, f) (ev, now, s)")
  have nw: "t_next_fh x \<noteq> -1"
    using Cons.prems(2) by (auto simp: unat_max)
  note h = serve_handles[OF Cons.prems(1) nw st]
  show ?case
    using Cons.IH[OF h(1), of f1] h(2) h(3)[of fh d] Cons.prems st e by auto
qed simp

text \<open>
  C18: an open file is a stable snapshot. A successful open takes a handle number that is in use by
  no other open file (and is not the directory handle), and until that handle is released every
  read through it returns the requested range of the content fetched at open time, whatever other
  requests are served in between and however the store changes, as long as fewer than 2^64 files
  are opened.
\<close>

theorem open_file_is_snapshot:
  assumes "handles_ok x" and "fuse_open opr rd s x f p = (Inr fh, x1, f1)"
    and "foldl (serve opr rd) (x1, f1) evs = (x2, f2)" and "\<forall>e \<in> set evs. fst e \<noteq> EvRelease fh"
    and "unat (t_next_fh x) + Suc (length evs) < 2 ^ 64"
  shows "\<exists>d. t_handles x1 fh = Some d \<and> t_handles x fh = None \<and> fh \<noteq> opendir \<and>
           (\<forall>off sz. fuse_read x2 fh off sz = Inr (take (unat sz) (drop (unat off) d)))"
proof -
  from assms(2) obtain d where fh: "fh = t_next_fh x" and h1: "t_handles x1 = (t_handles x)(fh := Some d)"
    and n1: "t_next_fh x1 = t_next_fh x + 1"
    by (cases rule: fuse_open_cases) auto
  have nw: "t_next_fh x \<noteq> -1"
    using assms(5) by (auto simp: unat_max)
  note suc = word_succ_less[OF nw]
  have "serve opr rd (x, f) (EvOpen p, 0, s) = (x1, f1)" using assms(2) by simp
  from serve_handles(1)[OF assms(1) nw this] have ok1: "handles_ok x1" .
  have "handles_ok x2 \<and> t_handles x2 fh = Some d"
    by (rule serve_run[OF ok1 _ assms(3,4)]) (use suc assms(5) n1 h1 in simp_all)
  moreover have "t_handles x fh = None" "fh \<noteq> 0"
    using assms(1) by (auto simp: handles_ok_def fh)
  moreover have "take (min (o' + n) (length d) - o') (drop o' d) = take n (drop o' d)" for o' n
    by (simp add: min_def)
  ultimately show ?thesis
    using h1 by (auto simp: fuse_read_def Let_def opendir_def)
qed

definition open_store :: "string \<Rightarrow> bytes option" where
  "open_store = v1_store(''p/index/a'' := Some (bytes_of_str (index_text ''ab'' 2 2)))"

definition fresh_mount :: TcfsFs where
  "fresh_mount = tcfs_new ''p'' (path_of ''/c'') 100 30 0 0 0"

definition is_right :: "'a + 'b \<Rightarrow> bool" where
  "is_right r = (case r of Inl _ \<Rightarrow> False | Inr _ \<Rightarrow> True)"

lemma open_store_entry:
  "get_index_entry mem_operator open_store fresh_mount ''/a.tc'' =
     Some \<lparr>ie_manifest_hash = ''ab'', ie_size = 2, ie_chunks = 2\<rparr>"
proof -
  have k: "index_key_for fresh_mount ''/a.tc'' = Some ''p/index/a''" by code_simp
  have "op_read mem_operator open_store ''p/index/a'' = Inr (bytes_of_str (index_text ''ab'' 2 2))"
    by (simp add: mem_operator_def open_store_def)
  moreover have "from_utf8 (bytes_of_str (index_text ''ab'' 2 2)) = Some (index_text ''ab'' 2 2)"
    using index_text_ascii[of "''ab''" 2 2] by (simp add: hex_digit_def)
  moreover have "index_parse (index_text ''ab'' 2 2) = Inr \<lparr>ie_manifest_hash = ''ab'', ie_size = 2, ie_chunks = 2\<rparr>"
    by (rule index_round_trip) (simp add: plain_line_def)
  ultimately show ?thesis
    by (simp only: get_index_entry_def k read_index_def bind.simps sum.case option.case)
qed

lemma open_store_content: "fetch_content mem_operator open_store ''p/manifests/ab'' ''p'' = Inr [1, 2]"
proof -
  have a: "ascii_str (v1_text [''aa'', ''bb''])" by (rule v1_text_ascii) (simp add: hex_digit_def)
  have l: "str_lines (v1_text [''aa'', ''bb'']) = [''aa'', ''bb'']"
    unfolding v1_text_def by (rule str_lines_unlines) (simp add: plain_line_def)
  have t: "trim_end_matches slash ''p'' = ''p''" by code_simp
  show ?thesis
    by (simp add: fetch_content_def mem_operator_def open_store_def v1_store_def a l t chunk_key_def)
qed

theorem open_file_is_snapshot_witness:
  "\<exists>fh x1 f1 d. fuse_open mem_operator (\<lambda>_ _. Ok []) open_store fresh_mount cache_fs (Some ''/a.tc'') = (Inr fh, x1, f1) \<and>
     t_handles x1 fh = Some d \<and>
     (\<forall>off sz. fuse_read (fst (foldl (serve mem_operator (\<lambda>_ _. Ok [])) (x1, f1) [(EvGetattr (Some ''/zz''), 3, \<lambda>_. None)]))
        fh off sz = Inr (take (unat sz) (drop (unat off) d)))"
proof -
  let ?o = "fuse_open mem_operator (\<lambda>_ _. Ok []) open_store fresh_mount cache_fs (Some ''/a.tc'')"
  have c: "cache_key_for_path ''p/manifests/ab'' = ''ab''" "dc_get cache_fs (t_disk fresh_mount) ''ab'' = Inr None"
    "is_stub_name ''/a.tc''" "t_prefix fresh_mount = ''p''" "trim_end_matches slash ''p'' = ''p''"
    by code_simp+
  have "is_right (fst ?o)"
    by (simp add: fuse_open_def open_store_entry fetch_cached_def manifest_path_def c open_store_content is_right_def)
  then obtain fh x1 f1 where o: "?o = (Inr fh, x1, f1)"
    by (cases ?o) (auto simp: is_right_def split: sum.splits)
  let ?run = "foldl (serve mem_operator (\<lambda>_ _. Ok [])) (x1, f1) [(EvGetattr (Some ''/zz''), 3, \<lambda>_. None)]"
  have ok: "handles_ok fresh_mount" "unat (t_next_fh fresh_mount) = 1"
    by (simp_all add: handles_ok_def fresh_mount_def tcfs_new_def)
  obtain x2 f2 where run: "?run = (x2, f2)" by (cases ?run)
  from open_file_is_snapshot[OF ok(1) o run] ok(2) o run show ?thesis by auto
qed

end
