(* ===== verification/Sops_Sync.thy ===== *)
theory Sops_Sync
  imports Content_Chunks "HOL-Library.Multiset"
begin

text \<open>
  Propagation of SOPS-encrypted secret files, \<^verbatim>\<open>crates/tcfs-sops\<close>: the comparison of local and
  remote entries (\<^verbatim>\<open>diff.rs\<close>), writing with a backup (\<^verbatim>\<open>merge.rs\<close>), and scanning, pushing and pulling
  (\<^verbatim>\<open>lib.rs\<close>). What \<^verbatim>\<open>read_dir\<close> reports below a directory is an argument.
\<close>

section \<open>Model: comparing entries\<close>

record SopsEntry =
  se_relative_path :: string
  se_blake3_hash :: string
  se_machine_id :: string
  se_size_bytes :: u64

record SopsDiff =
  local_only :: "SopsEntry list"
  remote_only :: "SopsEntry list"
  unchanged :: "SopsEntry list"
  modified :: "SopsEntry list"
  conflicts :: "SopsEntry list"

definition diff_default :: SopsDiff where
  "diff_default = \<lparr>local_only = [], remote_only = [], unchanged = [], modified = [], conflicts = []\<rparr>"

definition entry_at :: "SopsEntry list \<Rightarrow> string \<Rightarrow> SopsEntry option" where
  "entry_at es p = List.find (\<lambda>e. se_relative_path e = p) es"

fun diff_local :: "SopsEntry list \<Rightarrow> SopsEntry list \<Rightarrow> SopsDiff \<Rightarrow> SopsDiff" where
  "diff_local remote [] d = d"
| "diff_local remote (e # es) d =
     diff_local remote es
       (case entry_at remote (se_relative_path e) of
          Some r \<Rightarrow> if se_blake3_hash e = se_blake3_hash r then d\<lparr>unchanged := unchanged d @ [e]\<rparr>
                    else d\<lparr>modified := modified d @ [e]\<rparr>
        | None \<Rightarrow> d\<lparr>local_only := local_only d @ [e]\<rparr>)"

fun diff_remote :: "SopsEntry list \<Rightarrow> SopsEntry list \<Rightarrow> SopsDiff \<Rightarrow> SopsDiff" where
  "diff_remote locl [] d = d"
| "diff_remote locl (e # es) d =
     diff_remote locl es
       (if \<not> list_ex (\<lambda>l. se_relative_path l = se_relative_path e) locl
        then d\<lparr>remote_only := remote_only d @ [e]\<rparr> else d)"

definition diff_compute :: "SopsEntry list \<Rightarrow> SopsEntry list \<Rightarrow> SopsDiff" where
  "diff_compute locl remote = diff_remote locl remote (diff_local remote locl diff_default)"

definition has_changes :: "SopsDiff \<Rightarrow> bool" where
  "has_changes d \<longleftrightarrow> local_only d \<noteq> [] \<or> remote_only d \<noteq> [] \<or> modified d \<noteq> [] \<or> conflicts d \<noteq> []"

definition summary :: "SopsDiff \<Rightarrow> string" where
  "summary d =
     ''local_only='' @ dec_of_nat (length (local_only d)) @ '', remote_only='' @ dec_of_nat (length (remote_only d)) @
     '', modified='' @ dec_of_nat (length (modified d)) @ '', unchanged='' @ dec_of_nat (length (unchanged d)) @
     '', conflicts='' @ dec_of_nat (length (conflicts d))"

section \<open>Model: backups\<close>

definition backup_path_of :: "fs \<Rightarrow> path \<Rightarrow> string \<Rightarrow> path" where
  "backup_path_of f backup_dir rel =
     path_join (path_join backup_dir (path_of (dec_of_u64 (fs_now f)))) (path_of rel)"

definition backup_file :: "fs \<Rightarrow> path \<Rightarrow> path \<Rightarrow> string \<Rightarrow> path option res \<times> fs" where
  "backup_file f source backup_dir rel =
     (if \<not> fs_exists f source then (Ok None, f)
      else (let bp = backup_path_of f backup_dir rel
            in case fs_ensure_parent f bp of
                 (Inl e, f1) \<Rightarrow> (Inl e, f1)
               | (Inr _, f1) \<Rightarrow>
                   (case fs_copy f1 source bp of
                      (Inl e, f2) \<Rightarrow> (Inl e, f2)
                    | (Inr _, f2) \<Rightarrow> (Ok (Some bp), f2))))"

definition write_with_backup :: "fs \<Rightarrow> path \<Rightarrow> bytes \<Rightarrow> path \<Rightarrow> string \<Rightarrow> unit res \<times> fs" where
  "write_with_backup f target content backup_dir rel =
     (case (if fs_exists f target then backup_file f target backup_dir rel else (Ok None, f)) of
        (Inl e, f1) \<Rightarrow> (Inl e, f1)
      | (Inr _, f1) \<Rightarrow>
          (case fs_ensure_parent f1 target of
             (Inl e, f2) \<Rightarrow> (Inl e, f2)
           | (Inr _, f2) \<Rightarrow> fs_write f2 target content))"

section \<open>Model: scanning, pushing, pulling\<close>

record SopsSyncConfig =
  sops_dir :: path
  sops_age_identity :: path
  s3_prefix :: string
  machine_id :: string
  backup_dir :: path
  additive_only :: bool

definition sops_config_default :: "(string \<Rightarrow> string option) \<Rightarrow> SopsSyncConfig" where
  "sops_config_default env =
     (let hostname = (case env ''HOSTNAME'' of
                        Some h \<Rightarrow> h
                      | None \<Rightarrow> (case env ''COMPUTERNAME'' of Some h \<Rightarrow> h | None \<Rightarrow> ''unknown''))
      in \<lparr>sops_dir = path_of ''~/.config/sops/age'', sops_age_identity = path_of ''~/.config/sops/age/keys.txt'',
          s3_prefix = ''sops-sync/'' @ hostname, machine_id = hostname,
          backup_dir = path_of ''~/.local/share/tcfs/sops-backups'', additive_only = True\<rparr>)"

text \<open>
  A directory as \<^verbatim>\<open>read_dir\<close> reports it: \<open>SBroken\<close> is an entry whose iteration fails, \<open>SUnreadable\<close>
  a directory that cannot be opened.
\<close>

datatype snode = SFile | SOther | SBroken | SUnreadable | SDir "(string \<times> snode) list"

definition relative :: "path \<Rightarrow> path \<Rightarrow> string" where
  "relative base p = path_str (case path_strip_prefix base p of None \<Rightarrow> p | Some r \<Rightarrow> r)"

fun walk_entries :: "path \<Rightarrow> path \<Rightarrow> (string \<times> snode) list \<Rightarrow> (string \<times> path) list res"
and walk_node :: "path \<Rightarrow> path \<Rightarrow> snode \<Rightarrow> (string \<times> path) list res" where
  "walk_entries base d [] = Ok []"
| "walk_entries base d ((n, t) # r) =
     (case walk_node base (path_child d n) t of
        Inl e \<Rightarrow> Inl e
      | Inr ps \<Rightarrow> (case walk_entries base d r of Inl e \<Rightarrow> Inl e | Inr qs \<Rightarrow> Ok (ps @ qs)))"
| "walk_node base p SFile = Ok [(relative base p, p)]"
| "walk_node base p SOther = Ok []"
| "walk_node base p SBroken = Err (EIo ''reading directory entry'' (path_str p))"
| "walk_node base p SUnreadable = Err (EIo ''reading directory'' (path_str p))"
| "walk_node base p (SDir es) = walk_entries base p es"

definition walkdir :: "path \<Rightarrow> snode \<Rightarrow> (string \<times> path) list res" where
  "walkdir dir t =
     (case t of
        SDir es \<Rightarrow> walk_entries dir dir es
      | _ \<Rightarrow> Err (EIo ''reading directory'' (path_str dir)))"

definition is_sops_file :: "path \<Rightarrow> bool" where
  "is_sops_file p =
     (case extension p of
        None \<Rightarrow> False
      | Some e \<Rightarrow> e \<in> {''yaml'', ''yml'', ''json'', ''env'', ''ini''})"

fun scan_files :: "hasher \<Rightarrow> fs \<Rightarrow> (string \<times> path) list \<Rightarrow> SopsEntry list res" where
  "scan_files H f [] = Ok []"
| "scan_files H f ((rel, p) # r) =
     (if \<not> is_sops_file p then scan_files H f r
      else (case fs_read f p of
              Inl e \<Rightarrow> Inl e
            | Inr d \<Rightarrow>
                (case scan_files H f r of
                   Inl e \<Rightarrow> Inl e
                 | Inr es \<Rightarrow>
                     Ok (\<lparr>se_relative_path = rel, se_blake3_hash = h_to_hex H (h_hash H d), se_machine_id = [],
                          se_size_bytes = u64_len d\<rparr> # es))))"

definition scan_local_dir :: "hasher \<Rightarrow> fs \<Rightarrow> path \<Rightarrow> snode \<Rightarrow> SopsEntry list res" where
  "scan_local_dir H f dir t =
     (if \<not> fs_exists f dir then Ok []
      else (case walkdir dir t of Inl e \<Rightarrow> Inl e | Inr ps \<Rightarrow> scan_files H f ps))"

definition sops_new :: "fs \<Rightarrow> SopsSyncConfig \<Rightarrow> SopsSyncConfig res \<times> fs" where
  "sops_new f cfg =
     (if fs_exists f (backup_dir cfg) then (Ok cfg, f)
      else (case fs_create_dir_all f (backup_dir cfg) of
              (Inl e, f1) \<Rightarrow> (Inl e, f1)
            | (Inr _, f1) \<Rightarrow> (Ok cfg, f1)))"

text \<open>The remote manifest is not read yet: the code returns an empty list.\<close>

definition load_remote_manifest :: "SopsEntry list res" where
  "load_remote_manifest = Ok []"

definition sops_scan :: "hasher \<Rightarrow> fs \<Rightarrow> snode \<Rightarrow> SopsSyncConfig \<Rightarrow> SopsDiff res" where
  "sops_scan H f t cfg =
     (case scan_local_dir H f (sops_dir cfg) t of
        Inl e \<Rightarrow> Inl e
      | Inr locl \<Rightarrow>
          Ok (diff_compute locl (case load_remote_manifest of Inl _ \<Rightarrow> [] | Inr r \<Rightarrow> r)))"

text \<open>
  What a push would store: every scanned entry updated in place or appended, under this machine's
  name. The code computes this list and drops it.
\<close>

fun upsert :: "string \<Rightarrow> SopsEntry \<Rightarrow> SopsEntry list \<Rightarrow> SopsEntry list" where
  "upsert mid e [] = [e\<lparr>se_machine_id := mid\<rparr>]"
| "upsert mid e (x # xs) =
     (if se_relative_path x = se_relative_path e
      then x\<lparr>se_blake3_hash := se_blake3_hash e, se_machine_id := mid\<rparr> # xs
      else x # upsert mid e xs)"

fun push_manifest :: "string \<Rightarrow> SopsEntry list \<Rightarrow> SopsEntry list \<Rightarrow> SopsEntry list" where
  "push_manifest mid m [] = m"
| "push_manifest mid m (e # es) = push_manifest mid (upsert mid e m) es"

record PushResult = pushed :: nat  skipped :: nat

definition sops_push ::
  "hasher \<Rightarrow> fs \<Rightarrow> snode \<Rightarrow> SopsSyncConfig \<Rightarrow> SopsDiff \<Rightarrow> PushResult res" where
  "sops_push H f t cfg d =
     (let here = (\<lambda>e. fs_exists f (path_join (sops_dir cfg) (path_of (se_relative_path e))))
      in case scan_local_dir H f (sops_dir cfg) t of
           Inl e \<Rightarrow> Inl e
         | Inr _ \<Rightarrow> Ok \<lparr>pushed = length (filter here (local_only d)) + length (modified d),
                         skipped = length (filter (\<lambda>e. \<not> here e) (local_only d))\<rparr>)"

record PullResult = pulled :: nat  pull_conflicts :: nat

fun pull_remote_only :: "fs \<Rightarrow> SopsSyncConfig \<Rightarrow> SopsEntry list \<Rightarrow> nat \<Rightarrow> nat res \<times> fs" where
  "pull_remote_only f cfg [] n = (Ok n, f)"
| "pull_remote_only f cfg (e # es) n =
     (case fs_ensure_parent f (path_join (sops_dir cfg) (path_of (se_relative_path e))) of
        (Inl x, f1) \<Rightarrow> (Inl x, f1)
      | (Inr _, f1) \<Rightarrow> pull_remote_only f1 cfg es (n + 1))"

fun pull_backup :: "fs \<Rightarrow> SopsSyncConfig \<Rightarrow> SopsEntry list \<Rightarrow> nat \<Rightarrow> nat res \<times> fs" where
  "pull_backup f cfg [] n = (Ok n, f)"
| "pull_backup f cfg (e # es) n =
     (case backup_file f (path_join (sops_dir cfg) (path_of (se_relative_path e))) (backup_dir cfg)
             (se_relative_path e) of
        (Inl x, f1) \<Rightarrow> (Inl x, f1)
      | (Inr _, f1) \<Rightarrow> pull_backup f1 cfg es (n + 1))"

definition sops_pull ::
  "hasher \<Rightarrow> fs \<Rightarrow> snode \<Rightarrow> SopsSyncConfig \<Rightarrow> PullResult res \<times> fs" where
  "sops_pull H f t cfg =
     (case sops_scan H f t cfg of
        Inl e \<Rightarrow> (Inl e, f)
      | Inr d \<Rightarrow>
          (case pull_remote_only f cfg (remote_only d) 0 of
             (Inl e, f1) \<Rightarrow> (Inl e, f1)
           | (Inr n, f1) \<Rightarrow>
               (case pull_backup f1 cfg (conflicts d) 0 of
                  (Inl e, f2) \<Rightarrow> (Inl e, f2)
                | (Inr c, f2) \<Rightarrow> (Ok \<lparr>pulled = n, pull_conflicts = c\<rparr>, f2))))"

text \<open>
  The watcher: every changed path of a create or modify event that looks like a SOPS file causes
  a scan and, when there are changes, a push; their failures are only logged.
\<close>

datatype watch_kind = WCreate | WModify | WOtherKind

definition watch_paths :: "watch_kind \<Rightarrow> path list \<Rightarrow> path list" where
  "watch_paths k ps = (if k = WOtherKind then [] else filter is_sops_file ps)"

definition watch_step ::
  "hasher \<Rightarrow> fs \<Rightarrow> snode \<Rightarrow> SopsSyncConfig \<Rightarrow> watch_kind \<times> path list \<Rightarrow> PushResult res list" where
  "watch_step H f t cfg ev =
     concat (map (\<lambda>p. case sops_scan H f t cfg of
                        Inl e \<Rightarrow> []
                      | Inr d \<Rightarrow> if has_changes d then [sops_push H f t cfg d] else [])
               (watch_paths (fst ev) (snd ev)))"

section \<open>The comparison\<close>

lemma diff_local_eq:
  "diff_local remote es d = d\<lparr>
     unchanged := unchanged d @ filter (\<lambda>e. \<exists>r. entry_at remote (se_relative_path e) = Some r \<and> se_blake3_hash e = se_blake3_hash r) es,
     modified := modified d @ filter (\<lambda>e. \<exists>r. entry_at remote (se_relative_path e) = Some r \<and> se_blake3_hash e \<noteq> se_blake3_hash r) es,
     local_only := local_only d @ filter (\<lambda>e. entry_at remote (se_relative_path e) = None) es\<rparr>"
  by (induction remote es d rule: diff_local.induct) (auto split: option.splits)

lemma diff_remote_eq:
  "diff_remote locl es d = d\<lparr>remote_only := remote_only d @ filter (\<lambda>e. entry_at locl (se_relative_path e) = None) es\<rparr>"
  by (induction locl es d rule: diff_remote.induct) (auto simp: entry_at_def find_None_iff list_ex_iff)

lemmas diff_simps = diff_compute_def diff_local_eq diff_remote_eq diff_default_def

lemma mset_filter3:
  assumes "\<And>x. x \<in> set xs \<Longrightarrow> (P x \<and> \<not> Q x \<and> \<not> R x) \<or> (\<not> P x \<and> Q x \<and> \<not> R x) \<or> (\<not> P x \<and> \<not> Q x \<and> R x)"
  shows "filter_mset P (mset xs) + filter_mset Q (mset xs) + filter_mset R (mset xs) = mset xs"
  using assms by (induction xs) fastforce+

text \<open>The content hash each path has in a list of entries.\<close>

definition hash_at :: "SopsEntry list \<Rightarrow> string \<Rightarrow> string option" where
  "hash_at es p = map_option se_blake3_hash (entry_at es p)"

lemma entry_at_distinct:
  assumes "distinct (map se_relative_path es)" and "e \<in> set es"
  shows "entry_at es (se_relative_path e) = Some e"
  using assms by (induction es) (auto simp: entry_at_def)

lemma entry_at_SomeD: "entry_at es p = Some e \<Longrightarrow> e \<in> set es \<and> se_relative_path e = p"
  by (auto simp: entry_at_def dest: find_SomeD)

lemma hash_at_eq_iff:
  assumes "distinct (map se_relative_path locl)"
  shows "hash_at locl = hash_at remote \<longleftrightarrow>
    (\<forall>e \<in> set locl. hash_at remote (se_relative_path e) = Some (se_blake3_hash e)) \<and>
    (\<forall>e \<in> set remote. entry_at locl (se_relative_path e) \<noteq> None)" (is "?l = ?r \<longleftrightarrow> ?A \<and> ?B")
proof
  assume eq: "?l = ?r"
  have ?A using entry_at_distinct[OF assms] eq by (metis hash_at_def option.simps(9))
  moreover have ?B
  proof
    fix e assume "e \<in> set remote"
    then have "entry_at remote (se_relative_path e) \<noteq> None"
      by (auto simp: entry_at_def find_None_iff)
    then show "entry_at locl (se_relative_path e) \<noteq> None"
      using fun_cong[OF eq, of "se_relative_path e"] by (auto simp: hash_at_def)
  qed
  ultimately show "?A \<and> ?B" ..
next
  assume AB: "?A \<and> ?B"
  show "?l = ?r"
  proof
    fix p
    show "?l p = ?r p"
    proof (cases "entry_at locl p")
      case None
      then have "entry_at remote p = None" using AB entry_at_SomeD by (cases "entry_at remote p") fastforce+
      with None show ?thesis by (simp add: hash_at_def)
    next
      case (Some e)
      then show ?thesis using AB entry_at_SomeD[OF Some] by (auto simp: hash_at_def)
    qed
  qed
qed

text \<open>
  The comparison is exact. Every local entry is classified once (unchanged, modified or only
  local), the entries only the remote side has are exactly those without a local path, and no
  change is reported precisely when both sides have the same paths with the same hashes.
\<close>

theorem sops_diff_exact:
  assumes "distinct (map se_relative_path locl)"
  shows "let d = diff_compute locl remote in
           mset (unchanged d) + mset (modified d) + mset (local_only d) = mset locl \<and>
           remote_only d = filter (\<lambda>e. hash_at locl (se_relative_path e) = None) remote \<and>
           set (unchanged d) = {e \<in> set locl. hash_at remote (se_relative_path e) = Some (se_blake3_hash e)} \<and>
           (\<not> has_changes d \<longleftrightarrow> hash_at locl = hash_at remote)"
proof -
  let ?d = "diff_compute locl remote"
  have parts: "mset (unchanged ?d) + mset (modified ?d) + mset (local_only ?d) = mset locl"
    by (simp add: diff_simps) (rule mset_filter3, auto)
  have un: "set (unchanged ?d) = {e \<in> set locl. hash_at remote (se_relative_path e) = Some (se_blake3_hash e)}"
    by (auto simp: diff_simps hash_at_def)
  have "\<not> has_changes ?d \<longleftrightarrow> hash_at locl = hash_at remote"
    unfolding hash_at_eq_iff[OF assms]
    by (auto simp: has_changes_def diff_simps filter_empty_conv hash_at_def)
  with parts un show ?thesis by (simp add: Let_def diff_simps hash_at_def)
qed

section \<open>Backups\<close>

lemma fs_copy_ok:
  assumes "fs_copy f a b = (Inr u, f')"
  shows "map_option f_data (files f' b) = map_option f_data (files f a) \<and> (\<forall>q. q \<noteq> b \<longrightarrow> files f' q = files f q) \<and>
         fault f' = fault f"
  using assms fs_write_content[of f b _ u f'] fs_write_env[of f b _ "Inr u" f']
  by (auto simp: fs_copy_def fs_read_def split: sum.splits if_splits option.splits)

lemma fs_copy_frame: "fs_copy f a b = (r, f') \<Longrightarrow> q \<noteq> b \<Longrightarrow> files f' q = files f q"
  by (auto simp: fs_copy_def dest: fs_write_frame split: sum.splits)

lemma backup_file_cases:
  assumes "backup_file f source bdir rel = (r, f')" and "fs_exists f source"
  obtains (ok) "r = Inr (Some (backup_path_of f bdir rel))"
      "map_option f_data (files f' (backup_path_of f bdir rel)) = map_option f_data (files f source)"
      "\<forall>q. q \<noteq> backup_path_of f bdir rel \<longrightarrow> files f' q = files f q"
  | (failed) e where "r = Inl e" "\<forall>q. q \<noteq> backup_path_of f bdir rel \<longrightarrow> files f' q = files f q"
proof -
  let ?bp = "backup_path_of f bdir rel"
  obtain x f1 where e: "fs_ensure_parent f ?bp = (x, f1)" by fastforce
  have same: "files f1 = files f" using ensure_parent_files[of f ?bp] e by simp
  obtain y f2 where c: "fs_copy f1 source ?bp = (y, f2)" by fastforce
  show ?thesis
  proof (cases x)
    case (Inl a)
    with assms e same show ?thesis by (intro failed[of a]) (auto simp: backup_file_def Let_def)
  next
    case x: (Inr _)
    show ?thesis
    proof (cases y)
      case (Inl a)
      with assms e x c fs_copy_frame[OF c] same show ?thesis
        by (intro failed[of a]) (auto simp: backup_file_def Let_def)
    next
      case (Inr _)
      with assms e x c fs_copy_ok[of f1 source ?bp _ f2] same show ?thesis
        by (intro ok) (auto simp: backup_file_def Let_def)
    qed
  qed
qed

text \<open>
  Writing with a backup never loses a secret. Whatever fails, the previous content of the
  target is still in the target or in the backup made for it; success means the target holds the
  new content and the backup the old; and no other file changes.
\<close>

theorem write_with_backup_preserves:
  assumes "write_with_backup f target content bdir rel = (r, f')" and "files f target = Some x"
    and "\<not> fault f OpStat target" and "backup_path_of f bdir rel \<noteq> target"
  shows "(files f' target = Some x \<or> map_option f_data (files f' (backup_path_of f bdir rel)) = Some (f_data x)) \<and>
         (is_ok r \<longrightarrow> map_option f_data (files f' target) = Some content \<and>
                    map_option f_data (files f' (backup_path_of f bdir rel)) = Some (f_data x)) \<and>
         (\<forall>q. q \<noteq> target \<and> q \<noteq> backup_path_of f bdir rel \<longrightarrow> files f' q = files f q)"
proof -
  let ?bp = "backup_path_of f bdir rel"
  have ex: "fs_exists f target" using assms(2,3) by (simp add: fs_exists_def)
  obtain b f1 where b: "backup_file f target bdir rel = (b, f1)" by fastforce
  from b ex show ?thesis
  proof (cases rule: backup_file_cases)
    case ok
    obtain y f2 where e: "fs_ensure_parent f1 target = (y, f2)" by fastforce
    have same: "files f2 = files f1" using ensure_parent_files[of f1 target] e by simp
    show ?thesis
    proof (cases y)
      case (Inl a)
      with assms ex b e ok same show ?thesis by (auto simp: write_with_backup_def)
    next
      case (Inr _)
      then have w: "fs_write f2 target content = (r, f')"
        using assms(1) ex b e ok by (simp add: write_with_backup_def)
      have "files f' q = files f1 q" if "q \<noteq> target" for q
        using fs_write_frame[OF w that] same by simp
      moreover have "is_ok r \<Longrightarrow> map_option f_data (files f' target) = Some content"
        using w fs_write_content[of f2 target content _ f'] by (cases r) auto
      ultimately show ?thesis using ok assms(2,4) by auto
    qed
  next
    case (failed e)
    with assms ex b show ?thesis by (auto simp: write_with_backup_def)
  qed
qed

section \<open>What is transferred\<close>

lemma scan_never_remote: "sops_scan H f t cfg = Inr d \<Longrightarrow> remote_only d = [] \<and> modified d = [] \<and> conflicts d = []"
  by (auto simp: sops_scan_def load_remote_manifest_def diff_simps entry_at_def split: sum.splits)

text \<open>A pull changes nothing: no remote entry is ever known.\<close>

lemma sops_pull_nothing:
  "sops_pull H f t cfg = (r, f') \<Longrightarrow> f' = f \<and> (\<forall>x. r = Inr x \<longrightarrow> pulled x = 0 \<and> pull_conflicts x = 0)"
  using scan_never_remote[of H f t cfg] by (auto simp: sops_pull_def split: sum.splits)

lemma upsert_hash: "hash_at (upsert mid e m) = (hash_at m)(se_relative_path e := Some (se_blake3_hash e))"
  by (induction m) (auto simp: hash_at_def entry_at_def fun_eq_iff)

text \<open>The manifest a push computes describes the scanned directory and keeps every other entry.\<close>

lemma push_manifest_hash:
  assumes "distinct (map se_relative_path es)"
  shows "hash_at (push_manifest mid m es) = hash_at m ++ hash_at es"
  using assms
proof (induction mid m es rule: push_manifest.induct)
  case (2 mid m e es)
  then have "entry_at es (se_relative_path e) = None"
    by (auto simp: entry_at_def find_None_iff) (metis image_eqI)
  with 2 show ?case
    by (auto simp: upsert_hash fun_eq_iff map_add_def hash_at_def entry_at_def split: option.splits)
qed (simp add: hash_at_def entry_at_def map_add_def fun_eq_iff)

section \<open>Concrete runs\<close>

definition sops_entry :: "string \<Rightarrow> string \<Rightarrow> SopsEntry" where
  "sops_entry p h = \<lparr>se_relative_path = p, se_blake3_hash = h, se_machine_id = [], se_size_bytes = 1\<rparr>"

theorem sops_diff_exact_witness:
  "has_changes (diff_compute [sops_entry ''a.yaml'' ''h1'', sops_entry ''b.yaml'' ''h2''] [sops_entry ''a.yaml'' ''h1''])"
proof -
  let ?l = "[sops_entry ''a.yaml'' ''h1'', sops_entry ''b.yaml'' ''h2'']" and ?r = "[sops_entry ''a.yaml'' ''h1'']"
  have "distinct (map se_relative_path ?l)" by (simp add: sops_entry_def)
  note sops_diff_exact[OF this, of ?r]
  moreover have "hash_at ?l ''b.yaml'' \<noteq> hash_at ?r ''b.yaml''"
    by (simp add: hash_at_def entry_at_def sops_entry_def)
  ultimately show ?thesis by (auto simp: Let_def)
qed

theorem write_with_backup_preserves_witness:
  "\<exists>f'. write_with_backup one_file (path_of ''/a'') [7] (path_of ''/bk'') ''a'' = (Inr (), f') \<and>
     map_option f_data (files f' (path_of ''/a'')) = Some [7] \<and> map_option f_data (files f' (path_of ''/bk/9/a'')) = Some [1, 2]"
proof -
  have bp: "backup_path_of one_file (path_of ''/bk'') ''a'' = path_of ''/bk/9/a''"
    and ok: "fst (write_with_backup one_file (path_of ''/a'') [7] (path_of ''/bk'') ''a'') = Inr ()"
    and neq: "path_of ''/bk/9/a'' \<noteq> path_of ''/a''"
    by code_simp+
  obtain f' where w: "write_with_backup one_file (path_of ''/a'') [7] (path_of ''/bk'') ''a'' = (Inr (), f')"
    using ok by (cases "write_with_backup one_file (path_of ''/a'') [7] (path_of ''/bk'') ''a''") auto
  have "files one_file (path_of ''/a'') = Some \<lparr>f_data = [1, 2], f_mtime = Some 5\<rparr>" "\<not> fault one_file OpStat (path_of ''/a'')"
    by (simp_all add: one_file_def)
  from write_with_backup_preserves[OF w this] w bp neq show ?thesis by simp
qed

end
