(* ===== verification/Daemon_Sync.thy ===== *)
theory Daemon_Sync
  imports Engine_Roundtrip
begin

text \<open>
  The messages devices exchange (\<^verbatim>\<open>crates/tcfs-sync/src/nats.rs\<close>) and the state sync loop of the
  daemon (\<^verbatim>\<open>crates/tcfsd/src/daemon.rs\<close>): what a device does with the events of other devices. The
  storage operator sits behind a mutex; the model keeps whether it is held, and an operation that
  waits for a mutex its own task holds \<open>Hangs\<close>.
\<close>

section \<open>Model: messages\<close>

datatype StateEvent =
    FileSynced (ev_device: string) string string u64 VectorClock string u64
  | FileDeleted (ev_device: string) string VectorClock u64
  | FileRenamed (ev_device: string) string string VectorClock u64
  | DeviceOnline (ev_device: string) u64 u64
  | DeviceOffline (ev_device: string) u64 u64
  | ConflictResolved (ev_device: string) string string VectorClock u64

fun event_type :: "StateEvent \<Rightarrow> string" where
  "event_type (FileSynced d r b n vc m t) = ''file_synced''"
| "event_type (FileDeleted d r vc t) = ''file_deleted''"
| "event_type (FileRenamed d a b vc t) = ''file_renamed''"
| "event_type (DeviceOnline d n t) = ''device_online''"
| "event_type (DeviceOffline d n t) = ''device_offline''"
| "event_type (ConflictResolved d r x vc t) = ''conflict_resolved''"

definition subject :: "StateEvent \<Rightarrow> string" where
  "subject ev = ''STATE.'' @ ev_device ev @ ''.'' @ event_type ev"

section \<open>Model: the daemon\<close>

datatype 'r outcome = Reply 'r | Refuse err | Hangs

text \<open>
  The state the daemon's tasks share: file system, remote store, state cache, whether a storage
  operator is configured and whether its mutex is taken, the NATS client (none, or one with the
  outcome of each publication) with the events it delivered, and the active mounts.
\<close>

record 's daemon =
  w_fs :: fs
  w_store :: 's
  w_cache :: StateCache
  w_operator :: bool
  w_oplock :: bool
  w_nats :: "(StateEvent \<Rightarrow> bool) option"
  w_events :: "StateEvent list"
  w_mounts :: "string list"

text \<open>\<^verbatim>\<open>operator.lock().await\<close>: waits forever on a mutex that is held.\<close>

definition lock_operator :: "'s daemon \<Rightarrow> ('s daemon \<Rightarrow> 'r outcome \<times> 's daemon) \<Rightarrow> 'r outcome \<times> 's daemon" where
  "lock_operator w k = (if w_oplock w then (Hangs, w) else k (w\<lparr>w_oplock := True\<rparr>))"

text \<open>Leaving a function drops the guards it holds; a task that hangs never leaves.\<close>

definition release_operator :: "'r outcome \<times> 's daemon \<Rightarrow> 'r outcome \<times> 's daemon" where
  "release_operator x = (case x of (Hangs, w) \<Rightarrow> (Hangs, w) | (r, w) \<Rightarrow> (r, w\<lparr>w_oplock := False\<rparr>))"

text \<open>
  The download of the daemon, with its own state cache: the engine's download, then on success a
  best-effort flush.
\<close>

definition engine_download ::
  "'s libs \<Rightarrow> 's daemon \<Rightarrow> string \<Rightarrow> path \<Rightarrow> string \<Rightarrow> string \<Rightarrow> DownloadResult res \<times> 's daemon" where
  "engine_download E w manifest lp rp dev =
     (case download_file_with_device E (w_fs w) (w_store w) manifest lp rp dev (Some (w_cache w)) None of
        (r, f', st) \<Rightarrow> (r, w\<lparr>w_fs := f', w_cache := (case st of Some c \<Rightarrow> c | None \<Rightarrow> w_cache w)\<rparr>))"

definition flush_quietly :: "state_codec \<Rightarrow> 's daemon \<Rightarrow> 's daemon" where
  "flush_quietly J w = (case sc_flush J (w_fs w) (w_cache w) of (_, f', c') \<Rightarrow> w\<lparr>w_fs := f', w_cache := c'\<rparr>)"

text \<open>
  The guard of the first \<^verbatim>\<open>lock()\<close> is only shadowed by the next binding, so it is still held when
  the second \<^verbatim>\<open>lock()\<close> (inside \<^verbatim>\<open>drop(...)\<close>) runs.
\<close>

definition do_auto_download ::
  "'s libs \<Rightarrow> state_codec \<Rightarrow> 's daemon \<Rightarrow> string \<Rightarrow> string \<Rightarrow> path \<Rightarrow> string \<Rightarrow> unit outcome \<times> 's daemon" where
  "do_auto_download E J w dev manifest lp rp =
     (case fs_ensure_parent (w_fs w) lp of
        (Inl _, f1) \<Rightarrow> (Reply (), w\<lparr>w_fs := f1\<rparr>)
      | (Inr _, f1) \<Rightarrow>
          release_operator (lock_operator (w\<lparr>w_fs := f1\<rparr>) (\<lambda>w1.
            if \<not> w_operator w1 then (Reply (), w1)
            else lock_operator w1 (\<lambda>w2.
              case engine_download E w2 manifest lp rp dev of
                (Inr _, w3) \<Rightarrow> (Reply (), flush_quietly J w3)
              | (Inl _, w3) \<Rightarrow> (Reply (), w3)))))"

text \<open>Where the remote file lives locally; \<open>ord\<close> is the iteration order of the cache's map.\<close>

definition pull_target :: "string list \<Rightarrow> 's daemon \<Rightarrow> path option \<Rightarrow> string \<Rightarrow> path option" where
  "pull_target ord w sync_root rel =
     (case sync_root of
        Some root \<Rightarrow> Some (path_join root (path_of rel))
      | None \<Rightarrow> map_option (\<lambda>(k, _). path_of k) (sc_get_by_rel_path ord (w_cache w) rel))"

definition handle_auto_pull ::
  "'s libs \<Rightarrow> state_codec \<Rightarrow> string list \<Rightarrow> 's daemon \<Rightarrow> string \<Rightarrow> string \<Rightarrow> string \<Rightarrow> string \<Rightarrow> VectorClock \<Rightarrow> string \<Rightarrow>
   path option \<Rightarrow> string \<Rightarrow> unit outcome \<times> 's daemon" where
  "handle_auto_pull E J ord w dev remote_dev rel remote_blake3 remote_vclock manifest sync_root rp =
     (case pull_target ord w sync_root rel of
        None \<Rightarrow> (Reply (), w)
      | Some lp \<Rightarrow>
          (case sc_get (w_fs w) (w_cache w) lp of
             None \<Rightarrow> do_auto_download E J w dev manifest lp rp
           | Some st \<Rightarrow>
               (case compare_clocks (fs_now (w_fs w)) (ss_vclock st) remote_vclock (ss_blake3 st) remote_blake3
                       rel dev remote_dev of
                  UpToDate \<Rightarrow> (Reply (), w)
                | LocalNewer \<Rightarrow> (Reply (), w)
                | RemoteNewer \<Rightarrow> do_auto_download E J w dev manifest lp rp
                | Conflict ci \<Rightarrow>
                    (case auto_resolve ci of
                       Some KeepRemote \<Rightarrow> do_auto_download E J w dev manifest lp rp
                     | _ \<Rightarrow> (Reply (), w)))))"

definition merge_resolved ::
  "state_codec \<Rightarrow> 's daemon \<Rightarrow> path option \<Rightarrow> string \<Rightarrow> VectorClock \<Rightarrow> 's daemon" where
  "merge_resolved J w sync_root rel merged =
     (let lp = (case sync_root of Some r \<Rightarrow> path_join r (path_of rel) | None \<Rightarrow> path_of rel)
      in case sc_get (w_fs w) (w_cache w) lp of
           None \<Rightarrow> w
         | Some st \<Rightarrow>
             flush_quietly J (w\<lparr>w_cache := sc_set (w_fs w) (w_cache w) lp
                                  (st\<lparr>ss_vclock := merge (ss_vclock st) merged\<rparr>)\<rparr>))"

text \<open>One message of the state stream; acknowledging it has no effect on the daemon.\<close>

definition handle_event ::
  "'s libs \<Rightarrow> state_codec \<Rightarrow> string list \<Rightarrow> string \<Rightarrow> string \<Rightarrow> path option \<Rightarrow> string \<Rightarrow> 's daemon \<Rightarrow> StateEvent \<Rightarrow>
   unit outcome \<times> 's daemon" where
  "handle_event E J ord dev mode sync_root rp w ev =
     (if ev_device ev = dev then (Reply (), w)
      else (case ev of
              FileSynced d rel blake3 sz vc manifest t \<Rightarrow>
                if mode = ''auto''
                then handle_auto_pull E J ord w dev d rel blake3 vc manifest sync_root rp
                else (Reply (), w)
            | ConflictResolved d rel res vc t \<Rightarrow> (Reply (), merge_resolved J w sync_root rel vc)
            | _ \<Rightarrow> (Reply (), w)))"

text \<open>The loop: messages in order until one hangs; the result says how many were completed.\<close>

fun state_sync_loop ::
  "'s libs \<Rightarrow> state_codec \<Rightarrow> string list \<Rightarrow> string \<Rightarrow> string \<Rightarrow> path option \<Rightarrow> string \<Rightarrow> 's daemon \<Rightarrow> StateEvent res list \<Rightarrow>
   nat \<times> 's daemon" where
  "state_sync_loop E J ord dev mode root rp w [] = (0, w)"
| "state_sync_loop E J ord dev mode root rp w (Inl e # evs) =
     (case state_sync_loop E J ord dev mode root rp w evs of (n, w') \<Rightarrow> (Suc n, w'))"
| "state_sync_loop E J ord dev mode root rp w (Inr ev # evs) =
     (case handle_event E J ord dev mode root rp w ev of
        (Hangs, w') \<Rightarrow> (0, w')
      | (_, w') \<Rightarrow> (case state_sync_loop E J ord dev mode root rp w' evs of (n, w'') \<Rightarrow> (Suc n, w'')))"

section \<open>When a device pulls\<close>

text \<open>
  The causal rule: pull what is unknown here, what is strictly newer there, and on a tie
  (concurrent or equal clocks with different content) what the device with the smaller name wrote.
\<close>

definition should_pull :: "SyncState option \<Rightarrow> VectorClock \<Rightarrow> string \<Rightarrow> string \<Rightarrow> string \<Rightarrow> bool" where
  "should_pull cached remote_vclock remote_blake3 dev remote_dev =
     (case cached of
        None \<Rightarrow> True
      | Some st \<Rightarrow>
          ss_blake3 st \<noteq> remote_blake3 \<and>
          (if vc_le (ss_vclock st) remote_vclock \<noteq> vc_le remote_vclock (ss_vclock st)
           then vc_le (ss_vclock st) remote_vclock else remote_dev < dev))"

lemma handle_auto_pull_eq:
  assumes "pull_target ord w root rel = Some lp"
  shows "handle_auto_pull E J ord w dev rdev rel rb rvc manifest root rp =
     (if should_pull (sc_get (w_fs w) (w_cache w) lp) rvc rb dev rdev
      then do_auto_download E J w dev manifest lp rp else (Reply (), w))"
proof (cases "sc_get (w_fs w) (w_cache w) lp")
  case None
  with assms show ?thesis by (simp add: handle_auto_pull_def should_pull_def)
next
  case (Some st)
  with assms show ?thesis
    by (auto simp: handle_auto_pull_def should_pull_def compare_clocks_def auto_resolve_def conflict_info_def
        partial_cmp_vc_spec not_le split: option.splits Ordering.splits)
qed

section \<open>The operator mutex\<close>

lemma do_auto_download_hangs:
  assumes "w_operator w" and "\<not> w_oplock w" and "fs_ensure_parent (w_fs w) lp = (Inr u, f1)"
  shows "do_auto_download E J w dev manifest lp rp = (Hangs, w\<lparr>w_fs := f1, w_oplock := True\<rparr>)"
  using assms by (simp add: do_auto_download_def lock_operator_def release_operator_def)

text \<open>
  C35: whether the automatic pull handler goes for a file is decided by causality. With a storage
  operator that is free, and a local directory that can be created, it enters the download of another
  device's file exactly when the file is unknown here, or has other content and is causally newer
  there or (with concurrent or equal clocks) comes from the device with the smaller name; otherwise it
  returns and leaves everything alone. Of two devices with differing versions exactly one enters. It
  never comes back from the download: it then waits for the mutex that it holds itself.
\<close>

theorem auto_pull_decision:
  assumes "pull_target ord w root rel = Some lp" and "w_operator w" and "\<not> w_oplock w"
    and "fs_ensure_parent (w_fs w) lp = (Inr (), f1)"
  shows "handle_auto_pull E J ord w dev rdev rel rb rvc manifest root rp =
           (if should_pull (sc_get (w_fs w) (w_cache w) lp) rvc rb dev rdev
            then (Hangs, w\<lparr>w_fs := f1, w_oplock := True\<rparr>) else (Reply (), w)) \<and>
         (\<forall>st st'. ss_blake3 st \<noteq> ss_blake3 st' \<and> dev \<noteq> rdev \<longrightarrow>
            should_pull (Some st) (ss_vclock st') (ss_blake3 st') dev rdev \<noteq>
            should_pull (Some st') (ss_vclock st) (ss_blake3 st) rdev dev)"
  using handle_auto_pull_eq[OF assms(1)] do_auto_download_hangs[OF assms(2-4)] by (auto simp: should_pull_def)

text \<open>
  An automatic pull never completes. As soon as the daemon has a storage operator, the first
  event that calls for a download (with a local directory that can be created) makes the sync loop
  wait for a mutex it already holds: nothing is downloaded, that event and all later ones are never
  processed, the state cache and every file stay as they were, and the operator mutex stays taken.
\<close>

theorem auto_pull_deadlocks:
  assumes "w_operator w" and "\<not> w_oplock w" and "d \<noteq> dev"
    and "should_pull (sc_get (w_fs w) (w_cache w) (path_join root (path_of rel))) vc blake3 dev d"
    and "fs_ensure_parent (w_fs w) (path_join root (path_of rel)) = (Inr u, f1)"
  shows "\<exists>w'. state_sync_loop E J ord dev ''auto'' (Some root) rp w
                (Inr (FileSynced d rel blake3 sz vc manifest t) # evs) = (0, w') \<and>
              w_oplock w' \<and> w_cache w' = w_cache w \<and> w_store w' = w_store w \<and> files (w_fs w') = files (w_fs w)"
proof -
  have "pull_target ord w (Some root) rel = Some (path_join root (path_of rel))"
    by (simp add: pull_target_def)
  moreover have "files f1 = files (w_fs w)"
    using ensure_parent_files[of "w_fs w" "path_join root (path_of rel)"] assms(5) by simp
  ultimately show ?thesis
    using assms(3,4) do_auto_download_hangs[OF assms(1,2,5)]
    by (simp add: handle_event_def handle_auto_pull_eq)
qed

lemma flush_quietly_cache: "entries (w_cache (flush_quietly J w)) = entries (w_cache w)"
proof -
  obtain r f' c' where "sc_flush J (w_fs w) (w_cache w) = (r, f', c')" using prod_cases3 by blast
  then show ?thesis using sc_flush_env by (simp add: flush_quietly_def)
qed

text \<open>
  Learning that another device resolved a conflict only ever moves the clock of that file
  forward: its entry keeps content, size and remote path, its clock becomes the least one that
  covers both sides, and no other entry changes.
\<close>

theorem conflict_resolved_merges_clock:
  assumes "vc_wf vc" and "dev \<noteq> d"
    and "sc_get (w_fs w) (w_cache w) (path_join root (path_of rel)) = Some st"
  shows "\<exists>w' st'. handle_event E J ord dev mode (Some root) rp w (ConflictResolved d rel res vc t) = (Reply (), w') \<and>
           entries (w_cache w') =
             (entries (w_cache w))(path_key (w_fs w) (path_join root (path_of rel)) := Some st') \<and>
           ss_blake3 st' = ss_blake3 st \<and> ss_remote_path st' = ss_remote_path st \<and> ss_size st' = ss_size st \<and>
           vc_le (ss_vclock st) (ss_vclock st') \<and> vc_le vc (ss_vclock st') \<and>
           (\<forall>x. vc_le (ss_vclock st) x \<and> vc_le vc x \<longrightarrow> vc_le (ss_vclock st') x)"
proof -
  let ?st' = "st\<lparr>ss_vclock := merge (ss_vclock st) vc\<rparr>"
  let ?w = "w\<lparr>w_cache := sc_set (w_fs w) (w_cache w) (path_join root (path_of rel)) ?st'\<rparr>"
  have eq: "handle_event E J ord dev mode (Some root) rp w (ConflictResolved d rel res vc t) =
      (Reply (), flush_quietly J ?w)"
    using assms(2,3) by (simp add: handle_event_def merge_resolved_def)
  have le: "vc_le (ss_vclock st) (merge (ss_vclock st) vc)" "vc_le vc (merge (ss_vclock st) vc)"
    "\<forall>x. vc_le (ss_vclock st) x \<and> vc_le vc x \<longrightarrow> vc_le (merge (ss_vclock st) vc) x"
    using assms(1) by (simp_all add: vc_le_def)
  show ?thesis
    by (intro exI[of _ "flush_quietly J ?w"] exI[of _ ?st'])
      (use eq le flush_quietly_cache[of J ?w] in simp)
qed

section \<open>A concrete daemon\<close>

definition demo_daemon :: "(string \<Rightarrow> bytes option) daemon" where
  "demo_daemon = \<lparr>w_fs = one_file, w_store = empty_store, w_cache = sample_dirty, w_operator = True,
     w_oplock = False, w_nats = Some (\<lambda>_. True), w_events = [], w_mounts = []\<rparr>"

lemma demo_daemon_simps [simp]:
  "w_fs demo_daemon = one_file" "w_cache demo_daemon = sample_dirty" "w_operator demo_daemon" "\<not> w_oplock demo_daemon"
  "w_store demo_daemon = empty_store" "w_nats demo_daemon = Some (\<lambda>_. True)" "w_events demo_daemon = []"
  by (simp_all add: demo_daemon_def)

lemma demo_entry: "sc_get one_file sample_dirty (path_of ''/a'') = Some sample_state"
proof -
  have "path_key one_file (path_of ''/a'') = ''/a''" by code_simp
  then show ?thesis by (simp add: sc_get_def sample_dirty_def)
qed

lemma demo_join: "path_join (path_of ''/'') (path_of ''a'') = path_of ''/a''"
  by code_simp

lemma demo_should_pull: "should_pull (Some sample_state) (tick vc_new ''d2'') ''bb'' ''d1'' ''d2''"
proof -
  have "vc_le vc_new (tick vc_new ''d2'')" "\<not> vc_le (tick vc_new ''d2'') vc_new"
    by (simp_all add: vc_le_new_iff)
  then show ?thesis by (simp add: should_pull_def sample_state_def)
qed

theorem auto_pull_decision_witness:
  "\<exists>w'. handle_auto_pull (demo_libs demo_manifest) tiny_codec [] demo_daemon ''d1'' ''d2'' ''a'' ''bb'' (tick vc_new ''d2'') ''m''
     (Some (path_of ''/'')) ''p'' = (Hangs, w') \<and>
   handle_auto_pull (demo_libs demo_manifest) tiny_codec [] demo_daemon ''d1'' ''d2'' ''a'' ''aa'' (tick vc_new ''d2'') ''m''
     (Some (path_of ''/'')) ''p'' = (Reply (), demo_daemon)"
proof -
  have t: "pull_target [] demo_daemon (Some (path_of ''/'')) ''a'' = Some (path_of ''/a'')"
    using demo_join by (simp add: pull_target_def)
  have "fst (fs_ensure_parent one_file (path_of ''/a'')) = Inr ()" by code_simp
  then obtain f1 where e: "fs_ensure_parent (w_fs demo_daemon) (path_of ''/a'') = (Inr (), f1)"
    by (cases "fs_ensure_parent one_file (path_of ''/a'')") auto
  have "\<not> should_pull (Some sample_state) (tick vc_new ''d2'') ''aa'' ''d1'' ''d2''"
    by (simp add: should_pull_def sample_state_def)
  with demo_should_pull auto_pull_decision[OF t _ _ e] show ?thesis by (simp add: demo_entry)
qed

theorem auto_pull_deadlocks_witness:
  "\<exists>w'. state_sync_loop (demo_libs demo_manifest) tiny_codec [] ''d1'' ''auto'' (Some (path_of ''/'')) ''p'' demo_daemon
          [Inr (FileSynced ''d2'' ''a'' ''bb'' 2 (tick vc_new ''d2'') ''p/manifests/bb'' 9), Inr (DeviceOnline ''d3'' 0 9)] = (0, w') \<and>
        w_oplock w'"
proof -
  have "fst (fs_ensure_parent one_file (path_of ''/a'')) = Inr ()" by code_simp
  then obtain f1 where "fs_ensure_parent one_file (path_of ''/a'') = (Inr (), f1)"
    by (cases "fs_ensure_parent one_file (path_of ''/a'')") auto
  with auto_pull_deadlocks[of demo_daemon "''d2''" "''d1''" "path_of ''/''" "''a''" "tick vc_new ''d2''" "''bb''" "()" f1
      "demo_libs demo_manifest" tiny_codec "[]" "''p''" 2 "''p/manifests/bb''" 9 "[Inr (DeviceOnline ''d3'' 0 9)]"]
  show ?thesis using demo_should_pull by (auto simp: demo_join demo_entry)
qed

theorem conflict_resolved_merges_clock_witness:
  "\<exists>w'. handle_event (demo_libs demo_manifest) tiny_codec [] ''d1'' ''auto'' (Some (path_of ''/'')) ''p'' demo_daemon
          (ConflictResolved ''d2'' ''a'' ''keep_local'' (tick vc_new ''d2'') 9) = (Reply (), w')"
  using conflict_resolved_merges_clock[of "tick vc_new ''d2''" "''d1''" "''d2''" demo_daemon "path_of ''/''" "''a''"
      sample_state "demo_libs demo_manifest" tiny_codec "[]" "''auto''" "''p''" "''keep_local''" 9]
  by (auto simp: demo_join demo_entry)

end
