(* ===== verification/Daemon_Service.thy ===== *)
theory Daemon_Service
  imports Daemon_Sync Push_Tree
begin

text \<open>
  The requests a daemon serves (\<^verbatim>\<open>crates/tcfsd/src/grpc.rs\<close>) and the tasks a worker pod executes
  (\<^verbatim>\<open>crates/tcfsd/src/worker.rs\<close>). A handler maps the shared state of the daemon to its outcome:
  \<open>Reply\<close> is a response, \<open>Refuse\<close> a gRPC error status, \<open>Hangs\<close> a wait that never ends. A response
  with \<^verbatim>\<open>success: false\<close> and a message is \<open>Inl\<close>, one with \<^verbatim>\<open>success: true\<close> is \<open>Inr\<close> with its payload;
  progress messages keep their fields. External commands and the fresh temporary directory are
  arguments.
\<close>

section \<open>Model: the service\<close>

record service =
  sv_bucket :: string
  sv_device :: string

text \<open>Best-effort publication through the NATS client, when there is one.\<close>

definition publish_state_event :: "'s daemon \<Rightarrow> StateEvent \<Rightarrow> 's daemon" where
  "publish_state_event w ev =
     (case w_nats w of
        None \<Rightarrow> w
      | Some delivered \<Rightarrow> if delivered ev then w\<lparr>w_events := w_events w @ [ev]\<rparr> else w)"

definition publish_conflict_resolved :: "service \<Rightarrow> 's daemon \<Rightarrow> string \<Rightarrow> string \<Rightarrow> 's daemon" where
  "publish_conflict_resolved S w rel resolution =
     publish_state_event w
       (ConflictResolved (sv_device S) rel resolution
          (case sc_get (w_fs w) (w_cache w) (path_of rel) of None \<Rightarrow> vc_new | Some e \<Rightarrow> ss_vclock e)
          (fs_now (w_fs w)))"

subsection \<open>Mounts\<close>

text \<open>How an external command ended: not started, or its success flag and error output.\<close>

datatype cmd_result = NotStarted string | Exited bool string

definition grpc_mount :: "'s daemon \<Rightarrow> string \<Rightarrow> string \<Rightarrow> bool \<Rightarrow> unit res outcome \<times> 's daemon" where
  "grpc_mount w mountpoint remote spawned =
     (if mountpoint = [] \<or> remote = [] then (Reply (Err (EMissing ''mountpoint and remote'')), w)
      else if mountpoint \<in> set (w_mounts w) then (Reply (Err (EAlreadyExists mountpoint)), w)
      else (case (if fs_exists (w_fs w) (path_of mountpoint) then (Ok (), w_fs w)
                  else fs_create_dir_all (w_fs w) (path_of mountpoint)) of
              (Inl e, f1) \<Rightarrow> (Refuse e, w\<lparr>w_fs := f1\<rparr>)
            | (Inr _, f1) \<Rightarrow>
                if \<not> spawned then (Refuse (EIo ''spawn'' ''tcfs''), w\<lparr>w_fs := f1\<rparr>)
                else (Reply (Ok ()), w\<lparr>w_fs := f1, w_mounts := w_mounts w @ [mountpoint]\<rparr>)))"

definition grpc_unmount ::
  "'s daemon \<Rightarrow> string \<Rightarrow> cmd_result \<Rightarrow> cmd_result \<Rightarrow> unit res outcome \<times> 's daemon" where
  "grpc_unmount w mountpoint fusermount3 fusermount =
     (let unmounted = (Reply (Ok ()), w\<lparr>w_mounts := removeAll mountpoint (w_mounts w)\<rparr>)
      in if mountpoint = [] then (Reply (Err (EMissing ''mountpoint'')), w)
         else (case fusermount3 of
                 Exited True out \<Rightarrow> unmounted
               | _ \<Rightarrow> (case fusermount of
                         Exited True out \<Rightarrow> unmounted
                       | Exited False out \<Rightarrow> (Reply (Err (EIo ''fusermount'' out)), w)
                       | NotStarted e \<Rightarrow> (Reply (Err (EIo ''fusermount'' e)), w))))"

subsection \<open>Push\<close>

record PushProgress =
  pp_bytes_sent :: u64
  pp_total_bytes :: u64
  pp_chunk_hash :: string
  pp_error :: "err option"

text \<open>The request stream: the first non-empty path, and all data in order.\<close>

fun push_collect :: "string \<Rightarrow> bytes \<Rightarrow> (string \<times> bytes) res list \<Rightarrow> (string \<times> bytes) res" where
  "push_collect p d [] = Ok (p, d)"
| "push_collect p d (Inl e # cs) = Inl e"
| "push_collect p d (Inr (q, x) # cs) = push_collect (if p = [] then q else p) (d @ x) cs"

text \<open>
  A temporary directory is created empty and removed with its content when the handler leaves;
  a removal that fails leaves it in place.
\<close>

definition make_tempdir :: "fs \<Rightarrow> path \<Rightarrow> fs" where
  "make_tempdir f td = f\<lparr>dirs := (dirs f)(td := True)\<rparr>"

definition drop_tempdir :: "fs \<Rightarrow> path \<Rightarrow> fs" where
  "drop_tempdir f td =
     (if fault f OpRemove td then f
      else f\<lparr>files := (\<lambda>p. if is_ancestor td p then None else files f p),
             dirs := (\<lambda>p. dirs f p \<and> \<not> is_ancestor td p)\<rparr>)"

text \<open>Writing the received bytes below the temporary directory and uploading them from there.\<close>

definition push_via ::
  "'s libs \<Rightarrow> rnd \<Rightarrow> service \<Rightarrow> 's daemon \<Rightarrow> path \<Rightarrow> string \<Rightarrow> bytes \<Rightarrow> PushProgress outcome \<times> 's daemon" where
  "push_via E rn S w td pth data =
     (let lp = path_join td (path_of pth)
      in case fs_ensure_parent (w_fs w) lp of
           (Inl e, f1) \<Rightarrow> (Refuse e, w\<lparr>w_fs := f1\<rparr>)
         | (Inr _, f1) \<Rightarrow>
             (case fs_write f1 lp data of
                (Inl e, f2) \<Rightarrow> (Refuse e, w\<lparr>w_fs := f2\<rparr>)
              | (Inr _, f2) \<Rightarrow>
                  (case upload_file_with_device E rn f2 (w_store w) (w_cache w) lp (sv_bucket S) (sv_device S)
                          (Some pth) None of
                     (r, s', c') \<Rightarrow>
                       (let w' = w\<lparr>w_fs := f2, w_store := s', w_cache := c'\<rparr>
                        in case r of
                             Inl e \<Rightarrow> (Reply \<lparr>pp_bytes_sent = 0, pp_total_bytes = u64_len data,
                                              pp_chunk_hash = [], pp_error = Some e\<rparr>, w')
                           | Inr u \<Rightarrow>
                               (Reply \<lparr>pp_bytes_sent = u64_len data, pp_total_bytes = u64_len data,
                                       pp_chunk_hash = ur_hash u, pp_error = None\<rparr>,
                                if ur_skipped u then w'
                                else publish_state_event w'
                                       (FileSynced (sv_device S) pth (ur_hash u) (u64_len data) vc_new
                                          (ur_remote_path u) (fs_now f2)))))))"

definition grpc_push ::
  "'s libs \<Rightarrow> rnd \<Rightarrow> service \<Rightarrow> path res \<Rightarrow> 's daemon \<Rightarrow> (string \<times> bytes) res list \<Rightarrow>
   PushProgress outcome \<times> 's daemon" where
  "grpc_push E rn S tempdir w stream =
     release_operator (lock_operator w (\<lambda>w1.
       if \<not> w_operator w1 then (Refuse (EMissing ''storage operator''), w1)
       else (case push_collect [] [] stream of
               Inl e \<Rightarrow> (Refuse e, w1)
             | Inr (pth, data) \<Rightarrow>
                 if pth = [] then (Refuse (EMissing ''path''), w1)
                 else (case tempdir of
                         Inl e \<Rightarrow> (Refuse e, w1)
                       | Inr td \<Rightarrow>
                           (case push_via E rn S (w1\<lparr>w_fs := make_tempdir (w_fs w1) td\<rparr>) td pth data of
                              (r, w2) \<Rightarrow> (r, w2\<lparr>w_fs := drop_tempdir (w_fs w2) td\<rparr>))))))"

subsection \<open>Pull and hydrate\<close>

record PullProgress =
  pl_bytes_received :: u64
  pl_total_bytes :: u64
  pl_error :: "err option"

definition grpc_pull ::
  "'s libs \<Rightarrow> service \<Rightarrow> 's daemon \<Rightarrow> string \<Rightarrow> string \<Rightarrow> PullProgress outcome \<times> 's daemon" where
  "grpc_pull E S w remote_path local_path =
     release_operator (lock_operator w (\<lambda>w1.
       if \<not> w_operator w1 then (Refuse (EMissing ''storage operator''), w1)
       else (case engine_download E w1 remote_path (path_of local_path) (sv_bucket S) (sv_device S) of
               (Inr dl, w2) \<Rightarrow> (Reply \<lparr>pl_bytes_received = dr_bytes dl, pl_total_bytes = dr_bytes dl,
                                        pl_error = None\<rparr>, w2)
             | (Inl e, w2) \<Rightarrow> (Reply \<lparr>pl_bytes_received = 0, pl_total_bytes = 0, pl_error = Some e\<rparr>, w2))))"

record HydrateProgress =
  hp_bytes_received :: u64
  hp_total_bytes :: u64
  hp_local_path :: string
  hp_error :: "err option"

text \<open>What the stub file asks for: its metadata, the real path and the manifest.\<close>

definition hydrate_request ::
  "service \<Rightarrow> fs \<Rightarrow> string \<Rightarrow> (StubMeta \<times> string \<times> string) res" where
  "hydrate_request S f stub_path =
     (case read_to_string f (path_of stub_path) of
        Inl e \<Rightarrow> Inl e
      | Inr content \<Rightarrow>
          (case stub_parse content of
             Inl e \<Rightarrow> Inl e
           | Inr meta \<Rightarrow>
               (case stub_to_real_name stub_path of
                  None \<Rightarrow> Err (EParse ''real name'' stub_path)
                | Some real \<Rightarrow>
                    (case blake3_hex meta of
                       None \<Rightarrow> Err (EParse ''stub oid'' (sm_oid meta))
                     | Some h \<Rightarrow> Ok (meta, real, manifest_key (sv_bucket S) h)))))"

definition grpc_hydrate ::
  "'s libs \<Rightarrow> service \<Rightarrow> 's daemon \<Rightarrow> string \<Rightarrow> HydrateProgress outcome \<times> 's daemon" where
  "grpc_hydrate E S w stub_path =
     (case hydrate_request S (w_fs w) stub_path of
        Inl e \<Rightarrow> (Refuse e, w)
      | Inr (meta, real, manifest) \<Rightarrow>
          release_operator (lock_operator w (\<lambda>w1.
            if \<not> w_operator w1 then (Refuse (EMissing ''storage operator''), w1)
            else lock_operator w1 (\<lambda>w2.
              case engine_download E w2 manifest (path_of real) (sv_bucket S) (sv_device S) of
                (Inr dl, w3) \<Rightarrow>
                  (Reply \<lparr>hp_bytes_received = dr_bytes dl, hp_total_bytes = sm_size meta,
                          hp_local_path = real, hp_error = None\<rparr>,
                   w3\<lparr>w_fs := snd (fs_remove_file (w_fs w3) (path_of stub_path))\<rparr>)
              | (Inl e, w3) \<Rightarrow>
                  (Reply \<lparr>hp_bytes_received = 0, hp_total_bytes = sm_size meta, hp_local_path = [],
                          hp_error = Some e\<rparr>, w3)))))"

subsection \<open>Unsync and status\<close>

definition grpc_unsync :: "state_codec \<Rightarrow> 's daemon \<Rightarrow> string \<Rightarrow> unit res outcome \<times> 's daemon" where
  "grpc_unsync J w pth =
     (if sc_get (w_fs w) (w_cache w) (path_of pth) = None then (Reply (Err (EMissing pth)), w)
      else (case sc_flush J (w_fs w) (sc_remove (w_fs w) (w_cache w) (path_of pth)) of
              (Inl e, f', c') \<Rightarrow> (Reply (Inl e), w\<lparr>w_fs := f', w_cache := c'\<rparr>)
            | (Inr _, f', c') \<Rightarrow> (Reply (Ok ()), w\<lparr>w_fs := f', w_cache := c'\<rparr>)))"

record SyncStatusResponse =
  st_path :: string
  st_state :: string
  st_blake3 :: string
  st_size :: u64
  st_last_synced :: u64

definition grpc_sync_status :: "'s libs \<Rightarrow> 's daemon \<Rightarrow> string \<Rightarrow> SyncStatusResponse" where
  "grpc_sync_status E w pth =
     (case sc_get (w_fs w) (w_cache w) (path_of pth) of
        Some e \<Rightarrow> \<lparr>st_path = pth, st_state = ''synced'', st_blake3 = ss_blake3 e, st_size = ss_size e,
                   st_last_synced = ss_last_synced e\<rparr>
      | None \<Rightarrow> \<lparr>st_path = pth,
                  st_state = (case sc_needs_sync (l_hash E) (w_fs w) (w_cache w) (path_of pth) of
                                Inr (Some _) \<Rightarrow> ''pending'' | _ \<Rightarrow> ''unknown''),
                  st_blake3 = [], st_size = 0, st_last_synced = 0\<rparr>)"

subsection \<open>Resolving a conflict\<close>

definition keep_local ::
  "'s libs \<Rightarrow> state_codec \<Rightarrow> service \<Rightarrow> 's daemon \<Rightarrow> string \<Rightarrow> string res outcome \<times> 's daemon" where
  "keep_local E J S w pth =
     (case sc_get (w_fs w) (w_cache w) (path_of pth) of
        None \<Rightarrow> (Reply (Err (EMissing pth)), w)
      | Some st \<Rightarrow>
          (let vclock = tick (ss_vclock st) (sv_device S);
               manifest = \<lparr>version = 2, file_hash = ss_blake3 st, file_size = ss_size st, chunks = [],
                           m_vclock = vclock, written_by = sv_device S, written_at = fs_now (w_fs w),
                           rel_path = Some pth, encrypted_file_key = None\<rparr>
           in release_operator (lock_operator w (\<lambda>w1.
                case (if w_operator w1
                      then (case to_bytes (l_mf E) manifest of
                              Inl e \<Rightarrow> (Inl e, w_store w1)
                            | Inr mb \<Rightarrow> op_write (l_op E) (w_store w1) (ss_remote_path st) mb)
                      else (Ok (), w_store w1)) of
                  (Inl e, s') \<Rightarrow> (Refuse e, w1\<lparr>w_store := s'\<rparr>)
                | (Inr _, s') \<Rightarrow>
                    (let w2 = w1\<lparr>w_store := s', w_oplock := False\<rparr>;
                         w3 = (case sc_get (w_fs w2) (w_cache w2) (path_of pth) of
                                 None \<Rightarrow> w2
                               | Some entry \<Rightarrow>
                                   flush_quietly J (w2\<lparr>w_cache := sc_set (w_fs w2) (w_cache w2) (path_of pth)
                                      (entry\<lparr>ss_vclock := vclock, ss_last_synced := fs_now (w_fs w2)\<rparr>)\<rparr>))
                     in (Reply (Ok pth), publish_conflict_resolved S w3 pth ''keep_local''))))))"

text \<open>The recorded remote path of a file, empty when there is none.\<close>

definition cached_remote :: "'s daemon \<Rightarrow> string \<Rightarrow> string" where
  "cached_remote w pth =
     (case sc_get (w_fs w) (w_cache w) (path_of pth) of None \<Rightarrow> [] | Some e \<Rightarrow> ss_remote_path e)"

definition keep_remote ::
  "'s libs \<Rightarrow> service \<Rightarrow> 's daemon \<Rightarrow> string \<Rightarrow> string res outcome \<times> 's daemon" where
  "keep_remote E S w pth =
     (let remote = cached_remote w pth
      in if remote = [] then (Reply (Err (EMissing pth)), w)
         else release_operator (lock_operator w (\<lambda>w1.
           if \<not> w_operator w1 then (Refuse (EMissing ''storage operator''), w1)
           else lock_operator w1 (\<lambda>w2.
             case engine_download E w2 remote (path_of pth) (sv_bucket S) (sv_device S) of
               (Inr _, w3) \<Rightarrow> (Reply (Ok pth), publish_conflict_resolved S w3 pth ''keep_remote'')
             | (Inl e, w3) \<Rightarrow> (Reply (Inl e), w3)))))"

definition conflict_path :: "service \<Rightarrow> string \<Rightarrow> string" where
  "conflict_path S pth =
     (let p = path_of pth;
          stem = (case file_stem p of None \<Rightarrow> [] | Some x \<Rightarrow> x);
          ext = (case extension p of None \<Rightarrow> [] | Some e \<Rightarrow> CHR ''.'' # e);
          parent = (case path_parent p of None \<Rightarrow> path_of [] | Some q \<Rightarrow> q)
      in path_str (path_join parent (path_of (stem @ ''.conflict-'' @ sv_device S @ ext))))"

definition keep_both ::
  "'s libs \<Rightarrow> service \<Rightarrow> 's daemon \<Rightarrow> string \<Rightarrow> string res outcome \<times> 's daemon" where
  "keep_both E S w pth =
     (let remote = cached_remote w pth; cp = conflict_path S pth; p = path_of pth
      in if remote = [] then (Reply (Err (EMissing pth)), w)
         else (case (if fs_exists (w_fs w) p then fs_rename (w_fs w) p (path_of cp) else (Ok (), w_fs w)) of
                 (Inl e, f1) \<Rightarrow> (Reply (Inl e), w\<lparr>w_fs := f1\<rparr>)
               | (Inr _, f1) \<Rightarrow>
                   release_operator (lock_operator (w\<lparr>w_fs := f1\<rparr>) (\<lambda>w1.
                     if \<not> w_operator w1 then (Refuse (EMissing ''storage operator''), w1)
                     else lock_operator w1 (\<lambda>w2.
                       case engine_download E w2 remote p (sv_bucket S) (sv_device S) of
                         (Inr _, w3) \<Rightarrow> (Reply (Ok cp), publish_conflict_resolved S w3 pth ''keep_both'')
                       | (Inl e, w3) \<Rightarrow>
                           (Reply (Inl e), w3\<lparr>w_fs := snd (fs_rename (w_fs w3) (path_of cp) p)\<rparr>))))))"

definition grpc_resolve_conflict ::
  "'s libs \<Rightarrow> state_codec \<Rightarrow> service \<Rightarrow> 's daemon \<Rightarrow> string \<Rightarrow> string \<Rightarrow> string res outcome \<times> 's daemon" where
  "grpc_resolve_conflict E J S w pth resolution =
     (if resolution = ''defer'' then (Reply (Ok pth), w)
      else if resolution = ''keep_local'' then keep_local E J S w pth
      else if resolution = ''keep_remote'' then keep_remote E S w pth
      else if resolution = ''keep_both'' then keep_both E S w pth
      else (Reply (Err (EUnsupported resolution)), w))"

section \<open>Model: the worker\<close>

datatype SyncTask =
    Push (task_id: string) string string
  | Pull (task_id: string) string string string
  | Unsync (task_id: string) string

fun type_name :: "SyncTask \<Rightarrow> string" where
  "type_name (Push i l r) = ''push''"
| "type_name (Pull i m r l) = ''pull''"
| "type_name (Unsync i l) = ''unsync''"

text \<open>The directory tree below a path and the random bytes of each upload are arguments.\<close>

definition dispatch_task ::
  "'s libs \<Rightarrow> state_codec \<Rightarrow> globber \<Rightarrow> (nat \<Rightarrow> rnd) \<Rightarrow> (path \<Rightarrow> dtree) \<Rightarrow> 's daemon \<Rightarrow> SyncTask \<Rightarrow>
   unit res \<times> 's daemon" where
  "dispatch_task E J G rn tree w task =
     (case task of
        Push i local_path remote_prefix \<Rightarrow>
          (let p = path_of local_path;
               flush = (\<lambda>w1. case sc_flush J (w_fs w1) (w_cache w1) of
                               (r, f', c') \<Rightarrow> (r, w1\<lparr>w_fs := f', w_cache := c'\<rparr>))
           in if fs_is_file (w_fs w) p
              then (case upload_file E (rn 0) (w_fs w) (w_store w) (w_cache w) p remote_prefix of
                      (Inl e, s', c') \<Rightarrow> (Inl e, w\<lparr>w_store := s', w_cache := c'\<rparr>)
                    | (Inr _, s', c') \<Rightarrow> flush (w\<lparr>w_store := s', w_cache := c'\<rparr>))
              else if fs_is_dir (w_fs w) p
              then (case push_tree E J G rn (w_fs w) (tree p) (w_store w) (w_cache w) p remote_prefix of
                      (Inl e, f', s', c') \<Rightarrow> (Inl e, w\<lparr>w_fs := f', w_store := s', w_cache := c'\<rparr>)
                    | (Inr _, f', s', c') \<Rightarrow> flush (w\<lparr>w_fs := f', w_store := s', w_cache := c'\<rparr>))
              else (Err (EMissing local_path), w))
      | Pull i manifest remote_prefix local_path \<Rightarrow>
          (case download_file E (w_fs w) (w_store w) manifest (path_of local_path) remote_prefix of
             (r, f') \<Rightarrow> (map_sum id (\<lambda>_. ()) r, w\<lparr>w_fs := f'\<rparr>))
      | Unsync i local_path \<Rightarrow>
          (let p = path_of local_path
           in if fs_exists (w_fs w) p \<and> \<not> is_stub_path p
              then (case fs_remove_file (w_fs w) p of (r, f') \<Rightarrow> (r, w\<lparr>w_fs := f'\<rparr>))
              else (Ok (), w)))"

text \<open>
  What becomes of the message of a task: acknowledged, handed back for redelivery, or, when the
  task panics, dropped without an answer (the server redelivers it after its acknowledgement time).
\<close>

datatype disposition = Acked | Naked | Dropped

definition is_panic :: "err \<Rightarrow> bool" where
  "is_panic e = (case e of EPanic _ \<Rightarrow> True | _ \<Rightarrow> False)"

text \<open>Executing a task counts it by type and answers the message; a panic skips both.\<close>

record WorkerMetrics =
  tasks_processed :: "string \<Rightarrow> u64"
  tasks_failed :: "string \<Rightarrow> u64"

definition settle_task :: "WorkerMetrics \<Rightarrow> SyncTask \<Rightarrow> unit res \<Rightarrow> disposition \<times> WorkerMetrics" where
  "settle_task ms task r =
     (case r of
        Inr _ \<Rightarrow> (Acked, ms\<lparr>tasks_processed := (tasks_processed ms)(type_name task := tasks_processed ms (type_name task) + 1)\<rparr>)
      | Inl e \<Rightarrow>
          if is_panic e then (Dropped, ms)
          else (Naked, ms\<lparr>tasks_failed := (tasks_failed ms)(type_name task := tasks_failed ms (type_name task) + 1)\<rparr>))"

definition execute_task ::
  "'s libs \<Rightarrow> state_codec \<Rightarrow> globber \<Rightarrow> (nat \<Rightarrow> rnd) \<Rightarrow> (path \<Rightarrow> dtree) \<Rightarrow> WorkerMetrics \<Rightarrow> 's daemon \<Rightarrow> SyncTask \<Rightarrow>
   disposition \<times> WorkerMetrics \<times> 's daemon" where
  "execute_task E J G rn tree ms w task =
     (case dispatch_task E J G rn tree w task of
        (r, w') \<Rightarrow> (case settle_task ms task r of (d, ms') \<Rightarrow> (d, ms', w')))"

section \<open>Pushing and pulling\<close>

lemma publish_state_event_frame [simp]:
  "w_fs (publish_state_event w ev) = w_fs w" "w_store (publish_state_event w ev) = w_store w"
  "w_cache (publish_state_event w ev) = w_cache w" "w_operator (publish_state_event w ev) = w_operator w"
  "w_oplock (publish_state_event w ev) = w_oplock w"
  "w_nats w = Some (\<lambda>_. True) \<Longrightarrow> w_events (publish_state_event w ev) = w_events w @ [ev]"
  by (simp_all add: publish_state_event_def split: option.split)

lemma publish_conflict_resolved_frame [simp]:
  "w_fs (publish_conflict_resolved S w r x) = w_fs w" "w_store (publish_conflict_resolved S w r x) = w_store w"
  "w_cache (publish_conflict_resolved S w r x) = w_cache w"
  by (simp_all add: publish_conflict_resolved_def)

lemma flush_quietly_frame [simp]:
  "w_store (flush_quietly J w) = w_store w" "w_operator (flush_quietly J w) = w_operator w"
  by (simp_all add: flush_quietly_def split: prod.split)

lemma push_via_OkE:
  assumes "push_via E rn S w td pth data = (Reply pr, w')" and "pp_error pr = None"
  obtains f2 u s' c' where
    "upload_file_with_device E rn f2 (w_store w) (w_cache w) (path_join td (path_of pth)) (sv_bucket S) (sv_device S)
       (Some pth) None = (Inr u, s', c')"
    "map_option f_data (files f2 (path_join td (path_of pth))) = Some data" "canon f2 = canon (w_fs w)"
    "pp_chunk_hash pr = ur_hash u" "w_store w' = s'" "w_operator w' = w_operator w"
    "\<not> ur_skipped u \<and> w_nats w = Some (\<lambda>_. True) \<longrightarrow>
       w_events w' = w_events w @ [FileSynced (sv_device S) pth (ur_hash u) (u64_len data) vc_new
                                     (ur_remote_path u) (fs_now f2)]"
proof -
  let ?lp = "path_join td (path_of pth)"
  obtain f1 f2 where f1: "fs_ensure_parent (w_fs w) ?lp = (Inr (), f1)" and f2: "fs_write f1 ?lp data = (Inr (), f2)"
    using assms(1) by (auto simp: push_via_def Let_def split: prod.splits sum.splits)
  have "canon f1 = canon (w_fs w)"
    using ensure_parent_env(2)[of "w_fs w" ?lp] by (simp add: f1)
  moreover obtain r s' c' where up: "upload_file_with_device E rn f2 (w_store w) (w_cache w) ?lp (sv_bucket S)
      (sv_device S) (Some pth) None = (r, s', c')"
    using prod_cases3 by blast
  moreover obtain u where "r = Inr u"
    using assms by (cases r) (auto simp: push_via_def Let_def f1 f2 up)
  ultimately show ?thesis
    using that[of f2 u s' c'] fs_write_content[OF f2] fs_write_env[OF f2] assms(1) f1 f2 up
    by (auto simp: push_via_def Let_def)
qed

lemma grpc_push_ReplyE:
  assumes "grpc_push E rn S (Inr td) w stream = (Reply pr, w')" and "push_collect [] [] stream = Inr (pth, data)"
  obtains w1 w2 where "push_via E rn S w1 td pth data = (Reply pr, w2)"
    "w_store w1 = w_store w" "w_cache w1 = w_cache w" "w_nats w1 = w_nats w" "w_events w1 = w_events w"
    "w_operator w1" "canon (w_fs w1) = canon (w_fs w)" "w_store w' = w_store w2" "w_events w' = w_events w2"
    "w_operator w' = w_operator w2" "\<not> w_oplock w'"
proof -
  let ?w1 = "w\<lparr>w_oplock := True, w_fs := make_tempdir (w_fs w) td\<rparr>"
  obtain r w2 where v: "push_via E rn S ?w1 td pth data = (r, w2)" by fastforce
  have ops: "\<not> w_oplock w" "w_operator w" "pth \<noteq> []" "r = Reply pr"
    using assms v
    by (auto simp: grpc_push_def lock_operator_def release_operator_def split: if_splits outcome.splits)
  then have "w' = w2\<lparr>w_fs := drop_tempdir (w_fs w2) td, w_oplock := False\<rparr>"
    using assms v by (auto simp: grpc_push_def lock_operator_def release_operator_def)
  with v ops show ?thesis by (intro that[of ?w1 w2]) (simp_all add: make_tempdir_def)
qed

text \<open>An upload that succeeds on an untracked file read it, and did so as a new file.\<close>

lemma upload_untracked:
  assumes "upload_file_with_device E rn f s c lp p dev rel enc = (Inr u, s', c')" and "sc_get f c lp = None"
  shows "sc_needs_sync (l_hash E) f c lp = Inr (Some NewFile) \<and> fs_read f lp = Inr (f_data (the (files f lp)))"
proof -
  have "sc_needs_sync (l_hash E) f c lp = Inr (Some NewFile)"
    using assms by (auto simp: upload_file_with_device_def sc_needs_sync_def needs_sync_entry_def split: sum.splits)
  moreover from this assms have "is_ok (chunk_file (l_hash E) (l_cdc E) f lp)"
    by (auto simp: upload_file_with_device_def split: sum.splits)
  ultimately show ?thesis
    by (auto simp: chunk_file_def fs_read_def split: sum.splits if_splits option.splits)
qed

lemma engine_download_writes:
  assumes "fetch_verified E (w_store w) remote p None = Inr (m, d)" and "writable (w_fs w) q"
    and "\<not> fault (w_fs w) OpStat q"
  shows "\<exists>dl w'. engine_download E w remote q p dev = (Inr dl, w') \<and> map_option f_data (files (w_fs w') q) = Some d"
proof -
  obtain dr g' st' where "download_file_with_device E (w_fs w) (w_store w) remote q p dev (Some (w_cache w)) None =
      (Inr dr, g', st')" "map_option f_data (files g' q) = Some d"
    using download_writes_state[OF assms] by metis
  then show ?thesis by (simp add: engine_download_def)
qed

text \<open>
  A pushed file can be pulled. When a push of new content from an untracked path succeeds,
  the hash it reports names a manifest from which a pull to any writable place restores exactly
  the streamed bytes, and the other devices are told the path, hash and manifest (with an empty
  clock).
\<close>

theorem push_then_pull:
  assumes "engine_laws E" and "good_rnd rn" and "cas_in E (sv_bucket S) U (w_store w)" and "inj_on (hex_of E) U"
    and "push_collect [] [] stream = Inr (pth, data)" and "data \<noteq> []"
    and "\<And>f. fs_read f (path_join td (path_of pth)) = Inr data \<Longrightarrow>
           upload_blobs_in E rn f (path_join td (path_of pth)) None U"
    and "\<And>f. canon f = canon (w_fs w) \<Longrightarrow> sc_get f (w_cache w) (path_join td (path_of pth)) = None"
    and "op_exists (l_op E) (w_store w) (manifest_key (sv_bucket S) (hex_of E data)) = Inr False"
    and "grpc_push E rn S (Inr td) w stream = (Reply pr, w')" and "pp_error pr = None"
    and "writable (w_fs w') (path_of q)" and "\<not> fault (w_fs w') OpStat (path_of q)"
  shows "(\<exists>pl w''. grpc_pull E S w' (manifest_key (sv_bucket S) (pp_chunk_hash pr)) q = (Reply pl, w'') \<and>
            pl_error pl = None \<and> map_option f_data (files (w_fs w'') (path_of q)) = Some data) \<and>
         (w_nats w = Some (\<lambda>_. True) \<longrightarrow>
            (\<exists>t. w_events w' = w_events w @ [FileSynced (sv_device S) pth (hex_of E data) (u64_len data) vc_new
                                             (manifest_key (sv_bucket S) (hex_of E data)) t]))"
proof -
  let ?lp = "path_join td (path_of pth)"
  obtain w1 w2 where via: "push_via E rn S w1 td pth data = (Reply pr, w2)"
    and w1: "w_store w1 = w_store w" "w_cache w1 = w_cache w" "w_nats w1 = w_nats w" "w_events w1 = w_events w"
      "w_operator w1" "canon (w_fs w1) = canon (w_fs w)"
    and w': "w_store w' = w_store w2" "w_events w' = w_events w2" "w_operator w' = w_operator w2" "\<not> w_oplock w'"
    using grpc_push_ReplyE[OF assms(10,5)] by metis
  obtain f2 u s' c' where up: "upload_file_with_device E rn f2 (w_store w) (w_cache w) ?lp (sv_bucket S) (sv_device S)
       (Some pth) None = (Inr u, s', c')"
    and f2: "map_option f_data (files f2 ?lp) = Some data" "canon f2 = canon (w_fs w)"
    and w2: "pp_chunk_hash pr = ur_hash u" "w_store w2 = s'" "w_operator w2 = w_operator w1"
    and ev: "\<not> ur_skipped u \<and> w_nats w = Some (\<lambda>_. True) \<longrightarrow>
       w_events w2 = w_events w @ [FileSynced (sv_device S) pth (ur_hash u) (u64_len data) vc_new
                                     (ur_remote_path u) (fs_now f2)]"
    using push_via_OkE[OF via assms(11)] unfolding w1 by metis
  have ns: "sc_needs_sync (l_hash E) f2 (w_cache w) ?lp = Inr (Some NewFile)" and rd: "fs_read f2 ?lp = Inr data"
    using upload_untracked[OF up assms(8)[OF f2(2)]] f2(1) by auto
  note N = upload_new_fetch[OF assms(1-4) assms(7)[OF rd] ns rd assms(6,9) up]
  then obtain m where "fetch_verified E (w_store w') (manifest_key (sv_bucket S) (pp_chunk_hash pr)) (sv_bucket S) None =
      Inr (m, data)"
    using w' w2 by auto
  then have "\<exists>dl w''. engine_download E (w'\<lparr>w_oplock := True\<rparr>) (manifest_key (sv_bucket S) (pp_chunk_hash pr)) (path_of q)
      (sv_bucket S) (sv_device S) = (Inr dl, w'') \<and> map_option f_data (files (w_fs w'') (path_of q)) = Some data"
    using assms(12,13) by (intro engine_download_writes) simp_all
  then show ?thesis
    using N ev w' w1 w2 by (auto simp: grpc_pull_def lock_operator_def release_operator_def)
qed

section \<open>Resolving conflicts\<close>

text \<open>
  C38: resolving a conflict in favour of the local file destroys the stored copy. A successful
  \<^verbatim>\<open>keep_local\<close> overwrites the manifest of the file with one that lists no chunks, so afterwards no
  device can download that file from the recorded remote path.
\<close>

theorem keep_local_destroys_manifest:
  assumes "store_laws (l_op E)" and "manifest_codec_laws (l_mf E)" and "w_operator w"
    and "sc_get (w_fs w) (w_cache w) (path_of pth) = Some st"
    and "grpc_resolve_conflict E J S w pth ''keep_local'' = (Reply (Inr x), w')"
  shows "fetch_verified E (w_store w') (ss_remote_path st) p enc = Inl (EEmptyManifest (ss_remote_path st))"
proof -
  define m where "m = \<lparr>version = 2, file_hash = ss_blake3 st, file_size = ss_size st, chunks = [],
    m_vclock = tick (ss_vclock st) (sv_device S), written_by = sv_device S, written_at = fs_now (w_fs w),
    rel_path = Some pth, encrypted_file_key = None\<rparr>"
  obtain mb s' where m: "chunks m = []" "to_bytes (l_mf E) m = Inr mb"
    and wr: "op_write (l_op E) (w_store w) (ss_remote_path st) mb = (Inr (), s')" and s': "w_store w' = s'"
    using assms(3-5) unfolding m_def
    by (auto simp: grpc_resolve_conflict_def keep_local_def Let_def lock_operator_def release_operator_def
        split: if_splits sum.splits prod.splits outcome.splits)
  with store_write_read[OF assms(1) wr] to_bytes_from_bytes[OF assms(2) m(2)] show ?thesis
    by (simp add: fetch_verified_def chunk_hashes_def)
qed

text \<open>
  The other two resolutions, and hydration, take the operator mutex twice: once they reach the
  storage operator they never return and leave the mutex taken.
\<close>

lemma second_lock_hangs:
  assumes "w_operator w" and "\<not> w_oplock w"
  shows "cached_remote w pth \<noteq> [] \<Longrightarrow> keep_remote E S w pth = (Hangs, w\<lparr>w_oplock := True\<rparr>)"
    and "hydrate_request S (w_fs w) stub = Inr (meta, real, manifest) \<Longrightarrow>
         grpc_hydrate E S w stub = (Hangs, w\<lparr>w_oplock := True\<rparr>)"
    and "cached_remote w pth \<noteq> [] \<Longrightarrow> files (w_fs w) (path_of pth) = None \<Longrightarrow> \<not> dirs (w_fs w) (path_of pth) \<Longrightarrow>
         keep_both E S w pth = (Hangs, w\<lparr>w_oplock := True\<rparr>)"
  using assms
  by (simp_all add: keep_remote_def grpc_hydrate_def keep_both_def lock_operator_def release_operator_def Let_def
      fs_exists_def)

text \<open>A file announced by a push is never pulled by a device that already counts changes to it.\<close>

lemma pushed_update_not_pulled:
  assumes "\<not> vc_le (ss_vclock st) vc_new"
  shows "\<not> should_pull (Some st) vc_new blake3 dev rdev"
  using assms by (simp add: should_pull_def vc_le_def)

text \<open>Unsync forgets exactly the named file, and only when it was tracked.\<close>

lemma sc_remove_entries: "entries (sc_remove f c p) = (entries c)(path_key f p := None)"
  by (simp add: sc_remove_def Let_def)

lemma grpc_unsync_entries:
  assumes "grpc_unsync J w pth = (r, w')"
  shows "entries (w_cache w') = (entries (w_cache w))(path_key (w_fs w) (path_of pth) := None) \<and>
         (r = Reply (Inl (EMissing pth)) \<or> sc_get (w_fs w) (w_cache w) (path_of pth) \<noteq> None)"
proof (cases "sc_get (w_fs w) (w_cache w) (path_of pth)")
  case None
  with assms show ?thesis by (auto simp: grpc_unsync_def sc_get_def)
next
  case (Some st)
  obtain x f' c' where fl: "sc_flush J (w_fs w) (sc_remove (w_fs w) (w_cache w) (path_of pth)) = (x, f', c')"
    using prod_cases3 by blast
  then have "entries c' = entries (sc_remove (w_fs w) (w_cache w) (path_of pth))"
    using sc_flush_env by blast
  with fl Some assms show ?thesis
    by (auto simp: grpc_unsync_def sc_remove_entries split: sum.splits)
qed

section \<open>Concrete requests\<close>

definition demo_service :: service where
  "demo_service = \<lparr>sv_bucket = ''p'', sv_device = ''d1''\<rparr>"

definition kept_manifest :: SyncManifest where
  "kept_manifest = \<lparr>version = 2, file_hash = ss_blake3 sample_state, file_size = ss_size sample_state, chunks = [],
     m_vclock = tick (ss_vclock sample_state) ''d1'', written_by = ''d1'', written_at = 9, rel_path = Some ''/a'',
     encrypted_file_key = None\<rparr>"

theorem keep_local_destroys_manifest_witness:
  "\<exists>w'. grpc_resolve_conflict (demo_libs kept_manifest) tiny_codec demo_service demo_daemon ''/a'' ''keep_local'' =
          (Reply (Inr ''/a''), w') \<and>
        fetch_verified (demo_libs kept_manifest) (w_store w') (ss_remote_path sample_state) ''p'' None =
          Inl (EEmptyManifest (ss_remote_path sample_state))"
proof -
  have now: "fs_now one_file = 9" by (simp add: one_file_def)
  have "to_bytes (one_manifest_codec kept_manifest) kept_manifest = Inr (bytes_of_str ''{m}'')"
    by (simp add: to_bytes_def one_manifest_codec_def)
  then have "\<exists>w'. grpc_resolve_conflict (demo_libs kept_manifest) tiny_codec demo_service demo_daemon ''/a'' ''keep_local'' =
      (Reply (Inr ''/a''), w')"
    by (simp add: grpc_resolve_conflict_def keep_local_def demo_entry Let_def lock_operator_def release_operator_def
        demo_service_def mem_operator_def now kept_manifest_def)
  moreover have "store_laws (l_op (demo_libs kept_manifest))" "manifest_codec_laws (l_mf (demo_libs kept_manifest))"
    using demo_laws[of kept_manifest] by (simp_all add: engine_laws_def)
  ultimately show ?thesis
    using keep_local_destroys_manifest[of "demo_libs kept_manifest" demo_daemon "''/a''" sample_state] demo_entry
    by (metis demo_daemon_simps(1-3))
qed

text \<open>The client streams two bytes for \<^verbatim>\<open>n\<close> in two messages; the temporary directory is \<^verbatim>\<open>/t\<close>.\<close>

definition push_stream :: "(string \<times> bytes) res list" where
  "push_stream = [Inr (''n'', [1]), Inr ([], [2])]"

definition push_daemon :: "(string \<Rightarrow> bytes option) daemon" where
  "push_daemon = demo_daemon\<lparr>w_cache := sample_cache\<rparr>"

definition push_tmp_fs :: fs where
  "push_tmp_fs = snd (fs_write (snd (fs_ensure_parent (make_tempdir one_file (path_of ''/t'')) (path_of ''/t/n'')))
     (path_of ''/t/n'') [1, 2])"

definition pushed_manifest :: SyncManifest where
  "pushed_manifest = \<lparr>version = 2, file_hash = demo_hex [1, 2], file_size = 2, chunks = [demo_hex [1, 2]],
     m_vclock = tick vc_new ''d1'', written_by = ''d1'', written_at = 9, rel_path = Some ''n'',
     encrypted_file_key = None\<rparr>"

lemma push_tmp_fs_facts:
  "path_join (path_of ''/t'') (path_of ''n'') = path_of ''/t/n''"
  "fst (fs_ensure_parent (make_tempdir one_file (path_of ''/t'')) (path_of ''/t/n'')) = Inr ()"
  "fst (fs_write (snd (fs_ensure_parent (make_tempdir one_file (path_of ''/t'')) (path_of ''/t/n''))) (path_of ''/t/n'') [1, 2]) = Inr ()"
  "chunk_file toy_hasher whole_cdc push_tmp_fs (path_of ''/t/n'') = Inr ([demo_chunk], [1, 2])"
  "fs_metadata push_tmp_fs (path_of ''/t/n'') = Inr (2, Some 9)"
  "fs_now push_tmp_fs = 9"
  "writable (drop_tempdir push_tmp_fs (path_of ''/t'')) (path_of ''/b'')"
  "\<not> fault (drop_tempdir push_tmp_fs (path_of ''/t'')) OpStat (path_of ''/b'')"
  by code_simp+

lemma push_untracked: "sc_get f sample_cache p = None"
  by (simp add: sc_get_def sample_cache_def)

lemma push_upload_ok:
  "\<exists>u s' c'. upload_file_with_device (demo_libs pushed_manifest) demo_rnd push_tmp_fs empty_store sample_cache
     (path_of ''/t/n'') ''p'' ''d1'' (Some ''n'') None = (Inr u, s', c')"
proof -
  have ns: "sc_needs_sync toy_hasher push_tmp_fs sample_cache (path_of ''/t/n'') = Inr (Some NewFile)"
    by (simp add: sc_needs_sync_def needs_sync_entry_def push_untracked push_tmp_fs_facts)
  have m: "\<lparr>version = 2, file_hash = demo_hex [1, 2], file_size = u64_len [1, 2 :: u8],
      chunks = [demo_hex [1, 2]], m_vclock = tick vc_new ''d1'', written_by = ''d1'',
      written_at = 9, rel_path = Some ''n'', encrypted_file_key = None\<rparr> = pushed_manifest"
    by (simp add: pushed_manifest_def u64_len_def)
  have tb: "to_bytes (one_manifest_codec pushed_manifest) pushed_manifest = Inr (bytes_of_str ''{m}'')"
    by (simp add: to_bytes_def one_manifest_codec_def)
  have ub: "upload_blob (demo_libs pushed_manifest) None nonces [1, 2] 0 demo_chunk = Inr ([1, 2], demo_hex [1, 2])" for nonces
    by (simp add: upload_blob_def demo_chunk_def demo_hex_def hash_to_hex_def)
  show ?thesis
    by (simp add: upload_file_with_device_def ns push_tmp_fs_facts Let_def push_untracked remote_check_def
        mem_operator_def exists_or_false_def upload_write_def upload_key_def ub put_chunk_def wrapped_key_def m tb
        record_sync_def make_sync_state_full_def)
qed

lemma push_demo_via:
  assumes "w_fs w = make_tempdir one_file (path_of ''/t'')" and "w_store w = empty_store" and "w_cache w = sample_cache"
  obtains pr w' where "push_via (demo_libs pushed_manifest) demo_rnd demo_service w (path_of ''/t'') ''n'' [1, 2] = (Reply pr, w')"
    "pp_error pr = None" "w_fs w' = push_tmp_fs"
proof -
  obtain f1 where e1: "fs_ensure_parent (make_tempdir one_file (path_of ''/t'')) (path_of ''/t/n'') = (Inr (), f1)"
    and e2: "fs_write f1 (path_of ''/t/n'') [1, 2] = (Inr (), push_tmp_fs)"
    using push_tmp_fs_facts(2,3) unfolding push_tmp_fs_def by (metis prod.collapse)
  obtain u s' c' where up: "upload_file_with_device (demo_libs pushed_manifest) demo_rnd push_tmp_fs empty_store sample_cache
     (path_of ''/t/n'') ''p'' ''d1'' (Some ''n'') None = (Inr u, s', c')"
    using push_upload_ok by metis
  have S: "sv_bucket demo_service = ''p''" "sv_device demo_service = ''d1''"
    by (simp_all add: demo_service_def)
  let ?w = "w\<lparr>w_fs := push_tmp_fs, w_store := s', w_cache := c'\<rparr>"
  let ?w' = "if ur_skipped u then ?w else publish_state_event ?w (FileSynced ''d1'' ''n'' (ur_hash u) (u64_len [1, 2 :: u8])
      vc_new (ur_remote_path u) (fs_now push_tmp_fs))"
  have fs: "w_fs ?w' = push_tmp_fs" by simp
  have "push_via (demo_libs pushed_manifest) demo_rnd demo_service w (path_of ''/t'') ''n'' [1, 2] =
      (Reply \<lparr>pp_bytes_sent = u64_len [1, 2 :: u8], pp_total_bytes = u64_len [1, 2 :: u8], pp_chunk_hash = ur_hash u,
              pp_error = None\<rparr>, ?w')"
    by (simp add: push_via_def Let_def push_tmp_fs_facts(1) assms e1 e2 S up)
  then show ?thesis by (rule that[OF _ _ fs]) simp
qed

lemma push_demo_reply:
  obtains pr w' where "grpc_push (demo_libs pushed_manifest) demo_rnd demo_service (Inr (path_of ''/t'')) push_daemon push_stream =
     (Reply pr, w')" "pp_error pr = None" "w_fs w' = drop_tempdir push_tmp_fs (path_of ''/t'')"
proof -
  let ?w1 = "push_daemon\<lparr>w_oplock := True, w_fs := make_tempdir one_file (path_of ''/t'')\<rparr>"
  have w: "\<not> w_oplock push_daemon" "w_operator push_daemon" "w_fs push_daemon = one_file"
    "w_store push_daemon = empty_store" "w_cache push_daemon = sample_cache"
    by (simp_all add: push_daemon_def)
  obtain pr w2 where v: "push_via (demo_libs pushed_manifest) demo_rnd demo_service ?w1 (path_of ''/t'') ''n'' [1, 2] =
      (Reply pr, w2)" "pp_error pr = None" "w_fs w2 = push_tmp_fs"
    by (rule push_demo_via[of ?w1]) (simp_all add: w)
  have "grpc_push (demo_libs pushed_manifest) demo_rnd demo_service (Inr (path_of ''/t'')) push_daemon push_stream =
      (Reply pr, w2\<lparr>w_fs := drop_tempdir push_tmp_fs (path_of ''/t''), w_oplock := False\<rparr>)"
    using v by (simp add: grpc_push_def lock_operator_def release_operator_def push_stream_def w)
  then show ?thesis by (rule that) (simp_all add: v(2))
qed

lemma push_blobs:
  assumes "fs_read f (path_of ''/t/n'') = Inr [1, 2]"
  shows "upload_blobs_in (demo_libs m) demo_rnd f (path_of ''/t/n'') None {[1, 2]}"
proof -
  have "chunk_file toy_hasher whole_cdc f (path_of ''/t/n'') = Inr ([demo_chunk], [1, 2])"
    using push_tmp_fs_facts(4) assms by (auto simp: chunk_file_def split: sum.splits)
  then show ?thesis
    by (auto simp: upload_blobs_in_def upload_key_def blobs_in_def upload_blob_def demo_chunk_def)
qed

theorem push_then_pull_witness:
  "\<exists>pr w' pl w''. grpc_push (demo_libs pushed_manifest) demo_rnd demo_service (Inr (path_of ''/t'')) push_daemon push_stream =
       (Reply pr, w') \<and>
     grpc_pull (demo_libs pushed_manifest) demo_service w' (manifest_key ''p'' (pp_chunk_hash pr)) ''/b'' = (Reply pl, w'') \<and>
     map_option f_data (files (w_fs w'') (path_of ''/b'')) = Some [1, 2]"
proof -
  obtain pr w' where push: "grpc_push (demo_libs pushed_manifest) demo_rnd demo_service (Inr (path_of ''/t'')) push_daemon
      push_stream = (Reply pr, w')" "pp_error pr = None" "w_fs w' = drop_tempdir push_tmp_fs (path_of ''/t'')"
    using push_demo_reply by metis
  have st: "w_store push_daemon = empty_store" "w_cache push_daemon = sample_cache" "sv_bucket demo_service = ''p''"
    "push_collect [] [] push_stream = Inr (''n'', [1, 2])"
    by (simp_all add: push_daemon_def demo_service_def push_stream_def)
  have "(\<exists>pl w''. grpc_pull (demo_libs pushed_manifest) demo_service w' (manifest_key (sv_bucket demo_service) (pp_chunk_hash pr))
            ''/b'' = (Reply pl, w'') \<and> pl_error pl = None \<and>
          map_option f_data (files (w_fs w'') (path_of ''/b'')) = Some [1, 2])"
    by (rule push_then_pull[where U = "{[1, 2]}" and td = "path_of ''/t''", OF demo_laws demo_rnd_good _ _ st(4) _ _ _ _
          push(1,2), THEN conjunct1])
      (auto simp: st push(3) push_tmp_fs_facts(1,7,8) push_untracked mem_operator_def empty_store_ok(1) intro: push_blobs)
  with push(1) st(3) show ?thesis by metis
qed

end
