(* ===== verification/Nats_Client.thy ===== *)
theory Nats_Client
  imports Daemon_Service
begin

text \<open>
  The NATS client (\<^verbatim>\<open>crates/tcfs-sync/src/nats.rs\<close>): the streams it sets up, publishing tasks and
  state events, and the two consumers. The JetStream server is a record of the answers it gives;
  \<^verbatim>\<open>serde_json\<close> on the two message types is a codec. A consumer turns the payloads the server
  delivers into messages or errors, one for one and in order.
\<close>

section \<open>Model\<close>

definition STREAM_SYNC_TASKS :: string where "STREAM_SYNC_TASKS = ''SYNC_TASKS''"
definition STREAM_HYDRATION :: string where "STREAM_HYDRATION = ''HYDRATION_EVENTS''"
definition STREAM_STATE :: string where "STREAM_STATE = ''STATE_UPDATES''"
definition CONSUMER_SYNC_WORKERS :: string where "CONSUMER_SYNC_WORKERS = ''sync-workers''"

record stream_config =
  sn_name :: string
  sn_subjects :: "string list"
  sn_max_messages :: nat
  sn_max_age_secs :: nat
  sn_work_queue :: bool

record consumer_config =
  cn_durable :: string
  cn_ack_wait_secs :: nat
  cn_max_deliver :: nat

record jetstream =
  js_connect :: "string \<Rightarrow> bool"
  js_stream :: "stream_config \<Rightarrow> bool"
  js_publish :: "string \<Rightarrow> bytes \<Rightarrow> bool"
  js_consumer :: "consumer_config \<Rightarrow> string \<Rightarrow> bool"
  js_messages :: "string \<Rightarrow> bool"

record msg_codec =
  event_json :: "StateEvent \<Rightarrow> bytes option"
  event_of_json :: "bytes \<Rightarrow> StateEvent option"
  task_json :: "SyncTask \<Rightarrow> bytes option"
  task_of_json :: "bytes \<Rightarrow> SyncTask option"

definition event_to_bytes :: "msg_codec \<Rightarrow> StateEvent \<Rightarrow> bytes res" where
  "event_to_bytes M ev = ok_or (ESerialize ''StateEvent'') (event_json M ev)"

definition event_from_bytes :: "msg_codec \<Rightarrow> bytes \<Rightarrow> StateEvent res" where
  "event_from_bytes M d = ok_or (EParse ''StateEvent'' []) (event_of_json M d)"

definition task_to_bytes :: "msg_codec \<Rightarrow> SyncTask \<Rightarrow> bytes res" where
  "task_to_bytes M t = ok_or (ESerialize ''SyncTask'') (task_json M t)"

definition task_from_bytes :: "msg_codec \<Rightarrow> bytes \<Rightarrow> SyncTask res" where
  "task_from_bytes M d = ok_or (EParse ''SyncTask'' []) (task_of_json M d)"

definition nats_connect :: "jetstream \<Rightarrow> string \<Rightarrow> unit res" where
  "nats_connect N url = (if js_connect N url then Ok () else Err (EIo ''connecting to NATS'' url))"

definition required_streams :: "stream_config list" where
  "required_streams =
     [\<lparr>sn_name = STREAM_SYNC_TASKS, sn_subjects = [STREAM_SYNC_TASKS], sn_max_messages = 1000000,
       sn_max_age_secs = 7 * 24 * 3600, sn_work_queue = True\<rparr>,
      \<lparr>sn_name = STREAM_HYDRATION, sn_subjects = [STREAM_HYDRATION], sn_max_messages = 100000,
       sn_max_age_secs = 3600, sn_work_queue = False\<rparr>,
      \<lparr>sn_name = STREAM_STATE, sn_subjects = [''STATE.>''], sn_max_messages = 500000,
       sn_max_age_secs = 7 * 24 * 3600, sn_work_queue = False\<rparr>]"

definition ensure_streams :: "jetstream \<Rightarrow> unit res" where
  "ensure_streams N =
     (case List.find (\<lambda>c. \<not> js_stream N c) required_streams of
        None \<Rightarrow> Ok ()
      | Some c \<Rightarrow> Err (EIo ''ensuring stream'' (sn_name c)))"

text \<open>A publication that the server acknowledged, with the subject and payload it was given.\<close>

definition publish_task :: "jetstream \<Rightarrow> msg_codec \<Rightarrow> SyncTask \<Rightarrow> (string \<times> bytes) res" where
  "publish_task N M t =
     (case task_to_bytes M t of
        Inl e \<Rightarrow> Inl e
      | Inr payload \<Rightarrow> if js_publish N STREAM_SYNC_TASKS payload then Ok (STREAM_SYNC_TASKS, payload)
                       else Err (EIo ''publishing to'' STREAM_SYNC_TASKS))"

definition publish_event :: "jetstream \<Rightarrow> msg_codec \<Rightarrow> StateEvent \<Rightarrow> (string \<times> bytes) res" where
  "publish_event N M ev =
     (case event_to_bytes M ev of
        Inl e \<Rightarrow> Inl e
      | Inr payload \<Rightarrow> if js_publish N (subject ev) payload then Ok (subject ev, payload)
                       else Err (EIo ''publishing state event'' (subject ev)))"

definition open_consumer :: "jetstream \<Rightarrow> consumer_config \<Rightarrow> string \<Rightarrow> unit res" where
  "open_consumer N c stream =
     (if \<not> js_consumer N c stream then Err (EIo ''creating consumer'' (cn_durable c))
      else if \<not> js_messages N (cn_durable c) then Err (EIo ''opening message stream'' (cn_durable c))
      else Ok ())"

definition consumed :: "(bytes \<Rightarrow> 'm res) \<Rightarrow> bytes res \<Rightarrow> 'm res" where
  "consumed dec x = (case x of Inl e \<Rightarrow> Inl e | Inr payload \<Rightarrow> dec payload)"

definition task_stream :: "jetstream \<Rightarrow> msg_codec \<Rightarrow> bytes res list \<Rightarrow> SyncTask res list res" where
  "task_stream N M inbox =
     (case open_consumer N \<lparr>cn_durable = CONSUMER_SYNC_WORKERS, cn_ack_wait_secs = 60, cn_max_deliver = 3\<rparr>
             STREAM_SYNC_TASKS of
        Inl e \<Rightarrow> Inl e
      | Inr _ \<Rightarrow> Ok (map (consumed (task_from_bytes M)) inbox))"

definition state_consumer :: "jetstream \<Rightarrow> msg_codec \<Rightarrow> string \<Rightarrow> bytes res list \<Rightarrow> StateEvent res list res" where
  "state_consumer N M dev inbox =
     (case open_consumer N \<lparr>cn_durable = ''state-'' @ dev, cn_ack_wait_secs = 30, cn_max_deliver = 5\<rparr> STREAM_STATE of
        Inl e \<Rightarrow> Inl e
      | Inr _ \<Rightarrow> Ok (map (consumed (event_from_bytes M)) inbox))"

definition process_with_retry :: "(SyncTask \<Rightarrow> unit res) \<Rightarrow> SyncTask \<Rightarrow> disposition" where
  "process_with_retry run t = (case run t of Inr _ \<Rightarrow> Acked | Inl e \<Rightarrow> if is_panic e then Dropped else Naked)"

section \<open>What was published is what is consumed\<close>

definition msg_codec_laws :: "msg_codec \<Rightarrow> bool" where
  "msg_codec_laws M \<longleftrightarrow>
     (\<forall>ev d. event_json M ev = Some d \<longrightarrow> event_of_json M d = Some ev) \<and>
     (\<forall>t d. task_json M t = Some d \<longrightarrow> task_of_json M d = Some t)"

lemma published_event_consumed:
  assumes "msg_codec_laws M" and "publish_event N M ev = Inr (subj, payload)"
  shows "consumed (event_from_bytes M) (Inr payload) = Inr ev" and "subj = subject ev"
  using assms
  by (auto simp: publish_event_def event_to_bytes_def event_from_bytes_def consumed_def msg_codec_laws_def ok_or_def
      split: sum.splits option.splits if_splits)

lemma published_task_consumed:
  assumes "msg_codec_laws M" and "publish_task N M t = Inr (subj, payload)"
  shows "consumed (task_from_bytes M) (Inr payload) = Inr t"
  using assms
  by (auto simp: publish_task_def task_to_bytes_def task_from_bytes_def consumed_def msg_codec_laws_def ok_or_def
      split: sum.splits option.splits if_splits)

text \<open>
  A queue of accepted tasks reaches the workers complete and in order, whatever errors the
  transport interleaves with it.
\<close>

lemma task_stream_complete:
  assumes "msg_codec_laws M" and "task_stream N M inbox = Inr items"
    and "list_all2 (\<lambda>t x. \<exists>s d. publish_task N M t = Inr (s, d) \<and> x = Inr d) ts (filter is_ok inbox)"
  shows "filter is_ok items = map Inr ts"
proof -
  have items: "items = map (consumed (task_from_bytes M)) inbox"
    using assms(2) by (auto simp: task_stream_def split: sum.splits)
  have ok: "is_ok (consumed (task_from_bytes M) x) \<longleftrightarrow> is_ok x" if "x \<in> set (filter is_ok inbox) \<or> \<not> is_ok x" for x
    using that
  proof
    assume "x \<in> set (filter is_ok inbox)"
    then obtain i where "i < length (filter is_ok inbox)" "x = filter is_ok inbox ! i"
      by (auto simp only: in_set_conv_nth)
    then obtain t s d where "publish_task N M t = Inr (s, d)" "x = Inr d"
      using list_all2_nthD2[OF assms(3)] by blast
    then show ?thesis using published_task_consumed[OF assms(1)] by simp
  qed (cases x; simp add: consumed_def)
  have "filter is_ok items = map (consumed (task_from_bytes M)) (filter is_ok inbox)"
    unfolding items filter_map comp_def using ok by (intro arg_cong[where f = "map _"] filter_cong) auto
  also have "\<dots> = map Inr ts"
    using assms(3) published_task_consumed[OF assms(1)]
    by (induction rule: list_all2_induct) auto
  finally show ?thesis .
qed

end
