(* ===== verification/Device_Registry.thy ===== *)
theory Device_Registry
  imports State_Cache
begin

text \<open>
  Device identities: the registry of enrolled devices with its local and remote copies
  (\<^verbatim>\<open>crates/tcfs-secrets/src/device.rs\<close>) and the enrolment every daemon performs when it starts
  (\<^verbatim>\<open>crates/tcfsd/src/daemon.rs\<close>). A stored registry is a document that is read and overwritten as a
  whole; the locale \<open>document_slot\<close> is that interface. Fresh UUIDs, the clock, the environment and
  the host name are arguments, JSON is a parameter.
\<close>

section \<open>Documents\<close>

locale document_slot =
  fixes doc_read :: "'w \<Rightarrow> 'd res"
    and doc_write :: "'w \<Rightarrow> 'd \<Rightarrow> unit res \<times> 'w"
    and doc_ok :: "'w \<Rightarrow> bool"
  assumes read_write: "doc_ok w \<Longrightarrow> doc_write w d = (Inr u, w') \<Longrightarrow> doc_read w' = Inr d"
    and write_ok: "doc_ok w \<Longrightarrow> doc_write w d = (r, w') \<Longrightarrow> doc_ok w'"
begin

text \<open>Read the document, change it, write it back.\<close>

definition modify :: "('d \<Rightarrow> 'd) \<Rightarrow> 'w \<Rightarrow> unit res \<times> 'w" where
  "modify g w = (case doc_read w of Inl e \<Rightarrow> (Inl e, w) | Inr d \<Rightarrow> doc_write w (g d))"

lemma modify_read:
  assumes "doc_ok w" and "doc_read w = Inr d" and "modify g w = (Inr u, w')"
  shows "doc_read w' = Inr (g d) \<and> doc_ok w'"
  using assms read_write[of w "g d"] write_ok[of w "g d"] by (auto simp: modify_def)

text \<open>The last of two writers wins, whatever the first one stored.\<close>

lemma last_writer_wins:
  assumes "doc_ok w" and "doc_write w d1 = (r1, w1)" and "doc_write w1 d2 = (Inr u, w2)"
  shows "doc_read w2 = Inr d2"
  using assms read_write write_ok by blast

end

section \<open>Model\<close>

record DeviceIdentity =
  di_name :: string
  di_device_id :: string
  di_public_key :: string
  di_signing_key_hash :: string
  di_description :: "string option"
  di_enrolled_at :: u64
  di_revoked :: bool
  di_last_nats_seq :: u64

record DeviceRegistry = devices :: "DeviceIdentity list"

definition reg_default :: DeviceRegistry where
  "reg_default = \<lparr>devices = []\<rparr>"

record reg_codec =
  reg_to_json :: "DeviceRegistry \<Rightarrow> string option"
  reg_from_json :: "string \<Rightarrow> DeviceRegistry option"

text \<open>\<^verbatim>\<open>serde_json\<close> reads back what it writes, and writes UTF-8 text.\<close>

definition reg_codec_laws :: "reg_codec \<Rightarrow> bool" where
  "reg_codec_laws J \<longleftrightarrow>
     (\<forall>r s. reg_to_json J r = Some s \<longrightarrow> reg_from_json J s = Some r \<and> from_utf8 (bytes_of_str s) = Some s)"

definition reg_load :: "reg_codec \<Rightarrow> fs \<Rightarrow> path \<Rightarrow> DeviceRegistry res" where
  "reg_load J f p =
     (if \<not> fs_exists f p then Ok reg_default
      else (case read_to_string f p of
              Inl e \<Rightarrow> Inl e
            | Inr content \<Rightarrow> ok_or (EParse ''device registry'' (path_str p)) (reg_from_json J content)))"

definition reg_save :: "reg_codec \<Rightarrow> fs \<Rightarrow> DeviceRegistry \<Rightarrow> path \<Rightarrow> unit res \<times> fs" where
  "reg_save J f r p =
     (case fs_ensure_parent f p of
        (Inl e, f1) \<Rightarrow> (Inl e, f1)
      | (Inr _, f1) \<Rightarrow>
          (case reg_to_json J r of
             None \<Rightarrow> (Err (ESerialize ''device registry''), f1)
           | Some json \<Rightarrow> fs_write f1 p (bytes_of_str json)))"

definition reg_add :: "DeviceRegistry \<Rightarrow> DeviceIdentity \<Rightarrow> DeviceRegistry" where
  "reg_add r d = r\<lparr>devices := devices r @ [d]\<rparr>"

definition active_devices :: "DeviceRegistry \<Rightarrow> DeviceIdentity list" where
  "active_devices r = filter (\<lambda>d. \<not> di_revoked d) (devices r)"

fun revoke_first :: "string \<Rightarrow> DeviceIdentity list \<Rightarrow> bool \<times> DeviceIdentity list" where
  "revoke_first name [] = (False, [])"
| "revoke_first name (d # ds) =
     (if di_name d = name then (True, d\<lparr>di_revoked := True\<rparr> # ds)
      else (case revoke_first name ds of (b, ds') \<Rightarrow> (b, d # ds')))"

definition reg_revoke :: "DeviceRegistry \<Rightarrow> string \<Rightarrow> bool \<times> DeviceRegistry" where
  "reg_revoke r name = (case revoke_first name (devices r) of (b, ds) \<Rightarrow> (b, r\<lparr>devices := ds\<rparr>))"

definition reg_find :: "DeviceRegistry \<Rightarrow> string \<Rightarrow> DeviceIdentity option" where
  "reg_find r name = List.find (\<lambda>d. di_name d = name) (devices r)"

definition find_by_id :: "DeviceRegistry \<Rightarrow> string \<Rightarrow> DeviceIdentity option" where
  "find_by_id r i = List.find (\<lambda>d. di_device_id d = i) (devices r)"

definition hex_prefix :: "hasher \<Rightarrow> nat \<Rightarrow> string \<Rightarrow> string" where
  "hex_prefix H n s = take n (h_to_hex H (h_hash H (bytes_of_str s)))"

definition reg_enroll ::
  "hasher \<Rightarrow> string \<Rightarrow> u64 \<Rightarrow> DeviceRegistry \<Rightarrow> string \<Rightarrow> string \<Rightarrow> string option \<Rightarrow> string \<times> DeviceRegistry" where
  "reg_enroll H uuid now r name public_key description =
     (uuid, reg_add r \<lparr>di_name = name, di_device_id = uuid, di_public_key = public_key,
                       di_signing_key_hash = hex_prefix H 16 public_key, di_description = description,
                       di_enrolled_at = now, di_revoked = False, di_last_nats_seq = 0\<rparr>)"

definition registry_key :: "string \<Rightarrow> string" where
  "registry_key meta_prefix = trim_end_matches slash meta_prefix @ ''/tcfs-meta/devices.json''"

text \<open>\<open>absent\<close> tells the errors of kind \<^verbatim>\<open>NotFound\<close> from the others.\<close>

definition load_remote ::
  "reg_codec \<Rightarrow> (err \<Rightarrow> bool) \<Rightarrow> 's operator \<Rightarrow> 's \<Rightarrow> string \<Rightarrow> DeviceRegistry res" where
  "load_remote J absent opr s meta_prefix =
     (case op_read opr s (registry_key meta_prefix) of
        Inr data \<Rightarrow>
          (case from_utf8 data of
             None \<Rightarrow> Err (EUtf8 ''remote device registry'')
           | Some content \<Rightarrow> ok_or (EParse ''remote device registry'' []) (reg_from_json J content))
      | Inl e \<Rightarrow> if absent e then Ok reg_default else Inl e)"

definition sync_to_remote ::
  "reg_codec \<Rightarrow> 's operator \<Rightarrow> 's \<Rightarrow> DeviceRegistry \<Rightarrow> string \<Rightarrow> unit res \<times> 's" where
  "sync_to_remote J opr s r meta_prefix =
     (case reg_to_json J r of
        None \<Rightarrow> (Err (ESerialize ''device registry''), s)
      | Some json \<Rightarrow> op_write opr s (registry_key meta_prefix) (bytes_of_str json))"

definition device_public_key :: "hasher \<Rightarrow> string \<Rightarrow> string" where
  "device_public_key H name = ''age1-device-'' @ hex_prefix H 8 name"

definition enroll_remote ::
  "reg_codec \<Rightarrow> hasher \<Rightarrow> string \<Rightarrow> u64 \<Rightarrow> 's operator \<Rightarrow> 's \<Rightarrow> DeviceRegistry \<Rightarrow> string \<Rightarrow> string \<Rightarrow>
   string res \<times> DeviceRegistry \<times> 's" where
  "enroll_remote J H uuid now opr s r name meta_prefix =
     (case reg_enroll H uuid now r name (device_public_key H name) None of
        (i, r') \<Rightarrow>
          (case sync_to_remote J opr s r' meta_prefix of
             (Inl e, s') \<Rightarrow> (Inl e, r', s')
           | (Inr _, s') \<Rightarrow> (Ok i, r', s')))"

type_synonym environment = "string \<Rightarrow> string option"

definition dirs_path :: "environment \<Rightarrow> path" where
  "dirs_path env =
     path_join (case env ''XDG_CONFIG_HOME'' of
                  Some d \<Rightarrow> path_of d
                | None \<Rightarrow> path_join (path_of (case env ''HOME'' of Some h \<Rightarrow> h | None \<Rightarrow> ''.'')) (path_of ''.config''))
       (path_of ''tcfs'')"

definition default_registry_path :: "environment \<Rightarrow> path" where
  "default_registry_path env = path_join (dirs_path env) (path_of ''devices.json'')"

definition default_device_name :: "string option \<Rightarrow> string" where
  "default_device_name hostname = (case hostname of Some h \<Rightarrow> h | None \<Rightarrow> ''unknown-device'')"

text \<open>
  The first step of the daemon: its own device id, enrolling the device when its name is new. A
  registry that cannot be loaded counts as empty; a save that fails is only logged.
\<close>

definition daemon_identity ::
  "reg_codec \<Rightarrow> hasher \<Rightarrow> string \<Rightarrow> fs \<Rightarrow> string \<Rightarrow> path \<Rightarrow> string \<times> DeviceRegistry \<times> fs" where
  "daemon_identity J H uuid f device_name registry_path =
     (let r = (case reg_load J f registry_path of Inl _ \<Rightarrow> reg_default | Inr r \<Rightarrow> r)
      in case reg_find r device_name of
           Some dev \<Rightarrow> (di_device_id dev, r, f)
         | None \<Rightarrow>
             (case reg_enroll H uuid (fs_now f) r device_name (device_public_key H device_name) None of
                (i, r') \<Rightarrow> (i, r', snd (reg_save J f r' registry_path))))"

section \<open>The stored copies\<close>

lemma reg_save_OkE:
  assumes "reg_save J f r p = (Inr u, f')"
  obtains f1 json where "f1 = snd (fs_ensure_parent f p)" "reg_to_json J r = Some json"
    "fs_write f1 p (bytes_of_str json) = (Inr (), f')"
  using assms by (auto simp: reg_save_def split: prod.splits sum.splits option.splits)

lemma reg_save_fault: "reg_save J f r p = (x, f') \<Longrightarrow> fault f' = fault f"
  using ensure_parent_env(1)[of f p]
  by (auto simp: reg_save_def dest: fs_write_env split: prod.splits sum.splits option.splits)

lemma reg_load_saved:
  assumes "reg_codec_laws J" and "reg_save J f r p = (Inr u, f')" and "\<not> fault f OpStat p" and "\<not> fault f OpRead p"
  shows "reg_load J f' p = Inr r"
  using assms(2)
proof (rule reg_save_OkE)
  fix f1 json
  assume json: "reg_to_json J r = Some json" and wr: "fs_write f1 p (bytes_of_str json) = (Inr (), f')"
  have "fault f' = fault f" using reg_save_fault[OF assms(2)] .
  with assms(1,3,4) json fs_write_content[OF wr] show ?thesis
    by (simp add: reg_load_def fs_exists_def read_to_string_def fs_read_def reg_codec_laws_def)
qed

lemma reg_load_ensure_parent: "reg_load J (snd (fs_ensure_parent f p)) p = reg_load J f p"
proof -
  have "dirs (snd (fs_ensure_parent f p)) p = dirs f p"
    using ensure_parent_keeps_dir[of p p f]
    by (cases "path_parent p = None") (simp_all add: fs_ensure_parent_def)
  then show ?thesis
    by (simp add: reg_load_def fs_exists_def read_to_string_def fs_read_def io_simps)
qed

lemma reg_save_failed:
  assumes "reg_save J f r p = (Inl e, f')" and "\<not> fault f OpWrite p"
  shows "reg_load J f' p = reg_load J f p"
proof -
  have "f' = snd (fs_ensure_parent f p)"
    using assms ensure_parent_env(1)[of f p]
    by (auto simp: reg_save_def fs_write_def split: prod.splits sum.splits option.splits if_splits)
  then show ?thesis by (simp add: reg_load_ensure_parent)
qed

lemma reg_load_file:
  assumes "files g p = files f p" and "files f p \<noteq> None" and "fault g = fault f"
  shows "reg_load J g p = reg_load J f p"
  using assms by (simp add: reg_load_def fs_exists_def read_to_string_def fs_read_def)

lemma reg_found_file:
  assumes "reg_load J f p = Inr r" and "reg_find r n = Some x"
  shows "files f p \<noteq> None"
  using assms
  by (auto simp: reg_load_def reg_find_def reg_default_def read_to_string_def fs_read_def
      split: if_splits sum.splits option.splits)

text \<open>The identity a device starts with is the one its registry file gives for its name, once it is there.\<close>

lemma daemon_identity_found:
  assumes "reg_load J f p = Inr r" and "reg_find r n = Some x"
  shows "daemon_identity J H uuid f n p = (di_device_id x, r, f)"
  using assms by (simp add: daemon_identity_def)

lemma daemon_identity_stored:
  assumes "reg_codec_laws J" and "daemon_identity J H uuid f n p = (i, r', f')"
    and "reg_load J f' p = Inr r" and "reg_find r n = Some x"
    and "\<not> fault f OpStat p" and "\<not> fault f OpRead p" and "\<not> fault f OpWrite p"
  shows "di_device_id x = i"
proof -
  let ?r0 = "case reg_load J f p of Inl _ \<Rightarrow> reg_default | Inr r \<Rightarrow> r"
  show ?thesis
  proof (cases "reg_find ?r0 n")
    case (Some d)
    then have "\<exists>r1. reg_load J f p = Inr r1" by (cases "reg_load J f p") (auto simp: reg_find_def reg_default_def)
    with Some assms(2-4) show ?thesis by (auto simp: daemon_identity_def)
  next
    case None
    obtain r1 where en: "reg_enroll H uuid (fs_now f) ?r0 n (device_public_key H n) None = (uuid, r1)"
      and found: "\<exists>d. reg_find r1 n = Some d \<and> di_device_id d = uuid"
      using None by (simp add: reg_enroll_def reg_add_def reg_find_def find_append)
    obtain sv where sv: "reg_save J f r1 p = (sv, f')" and i: "i = uuid"
      using assms(2) None en by (cases "reg_save J f r1 p") (simp add: daemon_identity_def Let_def)
    show ?thesis
    proof (cases sv)
      case (Inl e)
      then have "reg_load J f' p = reg_load J f p" using reg_save_failed sv assms(7) by blast
      with None assms(3,4) show ?thesis by simp
    next
      case (Inr u)
      then have "reg_load J f' p = Inr r1" using reg_load_saved[OF assms(1) _ assms(5,6)] sv by blast
      with found assms(3,4) i show ?thesis by auto
    qed
  qed
qed

lemma load_remote_synced:
  assumes "reg_codec_laws J" and "store_laws opr" and "sync_to_remote J opr s r mp = (Inr u, s')"
  shows "load_remote J absent opr s' mp = Inr r"
  using assms store_write_read[OF assms(2)]
  by (auto simp: sync_to_remote_def load_remote_def reg_codec_laws_def split: option.splits)

interpretation local_registry: document_slot "\<lambda>f. reg_load J f p" "\<lambda>f r. reg_save J f r p"
  "\<lambda>f. reg_codec_laws J \<and> \<not> fault f OpStat p \<and> \<not> fault f OpRead p"
  for J p
  by unfold_locales (auto simp: reg_load_saved dest: reg_save_fault)

interpretation remote_registry: document_slot "\<lambda>s. load_remote J absent opr s mp" "\<lambda>s r. sync_to_remote J opr s r mp"
  "\<lambda>_. reg_codec_laws J \<and> store_laws opr"
  for J absent opr mp
  by unfold_locales (auto simp: load_remote_synced)

section \<open>Enrolment and revocation\<close>

text \<open>
  Enrolling a device is durable. After a successful remote enrolment the stored registry is
  the old one with the new, active device at its end; the device is found under its id when the
  id is fresh; and the same holds for the local copy once it has been saved.
\<close>

theorem enrolment_is_durable:
  assumes "reg_codec_laws J" and "store_laws opr" and "find_by_id r uuid = None"
    and "enroll_remote J H uuid now opr s r name mp = (Inr i, r', s')"
    and "reg_save J f r' p = (Inr u, f')" and "\<not> fault f OpStat p" and "\<not> fault f OpRead p"
  shows "load_remote J absent opr s' mp = Inr r' \<and> reg_load J f' p = Inr r' \<and>
         (\<exists>d. devices r' = devices r @ [d] \<and> find_by_id r' i = Some d \<and> di_name d = name \<and>
              active_devices r' = active_devices r @ [d])"
proof -
  have i: "i = uuid" and r': "r' = snd (reg_enroll H uuid now r name (device_public_key H name) None)"
    and sync: "sync_to_remote J opr s r' mp = (Inr (), s')"
    using assms(4) by (auto simp: enroll_remote_def reg_enroll_def split: prod.splits sum.splits)
  have "List.find (\<lambda>d. di_device_id d = uuid) (devices r @ [d]) = (if di_device_id d = uuid then Some d else None)" for d
    using assms(3) by (simp add: find_by_id_def find_append)
  then show ?thesis
    using remote_registry.read_write[of J opr s r' mp "()" s' absent] sync assms(1,2)
      local_registry.read_write[of J f p r' u f'] assms(5-7)
    by (auto simp: r' i reg_enroll_def reg_add_def find_by_id_def active_devices_def)
qed

lemma revoke_first_spec:
  "revoke_first name ds = (b, ds') \<Longrightarrow>
   (if b then \<exists>pre d post. ds = pre @ d # post \<and> di_name d = name \<and> (\<forall>x \<in> set pre. di_name x \<noteq> name) \<and>
                           ds' = pre @ d\<lparr>di_revoked := True\<rparr> # post
    else ds' = ds \<and> (\<forall>x \<in> set ds. di_name x \<noteq> name))"
proof (induction ds arbitrary: b ds')
  case (Cons d ds)
  show ?case
  proof (cases "di_name d = name")
    case True
    with Cons.prems show ?thesis by (auto intro!: exI[of _ "[]"])
  next
    case False
    obtain b2 ds2 where r: "revoke_first name ds = (b2, ds2)" by fastforce
    with False Cons.prems have "b = b2" "ds' = d # ds2" by auto
    with Cons.IH[OF r] False show ?thesis
      by (auto split: if_splits) (metis append_Cons set_ConsD)
  qed
qed simp

text \<open>
  Revoking takes the first device with the name, reports whether there was one, and changes
  nothing else. When names are unique the name is no longer active afterwards; when a second active
  device carries the same name, it stays active.
\<close>

theorem revoke_marks_first:
  assumes "reg_revoke r name = (b, r')"
  shows "b = (reg_find r name \<noteq> None) \<and> (\<not> b \<longrightarrow> r' = r) \<and>
         (b \<longrightarrow> (\<exists>pre d post. devices r = pre @ d # post \<and> di_name d = name \<and> reg_find r name = Some d \<and>
                  devices r' = pre @ d\<lparr>di_revoked := True\<rparr> # post \<and>
                  ((\<exists>x \<in> set (active_devices r'). di_name x = name) \<longleftrightarrow>
                   (\<exists>x \<in> set post. di_name x = name \<and> \<not> di_revoked x))))"
proof -
  obtain ds' where f: "revoke_first name (devices r) = (b, ds')" and r': "r' = r\<lparr>devices := ds'\<rparr>"
    using assms by (auto simp: reg_revoke_def split: prod.splits)
  show ?thesis
  proof (cases b)
    case True
    then obtain pre d post where sp: "devices r = pre @ d # post" "di_name d = name"
      "\<forall>x \<in> set pre. di_name x \<noteq> name" "ds' = pre @ d\<lparr>di_revoked := True\<rparr> # post"
      using revoke_first_spec[OF f] by auto
    then have "reg_find r name = Some d"
      by (auto simp: reg_find_def find_append find_None_iff split: option.splits dest: find_SomeD)
    moreover have "(\<exists>x \<in> set (active_devices r'). di_name x = name) \<longleftrightarrow> (\<exists>x \<in> set post. di_name x = name \<and> \<not> di_revoked x)"
      using sp(3) by (auto simp: active_devices_def r' sp(4))
    moreover have "devices r' = pre @ d\<lparr>di_revoked := True\<rparr> # post"
      by (simp add: r' sp(4))
    ultimately show ?thesis using True sp(1,2) by blast
  next
    case False
    with revoke_first_spec[OF f] r' show ?thesis by (auto simp: reg_find_def find_None_iff)
  qed
qed

section \<open>Starting the daemon\<close>

definition names_unique :: "DeviceRegistry \<Rightarrow> bool" where
  "names_unique r \<longleftrightarrow> distinct (map di_name (devices r))"

lemma enroll_names_unique:
  "names_unique r \<Longrightarrow> reg_find r name = None \<Longrightarrow> names_unique (snd (reg_enroll H uuid now r name pk desc))"
  by (auto simp: names_unique_def reg_enroll_def reg_add_def reg_find_def find_None_iff)

lemma revoke_first_names: "map di_name (snd (revoke_first name ds)) = map di_name ds"
  by (induction ds) (auto split: prod.splits)

lemma revoke_names_unique: "names_unique (snd (reg_revoke r name)) \<longleftrightarrow> names_unique r"
  using revoke_first_names[of name "devices r"]
  by (auto simp: names_unique_def reg_revoke_def split: prod.splits)

lemma daemon_identity_names_unique:
  assumes "\<And>r. reg_load J f p = Inr r \<Longrightarrow> names_unique r"
  shows "names_unique (fst (snd (daemon_identity J H uuid f name p)))"
  using assms enroll_names_unique
  by (auto simp: daemon_identity_def Let_def reg_default_def names_unique_def reg_enroll_def reg_add_def
      reg_find_def find_None_iff split: option.splits sum.splits)

text \<open>
  A registry that cannot be read is not kept. When the registry file exists but loading it
  fails, a starting daemon replaces it by a registry that holds nothing but its own new identity:
  every other device and every revocation is gone.
\<close>

theorem daemon_discards_unreadable_registry:
  assumes "reg_codec_laws J" and "reg_load J f p = Inl e" and "\<not> fault f OpStat p" and "\<not> fault f OpRead p"
    and "daemon_identity J H uuid f name p = (i, r', f')" and "fst (reg_save J f r' p) = Inr ()"
  shows "reg_load J f' p = Inr r' \<and> i = uuid \<and> map di_name (devices r') = [name] \<and> active_devices r' = devices r'"
proof -
  have id: "i = uuid" "map di_name (devices r') = [name]" "active_devices r' = devices r'"
    and f': "f' = snd (reg_save J f r' p)"
    using assms(2,5)
    by (auto simp: daemon_identity_def reg_find_def reg_default_def reg_enroll_def reg_add_def active_devices_def)
  have "reg_save J f r' p = (Inr (), f')"
    using assms(6) f' by (simp add: prod_eq_iff)
  with local_registry.read_write[of J f p r' "()" f'] assms(1,3,4) id show ?thesis by simp
qed

section \<open>A concrete registry\<close>

text \<open>A codec that knows one registry, and the registry of a daemon started for the first time.\<close>

definition one_reg_codec :: "DeviceRegistry \<Rightarrow> reg_codec" where
  "one_reg_codec r0 = \<lparr>reg_to_json = (\<lambda>r. if r = r0 then Some ''{r}'' else None),
                       reg_from_json = (\<lambda>s. if s = ''{r}'' then Some r0 else None)\<rparr>"

lemma one_reg_codec_laws: "reg_codec_laws (one_reg_codec r0)"
proof -
  have "from_utf8 (bytes_of_str ''{r}'') = Some ''{r}''" by code_simp
  then show ?thesis by (auto simp: reg_codec_laws_def one_reg_codec_def split: if_splits)
qed

definition first_registry :: DeviceRegistry where
  "first_registry = snd (reg_enroll toy_hasher ''u1'' 9 reg_default ''laptop'' (device_public_key toy_hasher ''laptop'') None)"

lemma first_registry_facts [simp]:
  "map di_name (devices first_registry) = [''laptop'']" "active_devices first_registry = devices first_registry"
  by (simp_all add: first_registry_def reg_enroll_def reg_add_def reg_default_def active_devices_def)

lemma one_file_saves:
  assumes "p = path_of ''/a'' \<or> p = path_of ''/devices.json'' \<or> p = path_of ''/tcfs/devices.json''"
  shows "\<exists>f'. reg_save (one_reg_codec r) one_file r p = (Inr (), f')"
proof -
  have "fst (fs_ensure_parent one_file p) = Inr () \<and>
        fst (fs_write (snd (fs_ensure_parent one_file p)) p (bytes_of_str ''{r}'')) = Inr ()"
    using assms by (elim disjE) (simp_all only:, code_simp+)
  then show ?thesis
    by (cases "fs_ensure_parent one_file p"; cases "fs_write (snd (fs_ensure_parent one_file p)) p (bytes_of_str ''{r}'')")
      (simp add: reg_save_def one_reg_codec_def)
qed

lemma one_file_no_fault [simp]: "\<not> fault one_file x p"
  by (simp add: one_file_def)

theorem enrolment_is_durable_witness:
  "\<exists>s'. enroll_remote (one_reg_codec first_registry) toy_hasher ''u1'' 9 mem_operator (\<lambda>_. None) reg_default ''laptop'' ''p'' =
          (Inr ''u1'', first_registry, s') \<and>
        load_remote (one_reg_codec first_registry) (\<lambda>_. True) mem_operator s' ''p'' = Inr first_registry \<and>
        (\<exists>d. find_by_id first_registry ''u1'' = Some d \<and> di_name d = ''laptop'')"
proof -
  obtain f' where save: "reg_save (one_reg_codec first_registry) one_file first_registry (path_of ''/devices.json'') = (Inr (), f')"
    using one_file_saves by blast
  obtain s' where enr: "enroll_remote (one_reg_codec first_registry) toy_hasher ''u1'' 9 mem_operator (\<lambda>_. None) reg_default
      ''laptop'' ''p'' = (Inr ''u1'', first_registry, s')"
    by (simp add: enroll_remote_def sync_to_remote_def reg_enroll_def first_registry_def one_reg_codec_def mem_operator_def)
  have "find_by_id reg_default ''u1'' = None" by (simp add: find_by_id_def reg_default_def)
  with enrolment_is_durable[OF one_reg_codec_laws mem_operator_laws _ enr save] enr show ?thesis by auto
qed

definition two_devices :: DeviceRegistry where
  "two_devices = snd (reg_enroll toy_hasher ''u2'' 9 first_registry ''phone'' ''k'' None)"

theorem revoke_marks_first_witness:
  "\<exists>r'. reg_revoke two_devices ''laptop'' = (True, r') \<and> \<not> (\<exists>x \<in> set (active_devices r'). di_name x = ''laptop'')"
proof -
  obtain r' where r: "reg_revoke two_devices ''laptop'' = (True, r')"
    by (simp add: reg_revoke_def two_devices_def first_registry_def reg_enroll_def reg_add_def reg_default_def)
  obtain pre d post where "devices two_devices = pre @ d # post" "di_name d = ''laptop''"
    and act: "(\<exists>x \<in> set (active_devices r'). di_name x = ''laptop'') \<longleftrightarrow> (\<exists>x \<in> set post. di_name x = ''laptop'' \<and> \<not> di_revoked x)"
    using revoke_marks_first[OF r] by auto
  moreover have "map di_name (devices two_devices) = [''laptop'', ''phone'']"
    by (simp add: two_devices_def first_registry_def reg_enroll_def reg_add_def reg_default_def)
  ultimately have "map di_name pre @ ''laptop'' # map di_name post = [''laptop'', ''phone'']"
    by simp
  then have "map di_name post = [''phone''] \<or> map di_name post = []"
    by (cases pre) (auto simp: append_eq_Cons_conv Cons_eq_append_conv)
  with r act show ?thesis by auto
qed

theorem daemon_discards_unreadable_registry_witness:
  "\<exists>i r' f'. reg_load (one_reg_codec first_registry) one_file (path_of ''/a'') = Inl (EParse ''device registry'' ''/a'') \<and>
     daemon_identity (one_reg_codec first_registry) toy_hasher ''u1'' one_file ''laptop'' (path_of ''/a'') = (i, r', f') \<and>
     reg_load (one_reg_codec first_registry) f' (path_of ''/a'') = Inr r' \<and> map di_name (devices r') = [''laptop'']"
proof -
  let ?J = "one_reg_codec first_registry"
  have "fs_exists one_file (path_of ''/a'')" "read_to_string one_file (path_of ''/a'') = Inr [CHR 0x01, CHR 0x02]"
    "path_str (path_of ''/a'') = ''/a''"
    by code_simp+
  then have ld: "reg_load ?J one_file (path_of ''/a'') = Inl (EParse ''device registry'' ''/a'')"
    by (simp add: reg_load_def one_reg_codec_def)
  obtain f' where save: "reg_save ?J one_file first_registry (path_of ''/a'') = (Inr (), f')"
    using one_file_saves by blast
  have now: "fs_now one_file = 9" by (simp add: one_file_def)
  have di: "daemon_identity ?J toy_hasher ''u1'' one_file ''laptop'' (path_of ''/a'') = (''u1'', first_registry, f')"
  proof -
    have "reg_enroll toy_hasher ''u1'' 9 reg_default ''laptop'' (device_public_key toy_hasher ''laptop'') None =
        (''u1'', first_registry)" "reg_find reg_default ''laptop'' = None"
      by (simp_all add: first_registry_def reg_enroll_def reg_find_def reg_default_def)
    with save show ?thesis by (simp add: daemon_identity_def ld now)
  qed
  with daemon_discards_unreadable_registry[OF one_reg_codec_laws ld _ _ di] save ld show ?thesis by simp
qed

end
