(* ===== verification/Tcfs_Config.thy ===== *)
theory Tcfs_Config
  imports State_Cache
begin

text \<open>
  The configuration (\<^verbatim>\<open>crates/tcfs-core/src/config.rs\<close>), its defaults, and how the daemon and the
  command line load it. The TOML parser is a parameter; \<^verbatim>\<open>serde(default)\<close> fills in missing fields.
\<close>

section \<open>Model\<close>

record DaemonConfig =
  dm_socket :: path
  dm_listen :: "string option"
  dm_metrics_addr :: "string option"
  dm_log_level :: string
  dm_log_format :: string

record StorageConfig =
  sg_endpoint :: string
  sg_region :: string
  sg_bucket :: string
  sg_credentials_file :: "path option"
  sg_enforce_tls :: bool
  sg_ca_cert_path :: "path option"

record SecretsConfig =
  age_identity :: "path option"
  kdbx_path :: "path option"
  sx_sops_dir :: "path option"

record SyncConfig =
  sy_nats_url :: string
  sy_nats_tls :: bool
  sy_nats_ca_cert :: "path option"
  sy_state_db :: path
  sy_workers :: usize
  sy_max_retries :: u32
  sy_device_identity :: "path option"
  sy_device_name :: "string option"
  sy_conflict_mode :: string
  sy_sync_git_dirs :: bool
  sy_git_sync_mode :: string
  sy_sync_hidden_dirs :: bool
  sy_exclude_patterns :: "string list"
  sy_sync_root :: "path option"

record FuseConfig =
  fu_negative_cache_ttl_secs :: u64
  fu_cache_dir :: path
  fu_cache_max_mb :: u64

record CryptoConfig =
  cy_enabled :: bool
  cy_argon2_mem_cost_kib :: u32
  cy_argon2_time_cost :: u32
  cy_argon2_parallelism :: u32
  cy_master_key_file :: "path option"
  cy_device_identity :: "path option"

record SopsConfig =
  so_enabled :: bool
  so_sops_dir :: path
  so_sync_prefix :: string
  so_machine_id :: "string option"
  so_backup_dir :: path
  so_watch :: bool

record TcfsConfig =
  cf_daemon :: DaemonConfig
  cf_storage :: StorageConfig
  cf_secrets :: SecretsConfig
  cf_sync :: SyncConfig
  cf_fuse :: FuseConfig
  cf_crypto :: CryptoConfig
  cf_sops :: SopsConfig
  cf_config_file_mode_check :: bool

definition default_true :: bool where
  "default_true = True"

definition default_daemon :: DaemonConfig where
  "default_daemon = \<lparr>dm_socket = path_of ''/run/tcfsd/tcfsd.sock'', dm_listen = None,
     dm_metrics_addr = Some ''127.0.0.1:9100'', dm_log_level = ''info'', dm_log_format = ''json''\<rparr>"

definition default_storage :: StorageConfig where
  "default_storage = \<lparr>sg_endpoint = ''http://localhost:8333'', sg_region = ''us-east-1'', sg_bucket = ''tcfs'',
     sg_credentials_file = None, sg_enforce_tls = False, sg_ca_cert_path = None\<rparr>"

definition default_secrets :: SecretsConfig where
  "default_secrets = \<lparr>age_identity = None, kdbx_path = None, sx_sops_dir = None\<rparr>"

definition default_sync :: SyncConfig where
  "default_sync = \<lparr>sy_nats_url = ''nats://localhost:4222'', sy_nats_tls = False, sy_nats_ca_cert = None,
     sy_state_db = path_of ''~/.local/share/tcfsd/state.db'', sy_workers = 0, sy_max_retries = 3,
     sy_device_identity = None, sy_device_name = None, sy_conflict_mode = ''auto'', sy_sync_git_dirs = False,
     sy_git_sync_mode = ''bundle'', sy_sync_hidden_dirs = False, sy_exclude_patterns = [], sy_sync_root = None\<rparr>"

definition default_fuse :: FuseConfig where
  "default_fuse = \<lparr>fu_negative_cache_ttl_secs = 30, fu_cache_dir = path_of ''~/.cache/tcfs'',
     fu_cache_max_mb = 10240\<rparr>"

definition default_crypto :: CryptoConfig where
  "default_crypto = \<lparr>cy_enabled = False, cy_argon2_mem_cost_kib = 65536, cy_argon2_time_cost = 3,
     cy_argon2_parallelism = 4, cy_master_key_file = None, cy_device_identity = None\<rparr>"

definition default_sops :: SopsConfig where
  "default_sops = \<lparr>so_enabled = False, so_sops_dir = path_of ''~/.config/sops/age'',
     so_sync_prefix = ''sops-sync'', so_machine_id = None,
     so_backup_dir = path_of ''~/.local/share/tcfs/sops-backups'', so_watch = False\<rparr>"

text \<open>The derived \<^verbatim>\<open>Default\<close>: the boolean field gets \<^verbatim>\<open>bool::default()\<close>.\<close>

definition default_config :: TcfsConfig where
  "default_config = \<lparr>cf_daemon = default_daemon, cf_storage = default_storage, cf_secrets = default_secrets,
     cf_sync = default_sync, cf_fuse = default_fuse, cf_crypto = default_crypto, cf_sops = default_sops,
     cf_config_file_mode_check = False\<rparr>"

text \<open>What \<^verbatim>\<open>serde\<close> makes of an empty document: the field's own default wins over the derived one.\<close>

definition empty_toml_config :: TcfsConfig where
  "empty_toml_config = default_config\<lparr>cf_config_file_mode_check := default_true\<rparr>"

definition load_config :: "(string \<Rightarrow> TcfsConfig option) \<Rightarrow> fs \<Rightarrow> path \<Rightarrow> TcfsConfig res" where
  "load_config toml f p =
     (if fs_exists f p
      then (case read_to_string f p of
              Inl e \<Rightarrow> Inl e
            | Inr content \<Rightarrow> ok_or (EParse ''config'' (path_str p)) (toml content))
      else Ok default_config)"

section \<open>Properties\<close>

text \<open>
  An absent configuration file is not the same as an empty one: without a file the check of the
  file mode is off, with an empty file it is on.
\<close>

lemma missing_config_differs:
  assumes "\<not> fs_exists f p" and "fs_exists g p" and "fs_read g p = Inr []" and "toml [] = Some empty_toml_config"
  shows "load_config toml f p \<noteq> load_config toml g p"
proof -
  have "from_utf8 [] = Some []" by (simp add: from_utf8_def str_of_bytes_def)
  then show ?thesis
    using assms by (simp add: load_config_def read_to_string_def empty_toml_config_def default_config_def default_true_def)
qed

end
