(* ===== verification/Secret_Store.thy ===== *)
theory Secret_Store
  imports Device_Registry Tcfs_Config Tcfs_Crypto
begin

text \<open>
  Credentials (\<^verbatim>\<open>crates/tcfs-secrets\<close>): the age identity chain (\<^verbatim>\<open>identity.rs\<close>), reading a
  SOPS-encrypted YAML file (\<^verbatim>\<open>sops.rs\<close>), the lookup in a KeePass database (\<^verbatim>\<open>kdbx.rs\<close>), the credential
  chain (\<^verbatim>\<open>lib.rs\<close>) and its reload in the daemon (\<^verbatim>\<open>crates/tcfsd/src/cred_store.rs\<close>). YAML and JSON
  text, age, AES-GCM, base64, KeePass decryption, external commands and the environment are
  parameters.
\<close>

section \<open>Model: the age identity\<close>

record IdentityProvider =
  key_data :: string
  ip_source :: string

definition home_path :: "environment \<Rightarrow> path" where
  "home_path env = path_of (case env ''HOME'' of Some h \<Rightarrow> h | None \<Rightarrow> ''/tmp'')"

definition default_age_key_path :: "environment \<Rightarrow> path" where
  "default_age_key_path env = path_join (home_path env) (path_of ''.config/sops/age/keys.txt'')"

definition expand_tilde :: "environment \<Rightarrow> path \<Rightarrow> path" where
  "expand_tilde env p =
     (case strip_prefix ''~/'' (path_str p) of
        Some rest \<Rightarrow> path_join (home_path env) (path_of rest)
      | None \<Rightarrow> p)"

text \<open>One source of the chain that names a file: skipped when the file does not exist.\<close>

definition identity_file :: "fs \<Rightarrow> string \<Rightarrow> path option \<Rightarrow> IdentityProvider res option" where
  "identity_file f label po =
     (case po of
        None \<Rightarrow> None
      | Some p \<Rightarrow>
          if \<not> fs_exists f p then None
          else Some (case read_to_string f p of
                       Inl e \<Rightarrow> Inl e
                     | Inr k \<Rightarrow> Ok \<lparr>key_data = k, ip_source = label @ '':'' @ path_str p\<rparr>))"

definition identity_literal :: "environment \<Rightarrow> IdentityProvider res option" where
  "identity_literal env =
     (case env ''SOPS_AGE_KEY'' of
        None \<Rightarrow> None
      | Some k \<Rightarrow> if k = [] then None else Some (Ok \<lparr>key_data = k, ip_source = ''SOPS_AGE_KEY (env)''\<rparr>))"

fun first_some :: "'a option list \<Rightarrow> 'a option" where
  "first_some [] = None"
| "first_some (x # xs) = (case x of None \<Rightarrow> first_some xs | Some v \<Rightarrow> Some v)"

definition find_age_identity :: "environment \<Rightarrow> fs \<Rightarrow> SecretsConfig \<Rightarrow> IdentityProvider res" where
  "find_age_identity env f cfg =
     (case first_some
             [identity_file f ''systemd'' (map_option (\<lambda>d. path_join (path_of d) (path_of ''age-identity''))
                (env ''CREDENTIALS_DIRECTORY'')),
              identity_file f ''SOPS_AGE_KEY_FILE'' (map_option path_of (env ''SOPS_AGE_KEY_FILE'')),
              identity_literal env,
              identity_file f ''config'' (map_option (expand_tilde env) (age_identity cfg)),
              identity_file f ''default'' (Some (default_age_key_path env))] of
        None \<Rightarrow> Err (EMissing ''age identity'')
      | Some r \<Rightarrow> r)"

section \<open>Model: SOPS files\<close>

datatype yaml =
    YNull | YBool bool | YNum string | YStr string | YSeq "yaml list" | YMap "(yaml \<times> yaml) list"

definition y_get :: "yaml \<Rightarrow> string \<Rightarrow> yaml option" where
  "y_get v k = (case v of YMap m \<Rightarrow> map_of m (YStr k) | _ \<Rightarrow> None)"

definition as_str :: "yaml \<Rightarrow> string option" where
  "as_str v = (case v of YStr s \<Rightarrow> Some s | _ \<Rightarrow> None)"

definition as_sequence :: "yaml \<Rightarrow> yaml list option" where
  "as_sequence v = (case v of YSeq xs \<Rightarrow> Some xs | _ \<Rightarrow> None)"

record SopsCredentials =
  sc_access_key_id :: string
  sc_secret_access_key :: string
  sc_endpoint :: "string option"
  sc_region :: "string option"
  sc_jwt_signing_key :: "string option"
  sc_rclone_password1 :: "string option"
  sc_rclone_password2 :: "string option"
  sc_extra :: "string \<Rightarrow> string option"

definition creds_default :: SopsCredentials where
  "creds_default = \<lparr>sc_access_key_id = [], sc_secret_access_key = [], sc_endpoint = None, sc_region = None,
     sc_jwt_signing_key = None, sc_rclone_password1 = None, sc_rclone_password2 = None, sc_extra = (\<lambda>_. None)\<rparr>"

definition extract_age_enc :: "yaml \<Rightarrow> string res" where
  "extract_age_enc data =
     (case y_get data ''sops'' of
        None \<Rightarrow> Err (EMissing ''sops'')
      | Some sops \<Rightarrow>
          (case Option.bind (y_get sops ''age'') as_sequence of
             None \<Rightarrow> Err (EMissing ''sops.age'')
           | Some [] \<Rightarrow> Err (EMissing ''sops.age[0]'')
           | Some (x # _) \<Rightarrow> ok_or (EMissing ''sops.age[0].enc'') (Option.bind (y_get x ''enc'') as_str)))"

record gcm =
  gcm_encrypt :: "bytes \<Rightarrow> bytes \<Rightarrow> bytes \<Rightarrow> bytes"
  gcm_decrypt :: "bytes \<Rightarrow> bytes \<Rightarrow> bytes \<Rightarrow> bytes option"

text \<open>
  The age library (\<^verbatim>\<open>age.rs\<close>): the identities of a key file, and an armoured ciphertext as the flag
  that it is locked by a passphrase and its decryption with a list of identities.
\<close>

record age_lib =
  ag_identities :: "string \<Rightarrow> string list option"
  ag_open :: "bytes \<Rightarrow> (bool \<times> (string list \<Rightarrow> bytes option)) option"

definition decrypt_with_identity :: "age_lib \<Rightarrow> string \<Rightarrow> bytes \<Rightarrow> bytes res" where
  "decrypt_with_identity A identity encrypted =
     (case ag_identities A identity of
        None \<Rightarrow> Err (EParse ''age identity file'' [])
      | Some ids \<Rightarrow>
          (case ag_open A encrypted of
             None \<Rightarrow> Err (ECrypto ''creating age decryptor'')
           | Some (scrypt, dec) \<Rightarrow>
               if scrypt then Err (EUnsupported ''passphrase-protected age keys'')
               else ok_or (ECrypto ''decrypting with age identity'') (dec ids)))"

record sops_libs =
  s_gcm :: gcm
  s_b64 :: base64
  s_age :: age_lib
  s_yaml :: "string \<Rightarrow> yaml option"

text \<open>The comma-separated fields of a token; a later field of the same name wins.\<close>

fun enc_fields :: "string \<times> string \<times> string \<Rightarrow> string list \<Rightarrow> string \<times> string \<times> string" where
  "enc_fields (d, i, t) [] = (d, i, t)"
| "enc_fields (d, i, t) (p # ps) =
     enc_fields
       (case strip_prefix ''data:'' p of
          Some v \<Rightarrow> (v, i, t)
        | None \<Rightarrow> (case strip_prefix ''iv:'' p of
                     Some v \<Rightarrow> (d, v, t)
                   | None \<Rightarrow> (case strip_prefix ''tag:'' p of
                                Some v \<Rightarrow> (d, i, v)
                              | None \<Rightarrow> (d, i, t)))) ps"

definition decrypt_enc_value :: "sops_libs \<Rightarrow> string \<Rightarrow> bytes \<Rightarrow> string res" where
  "decrypt_enc_value L enc data_key =
     (case Option.bind (strip_prefix ''ENC[AES256_GCM,'' enc) (strip_suffix '']'') of
        None \<Rightarrow> Err (EParse ''ENC value'' enc)
      | Some inner \<Rightarrow>
          (case enc_fields ([], [], []) (split_on (CHR '','') inner) of
             (data_b64, iv_b64, tag_b64) \<Rightarrow>
               if data_b64 = [] \<or> iv_b64 = [] \<or> tag_b64 = [] then Err (EMissing ''ENC fields'')
               else (case (b64_dec (s_b64 L) data_b64, b64_dec (s_b64 L) iv_b64, b64_dec (s_b64 L) tag_b64) of
                       (None, _, _) \<Rightarrow> Err (EDecode ''base64 decode data'')
                     | (Some _, None, _) \<Rightarrow> Err (EDecode ''base64 decode iv'')
                     | (Some _, Some _, None) \<Rightarrow> Err (EDecode ''base64 decode tag'')
                     | (Some ct, Some iv, Some tag) \<Rightarrow>
                         if length iv \<noteq> 12 then Err (EWrongSize 12 (length iv))
                         else if length tag \<noteq> 16 then Err (EWrongSize 16 (length tag))
                         else (case gcm_decrypt (s_gcm L) data_key iv (ct @ tag) of
                                 None \<Rightarrow> Err (ECrypto ''AES-256-GCM'')
                               | Some pt \<Rightarrow> ok_or (EUtf8 ''decrypted value'') (from_utf8 pt)))))"

definition set_field :: "string \<Rightarrow> string \<Rightarrow> SopsCredentials \<Rightarrow> SopsCredentials" where
  "set_field key_path v c =
     (let leaf = rsplit_first (CHR ''.'') key_path
      in if leaf = ''access_key_id'' then c\<lparr>sc_access_key_id := v\<rparr>
         else if leaf = ''secret_access_key'' then c\<lparr>sc_secret_access_key := v\<rparr>
         else if leaf = ''endpoint'' then c\<lparr>sc_endpoint := Some v\<rparr>
         else if leaf = ''region'' then c\<lparr>sc_region := Some v\<rparr>
         else if leaf = ''jwt_signing_key'' then c\<lparr>sc_jwt_signing_key := Some v\<rparr>
         else if leaf = ''rclone_password1'' then c\<lparr>sc_rclone_password1 := Some v\<rparr>
         else if leaf = ''rclone_password2'' then c\<lparr>sc_rclone_password2 := Some v\<rparr>
         else c\<lparr>sc_extra := (sc_extra c)(key_path := Some v)\<rparr>)"

definition sub_path :: "string \<Rightarrow> string \<Rightarrow> string" where
  "sub_path key_path key = (if key_path = [] then key else key_path @ CHR ''.'' # key)"

fun decrypt_entries :: "sops_libs \<Rightarrow> bytes \<Rightarrow> string \<Rightarrow> (yaml \<times> yaml) list \<Rightarrow> SopsCredentials \<Rightarrow> SopsCredentials res"
and decrypt_yaml_value :: "sops_libs \<Rightarrow> bytes \<Rightarrow> string \<Rightarrow> yaml \<Rightarrow> SopsCredentials \<Rightarrow> SopsCredentials res" where
  "decrypt_entries L dk kp [] c = Ok c"
| "decrypt_entries L dk kp ((k, v) # r) c =
     (let key = (case as_str k of Some s \<Rightarrow> s | None \<Rightarrow> [])
      in if key = ''sops'' then decrypt_entries L dk kp r c
         else (case decrypt_yaml_value L dk (sub_path kp key) v c of
                 Inl e \<Rightarrow> Inl e
               | Inr c' \<Rightarrow> decrypt_entries L dk kp r c'))"
| "decrypt_yaml_value L dk kp (YMap m) c = decrypt_entries L dk kp m c"
| "decrypt_yaml_value L dk kp (YStr s) c =
     (case (if starts_with ''ENC[AES256_GCM,'' s then decrypt_enc_value L s dk else Ok s) of
        Inl e \<Rightarrow> Inl e
      | Inr v \<Rightarrow> Ok (set_field kp v c))"
| "decrypt_yaml_value L dk kp YNull c = Ok c"
| "decrypt_yaml_value L dk kp (YBool b) c = Ok c"
| "decrypt_yaml_value L dk kp (YNum n) c = Ok c"
| "decrypt_yaml_value L dk kp (YSeq xs) c = Ok c"

definition sops_parse :: "sops_libs \<Rightarrow> string \<Rightarrow> (yaml \<times> string) res" where
  "sops_parse L yaml_str =
     (case s_yaml L yaml_str of
        None \<Rightarrow> Err (EParse ''SOPS YAML'' [])
      | Some data \<Rightarrow> (case extract_age_enc data of Inl e \<Rightarrow> Inl e | Inr enc \<Rightarrow> Ok (data, enc)))"

definition decrypt_sops_file :: "sops_libs \<Rightarrow> fs \<Rightarrow> path \<Rightarrow> IdentityProvider \<Rightarrow> SopsCredentials res" where
  "decrypt_sops_file L f p identity =
     (case read_to_string f p of
        Inl e \<Rightarrow> Inl e
      | Inr yaml_str \<Rightarrow>
          (case sops_parse L yaml_str of
             Inl e \<Rightarrow> Inl e
           | Inr (data, age_enc) \<Rightarrow>
               (case decrypt_with_identity (s_age L) (key_data identity) (bytes_of_str age_enc) of
                  Inl e \<Rightarrow> Inl e
                | Inr dk \<Rightarrow>
                    if length dk < 32 then Err (ETooShort (length dk) 32)
                    else decrypt_yaml_value L (take 32 dk) [] data creds_default)))"

section \<open>Model: KeePass lookup\<close>

record kentry =
  ke_title :: "string option"
  ke_username :: "string option"
  ke_password :: "string option"
  ke_url :: "string option"

datatype kgroup = KGroup (kg_name: string) (kg_entries: "kentry list") (kg_groups: "kgroup list")

record KdbxCredential =
  kc_title :: string
  kc_username :: "string option"
  kc_password :: string
  kc_url :: "string option"

definition ascii_lower :: "char \<Rightarrow> char" where
  "ascii_lower c = (let n = of_char c :: nat in if 65 \<le> n \<and> n \<le> 90 then char_of (n + 32) else c)"

definition eq_ignore_ascii_case :: "string \<Rightarrow> string \<Rightarrow> bool" where
  "eq_ignore_ascii_case a b \<longleftrightarrow> map ascii_lower a = map ascii_lower b"

fun search_entries :: "string \<Rightarrow> kentry list \<Rightarrow> KdbxCredential option" where
  "search_entries t [] = None"
| "search_entries t (e # es) =
     (case ke_title e of
        Some title \<Rightarrow>
          if eq_ignore_ascii_case title t
          then Some \<lparr>kc_title = title, kc_username = ke_username e,
                     kc_password = (case ke_password e of Some p \<Rightarrow> p | None \<Rightarrow> []), kc_url = ke_url e\<rparr>
          else search_entries t es
      | None \<Rightarrow> search_entries t es)"

fun search_group :: "kgroup \<Rightarrow> string \<Rightarrow> KdbxCredential option"
and search_groups :: "kgroup list \<Rightarrow> string \<Rightarrow> string \<Rightarrow> KdbxCredential option" where
  "search_group (KGroup n es gs) query =
     (case split_once slash query of
        None \<Rightarrow> search_entries query es
      | Some (group_name, rest) \<Rightarrow> search_groups gs group_name rest)"
| "search_groups [] group_name rest = None"
| "search_groups (g # gs) group_name rest =
     (if eq_ignore_ascii_case (kg_name g) group_name then search_group g rest
      else search_groups gs group_name rest)"

text \<open>\<open>open_db\<close> is the KeePass library: the root group of a database file under a password.\<close>

definition kdbx_resolve ::
  "(bytes \<Rightarrow> string \<Rightarrow> kgroup res) \<Rightarrow> fs \<Rightarrow> path \<Rightarrow> string \<Rightarrow> string \<Rightarrow> KdbxCredential res" where
  "kdbx_resolve open_db f p query master_password =
     (case fs_read f p of
        Inl e \<Rightarrow> Inl e
      | Inr d \<Rightarrow>
          (case open_db d master_password of
             Inl e \<Rightarrow> Inl e
           | Inr root \<Rightarrow> ok_or (EMissing query) (search_group root query)))"

section \<open>Model: the credential store\<close>

record S3Credentials =
  s3_access_key_id :: string
  s3_secret_access_key :: string
  s3_endpoint :: string
  s3_region :: string

record CredStore =
  cs_s3 :: "S3Credentials option"
  cs_source :: string

definition unwrap_or :: "'a \<Rightarrow> 'a option \<Rightarrow> 'a" where
  "unwrap_or d x = (case x of None \<Rightarrow> d | Some v \<Rightarrow> v)"

definition load_from_sops ::
  "sops_libs \<Rightarrow> environment \<Rightarrow> fs \<Rightarrow> path \<Rightarrow> SecretsConfig \<Rightarrow> CredStore res" where
  "load_from_sops L env f cred_file cfg =
     (case find_age_identity env f cfg of
        Inl e \<Rightarrow> Inl e
      | Inr identity \<Rightarrow>
          (case decrypt_sops_file L f cred_file identity of
             Inl e \<Rightarrow> Inl e
           | Inr c \<Rightarrow>
               Ok \<lparr>cs_s3 = Some \<lparr>s3_access_key_id = sc_access_key_id c, s3_secret_access_key = sc_secret_access_key c,
                                 s3_endpoint = unwrap_or [] (sc_endpoint c),
                                 s3_region = unwrap_or ''us-east-1'' (sc_region c)\<rparr>,
                   cs_source = ''sops:'' @ path_str cred_file\<rparr>))"

text \<open>
  The output of \<^verbatim>\<open>remote-juggler\<close>: an error, or the fields of the JSON value it printed (\<open>JStr\<close> a
  string, \<open>JOther\<close> anything else; no fields when the value is not an object).
\<close>

datatype jval = JStr string | JOther

type_synonym jobject = "string \<Rightarrow> jval option"

definition j_str :: "jval option \<Rightarrow> string option" where
  "j_str v = (case v of Some (JStr s) \<Rightarrow> Some s | _ \<Rightarrow> None)"

definition or_else :: "'a option \<Rightarrow> 'a option \<Rightarrow> 'a option" where
  "or_else x y = (case x of None \<Rightarrow> y | Some _ \<Rightarrow> x)"

definition load_from_remote_juggler :: "jobject res \<Rightarrow> StorageConfig \<Rightarrow> CredStore res" where
  "load_from_remote_juggler juggler storage =
     (case juggler of
        Inl e \<Rightarrow> Inl e
      | Inr json \<Rightarrow>
          (let access_key = unwrap_or [] (j_str (or_else (json ''access_key_id'') (json ''username'')));
               secret_key = unwrap_or [] (j_str (or_else (json ''secret_access_key'') (json ''password'')))
           in if access_key = [] \<or> secret_key = [] then Err (EMissing ''remote-juggler credentials'')
              else Ok \<lparr>cs_s3 = Some \<lparr>s3_access_key_id = access_key, s3_secret_access_key = secret_key,
                                     s3_endpoint = unwrap_or (sg_endpoint storage) (j_str (json ''endpoint'')),
                                     s3_region = unwrap_or (sg_region storage) (j_str (json ''region''))\<rparr>,
                       cs_source = ''remote-juggler:kdbx''\<rparr>))"

definition load_from_env :: "environment \<Rightarrow> StorageConfig \<Rightarrow> CredStore res" where
  "load_from_env env storage =
     (let access_key = unwrap_or [] (or_else (env ''TCFS_S3_ACCESS'') (or_else (env ''AWS_ACCESS_KEY_ID'') (env ''SEAWEED_ACCESS_KEY'')));
          secret_key = unwrap_or [] (or_else (env ''TCFS_S3_SECRET'') (or_else (env ''AWS_SECRET_ACCESS_KEY'') (env ''SEAWEED_SECRET_KEY'')))
      in Ok \<lparr>cs_s3 = (if access_key \<noteq> []
                      then Some \<lparr>s3_access_key_id = access_key, s3_secret_access_key = secret_key,
                                 s3_endpoint = sg_endpoint storage, s3_region = sg_region storage\<rparr>
                      else None),
             cs_source = ''env''\<rparr>)"

definition try_load :: "CredStore res \<Rightarrow> CredStore res \<Rightarrow> CredStore res" where
  "try_load x y = (case x of Inr c \<Rightarrow> Ok c | Inl _ \<Rightarrow> y)"

definition cred_load ::
  "sops_libs \<Rightarrow> environment \<Rightarrow> jobject res \<Rightarrow> fs \<Rightarrow> SecretsConfig \<Rightarrow> StorageConfig \<Rightarrow> CredStore res" where
  "cred_load L env juggler f cfg storage =
     (let from_env = load_from_env env storage;
          from_juggler = (if env ''REMOTE_JUGGLER_IDENTITY'' \<noteq> None
                          then try_load (load_from_remote_juggler juggler storage) from_env else from_env)
      in case sg_credentials_file storage of
           None \<Rightarrow> from_juggler
         | Some p \<Rightarrow> if fs_exists f p then try_load (load_from_sops L env f p cfg) from_juggler else from_juggler)"

text \<open>One reload of the daemon's shared store, as its watcher performs it.\<close>

definition reload_credentials ::
  "sops_libs \<Rightarrow> environment \<Rightarrow> jobject res \<Rightarrow> fs \<Rightarrow> SecretsConfig \<Rightarrow> StorageConfig \<Rightarrow> CredStore option \<Rightarrow> CredStore option" where
  "reload_credentials L env juggler f cfg storage current =
     (case cred_load L env juggler f cfg storage of
        Inr cs \<Rightarrow> Some cs
      | Inl _ \<Rightarrow> current)"

section \<open>Encrypted values\<close>

text \<open>AES-GCM decrypts what it encrypted; base64 text is made of its alphabet and empty only for no data.\<close>

definition gcm_laws :: "gcm \<Rightarrow> bool" where
  "gcm_laws G \<longleftrightarrow> (\<forall>k n m. gcm_decrypt G k n (gcm_encrypt G k n m) = Some m \<and> length (gcm_encrypt G k n m) = length m + 16)"

definition b64_text_laws :: "base64 \<Rightarrow> bool" where
  "b64_text_laws B \<longleftrightarrow> base64_laws B \<and>
     (\<forall>d. CHR '','' \<notin> set (b64_enc B d) \<and> (d \<noteq> [] \<longrightarrow> b64_enc B d \<noteq> []))"

definition enc_token :: "base64 \<Rightarrow> bytes \<Rightarrow> bytes \<Rightarrow> bytes \<Rightarrow> string" where
  "enc_token B ct iv tag =
     ''ENC[AES256_GCM,data:'' @ b64_enc B ct @ '',iv:'' @ b64_enc B iv @ '',tag:'' @ b64_enc B tag @ '',type:str]''"

lemma strip_both: "Option.bind (strip_prefix p (p @ x @ q)) (strip_suffix q) = Some x"
  by (simp only: strip_prefix_append bind.bind_lunit strip_suffix_append)

lemma enc_token_inner:
  "Option.bind (strip_prefix ''ENC[AES256_GCM,'' (enc_token B ct iv tag)) (strip_suffix '']'') =
     Some (''data:'' @ b64_enc B ct @ '',iv:'' @ b64_enc B iv @ '',tag:'' @ b64_enc B tag @ '',type:str'')"
  using strip_both[of "''ENC[AES256_GCM,''" "''data:'' @ b64_enc B ct @ '',iv:'' @ b64_enc B iv @ '',tag:'' @ b64_enc B tag @ '',type:str''"
      "'']''"] by (simp add: enc_token_def)

lemma split_fields:
  assumes "CHR '','' \<notin> set a" and "CHR '','' \<notin> set b" and "CHR '','' \<notin> set c"
  shows "split_on (CHR '','') (''data:'' @ a @ '',iv:'' @ b @ '',tag:'' @ c @ '',type:str'') =
           [''data:'' @ a, ''iv:'' @ b, ''tag:'' @ c, ''type:str'']"
proof -
  have e: "''data:'' @ a @ '',iv:'' @ b @ '',tag:'' @ c @ '',type:str'' =
      (''data:'' @ a) @ CHR '','' # ((''iv:'' @ b) @ CHR '','' # ((''tag:'' @ c) @ CHR '','' # ''type:str''))"
    by simp
  show ?thesis
    unfolding e by (subst split_on_append, use assms in simp)+ (simp add: split_on_no_sep)
qed

lemma enc_fields_token:
  "enc_fields ([], [], []) [''data:'' @ a, ''iv:'' @ b, ''tag:'' @ c, ''type:str''] = (a, b, c)"
  by simp

lemma decrypt_enc_token:
  assumes "b64_text_laws (s_b64 L)" and "ct \<noteq> []" and "length iv = 12" and "length tag = 16"
  shows "decrypt_enc_value L (enc_token (s_b64 L) ct iv tag) dk =
           (case gcm_decrypt (s_gcm L) dk iv (ct @ tag) of
              None \<Rightarrow> Err (ECrypto ''AES-256-GCM'')
            | Some pt \<Rightarrow> ok_or (EUtf8 ''decrypted value'') (from_utf8 pt))"
proof -
  have ne: "iv \<noteq> []" "tag \<noteq> []" using assms(3,4) by auto
  have "split_on (CHR '','') (''data:'' @ b64_enc (s_b64 L) ct @ '',iv:'' @ b64_enc (s_b64 L) iv @ '',tag:'' @
      b64_enc (s_b64 L) tag @ '',type:str'') =
      [''data:'' @ b64_enc (s_b64 L) ct, ''iv:'' @ b64_enc (s_b64 L) iv, ''tag:'' @ b64_enc (s_b64 L) tag, ''type:str'']"
    using assms(1) by (intro split_fields) (simp_all add: b64_text_laws_def)
  then show ?thesis
    using assms ne unfolding decrypt_enc_value_def enc_token_inner
    by (simp only: option.case enc_fields_token) (simp add: b64_text_laws_def base64_laws_def)
qed

text \<open>
  An encrypted value decrypts to the text it was made from. For a non-empty UTF-8 text
  encrypted with AES-GCM under the data key and written as a SOPS token, decryption returns the
  text; a token whose authentication fails is an error, never text.
\<close>

theorem sops_value_round_trip:
  assumes "gcm_laws (s_gcm L)" and "b64_text_laws (s_b64 L)" and "length iv = 12"
    and "from_utf8 (bytes_of_str v) = Some v" and "v \<noteq> []"
    and "gcm_encrypt (s_gcm L) dk iv (bytes_of_str v) = ct @ tag" and "length tag = 16"
  shows "decrypt_enc_value L (enc_token (s_b64 L) ct iv tag) dk = Inr v \<and>
         (\<forall>dk'. gcm_decrypt (s_gcm L) dk' iv (ct @ tag) = None \<longrightarrow>
            decrypt_enc_value L (enc_token (s_b64 L) ct iv tag) dk' = Inl (ECrypto ''AES-256-GCM''))"
proof -
  have "length (ct @ tag) = length v + 16"
    using assms(1,6) by (metis gcm_laws_def bytes_of_str_def length_map)
  then have "ct \<noteq> []" using assms(5,7) by auto
  note D = decrypt_enc_token[OF assms(2) this assms(3,7)]
  have "gcm_decrypt (s_gcm L) dk iv (ct @ tag) = Some (bytes_of_str v)"
    using assms(1) unfolding assms(6)[symmetric] gcm_laws_def by blast
  with D assms(4) show ?thesis by simp
qed

section \<open>The credential chain\<close>

lemma load_from_env_ok: "is_ok (load_from_env env storage)"
  by (simp add: load_from_env_def Let_def)

lemma cred_load_ok: "is_ok (cred_load L env juggler f cfg storage)"
  using load_from_env_ok[of env storage]
  by (auto simp: cred_load_def try_load_def Let_def split: sum.splits option.splits)

text \<open>
  The credential chain never fails, so a reload never keeps the previous credentials: when the
  credential file can no longer be decrypted, no other source is configured and no access key is
  in the environment, the daemon's store is replaced by one without credentials.
\<close>

theorem reload_discards_credentials:
  assumes "sg_credentials_file storage = Some p" and "load_from_sops L env f p cfg = Inl e"
    and "env ''REMOTE_JUGGLER_IDENTITY'' = None"
    and "env ''TCFS_S3_ACCESS'' = None" and "env ''AWS_ACCESS_KEY_ID'' = None" and "env ''SEAWEED_ACCESS_KEY'' = None"
  shows "reload_credentials L env juggler f cfg storage current = Some \<lparr>cs_s3 = None, cs_source = ''env''\<rparr>"
  using assms
  by (simp add: reload_credentials_def cred_load_def try_load_def load_from_env_def or_else_def unwrap_or_def Let_def)

text \<open>The identity chain takes the first source that is present, even when reading it fails.\<close>

lemma first_some_spec: "first_some xs = Some v \<longleftrightarrow> (\<exists>n post. xs = replicate n None @ Some v # post)"
proof (induction xs)
  case (Cons x xs)
  show ?case
  proof (cases x)
    case None
    then have "first_some (x # xs) = Some v \<longleftrightarrow> (\<exists>n post. x # xs = replicate (Suc n) None @ Some v # post)"
      using Cons by simp
    also have "\<dots> \<longleftrightarrow> (\<exists>n post. x # xs = replicate n None @ Some v # post)"
      using None by (metis append_Nil list.inject option.distinct(1) replicate_0 not0_implies_Suc)
    finally show ?thesis .
  next
    case (Some y)
    have "Some y # xs = replicate n None @ Some v # post \<longleftrightarrow> n = 0 \<and> y = v \<and> xs = post" for n post
      by (cases n) auto
    with Some show ?thesis by simp
  qed
qed simp

section \<open>The KeePass lookup\<close>

text \<open>The entries a path of group names leads to; names are compared without case.\<close>

inductive entry_path :: "kgroup \<Rightarrow> string list \<Rightarrow> kentry \<Rightarrow> bool" where
  here: "e \<in> set es \<Longrightarrow> ke_title e = Some t \<Longrightarrow> eq_ignore_ascii_case t q \<Longrightarrow> entry_path (KGroup n es gs) [q] e"
| below: "g \<in> set gs \<Longrightarrow> eq_ignore_ascii_case (kg_name g) q \<Longrightarrow> entry_path g qs e \<Longrightarrow>
     entry_path (KGroup n es gs) (q # qs) e"

lemma search_entries_sound:
  "search_entries t es = Some c \<Longrightarrow>
   \<exists>e \<in> set es. ke_title e = Some (kc_title c) \<and> eq_ignore_ascii_case (kc_title c) t \<and> kc_username c = ke_username e"
  by (induction t es rule: search_entries.induct) (auto split: option.splits if_splits)

lemma search_sound:
  "search_group g query = Some c \<Longrightarrow> \<exists>qs e. entry_path g qs e \<and> ke_title e = Some (kc_title c) \<and> kc_username c = ke_username e"
  "search_groups gs q rest = Some c \<Longrightarrow>
     \<exists>g \<in> set gs. \<exists>qs e. eq_ignore_ascii_case (kg_name g) q \<and> entry_path g qs e \<and> ke_title e = Some (kc_title c) \<and> kc_username c = ke_username e"
proof (induction g query and gs q rest rule: search_group_search_groups.induct)
  case (1 n es gs query)
  show ?case
  proof (cases "split_once slash query")
    case None
    with 1 show ?thesis using search_entries_sound[of query es c] by (auto intro!: entry_path.here)
  next
    case (Some x)
    obtain q rest where x: "x = (q, rest)" by fastforce
    with Some have "search_groups gs q rest = Some c" using "1.prems" by simp
    then obtain g qs e where "g \<in> set gs" "eq_ignore_ascii_case (kg_name g) q" "entry_path g qs e"
      "ke_title e = Some (kc_title c)" "kc_username c = ke_username e"
      using "1.IH" Some x by metis
    then show ?thesis by (blast intro: entry_path.below)
  qed
qed (auto split: if_splits)

section \<open>Concrete values\<close>

definition toy_gcm :: gcm where
  "toy_gcm = \<lparr>gcm_encrypt = (\<lambda>k n m. m @ replicate 16 0),
              gcm_decrypt = (\<lambda>k n c. if length c < 16 then None else Some (take (length c - 16) c))\<rparr>"

definition hex_base64 :: base64 where
  "hex_base64 = \<lparr>b64_enc = hex_encode, b64_dec = (\<lambda>s. case hex_decode s of Inl _ \<Rightarrow> None | Inr b \<Rightarrow> Some b)\<rparr>"

definition toy_sops :: sops_libs where
  "toy_sops = \<lparr>s_gcm = toy_gcm, s_b64 = hex_base64, s_age = \<lparr>ag_identities = (\<lambda>_. None), ag_open = (\<lambda>_. None)\<rparr>, s_yaml = (\<lambda>_. None)\<rparr>"

lemma hex_base64_laws: "b64_text_laws hex_base64"
proof -
  have "CHR '','' \<notin> set (hex_encode d)" for d
  proof -
    have "\<not> hex_digit (CHR '','')" by (simp add: hex_digit_def)
    then show ?thesis using hex_encode_digits[of d] unfolding list_all_iff by blast
  qed
  moreover have "hex_encode d = [] \<Longrightarrow> d = []" for d
    by (cases d) (simp_all add: hex_byte_def)
  ultimately show ?thesis
    by (auto simp: b64_text_laws_def base64_laws_def hex_base64_def hex.round_trip)
qed

theorem sops_value_round_trip_witness:
  "decrypt_enc_value toy_sops (enc_token hex_base64 (bytes_of_str ''k1'') (replicate 12 1) (replicate 16 0)) (replicate 32 7) = Inr ''k1''"
proof -
  have utf8: "from_utf8 (bytes_of_str ''k1'') = Some ''k1''" by (simp add: ascii_str_def)
  have G: "gcm_laws (s_gcm toy_sops)" by (simp add: toy_sops_def toy_gcm_def gcm_laws_def)
  have B: "b64_text_laws (s_b64 toy_sops)" using hex_base64_laws by (simp add: toy_sops_def)
  have enc: "gcm_encrypt (s_gcm toy_sops) (replicate 32 7) (replicate 12 1) (bytes_of_str ''k1'') = bytes_of_str ''k1'' @ replicate 16 0"
    by (simp only: toy_sops_def toy_gcm_def gcm.simps sops_libs.simps)
  have "decrypt_enc_value toy_sops (enc_token (s_b64 toy_sops) (bytes_of_str ''k1'') (replicate 12 1) (replicate 16 0)) (replicate 32 7) = Inr ''k1''"
    using sops_value_round_trip[OF G B _ utf8 _ enc] by (simp only: length_replicate list.distinct simp_thms)
  then show ?thesis by (simp only: toy_sops_def sops_libs.simps)
qed

definition demo_storage :: StorageConfig where
  "demo_storage = \<lparr>sg_endpoint = ''https://s3'', sg_region = ''r'', sg_bucket = ''p'',
     sg_credentials_file = Some (path_of ''/a''), sg_enforce_tls = True, sg_ca_cert_path = None\<rparr>"

theorem reload_discards_credentials_witness:
  "reload_credentials toy_sops (\<lambda>_. None) (Inl (EMissing ''juggler'')) one_file default_secrets demo_storage
     (Some \<lparr>cs_s3 = Some \<lparr>s3_access_key_id = ''k'', s3_secret_access_key = ''s'', s3_endpoint = [], s3_region = []\<rparr>, cs_source = ''sops:/a''\<rparr>) =
   Some \<lparr>cs_s3 = None, cs_source = ''env''\<rparr>"
proof -
  have "find_age_identity (\<lambda>_. None) one_file default_secrets = Inl (EMissing ''age identity'')"
    by code_simp
  then have "load_from_sops toy_sops (\<lambda>_. None) one_file (path_of ''/a'') default_secrets =
      Inl (EMissing ''age identity'')"
    by (simp add: load_from_sops_def)
  then show ?thesis by (rule reload_discards_credentials[rotated]) (simp_all add: demo_storage_def)
qed

end
