(* ===== verification/Storage_Operator.thy ===== *)
theory Storage_Operator
  imports Secret_Store
begin

text \<open>
  Building the storage operator (\<^verbatim>\<open>crates/tcfs-storage/src/operator.rs\<close>), the health check
  (\<^verbatim>\<open>health.rs\<close>) and the part of the daemon's start-up that connects to the storage with the
  loaded credentials (\<^verbatim>\<open>crates/tcfsd/src/daemon.rs\<close>, \<^verbatim>\<open>run\<close>). The OpenDAL builder is the parameter
  \<open>mk\<close>: from a configuration to an operator, if it accepts the configuration.
\<close>

section \<open>Model\<close>

record S3Config =
  oc_endpoint :: string
  oc_region :: string
  oc_bucket :: string
  oc_access_key_id :: string
  oc_secret_access_key :: string

type_synonym 's op_builder = "S3Config \<Rightarrow> 's operator option"

definition build_operator :: "'s op_builder \<Rightarrow> S3Config \<Rightarrow> 's operator res" where
  "build_operator mk cfg = ok_or (EStorage ''creating OpenDAL S3 operator'' (oc_endpoint cfg)) (mk cfg)"

definition build_from_core_config ::
  "'s op_builder \<Rightarrow> StorageConfig \<Rightarrow> string \<Rightarrow> string \<Rightarrow> 's operator res" where
  "build_from_core_config mk storage ak sk =
     (if starts_with ''http://'' (sg_endpoint storage) \<and> sg_enforce_tls storage
      then Err (EStorage ''plaintext HTTP, but enforce_tls is enabled'' (sg_endpoint storage))
      else build_operator mk \<lparr>oc_endpoint = sg_endpoint storage, oc_region = sg_region storage,
             oc_bucket = sg_bucket storage, oc_access_key_id = ak, oc_secret_access_key = sk\<rparr>)"

definition check_health :: "'s operator \<Rightarrow> 's \<Rightarrow> unit res" where
  "check_health opr s =
     (case op_list opr s ''/'' of Inl _ \<Rightarrow> Err (EStorage ''health check'' ''/'') | Inr _ \<Rightarrow> Ok ())"

definition is_healthy :: "'s operator \<Rightarrow> 's \<Rightarrow> bool" where
  "is_healthy opr s = is_ok (check_health opr s)"

text \<open>The operator the daemon starts with, and whether the storage answered.\<close>

definition daemon_storage ::
  "'s op_builder \<Rightarrow> 's \<Rightarrow> StorageConfig \<Rightarrow> CredStore option \<Rightarrow> ('s operator option \<times> bool) res" where
  "daemon_storage mk s storage creds =
     (case Option.bind creds cs_s3 of
        None \<Rightarrow> Ok (None, False)
      | Some s3 \<Rightarrow>
          (case build_from_core_config mk storage (s3_access_key_id s3) (s3_secret_access_key s3) of
             Inl e \<Rightarrow> Inl e
           | Inr opr \<Rightarrow> Ok (Some opr, is_healthy opr s)))"

section \<open>Properties\<close>

text \<open>
  With \<^verbatim>\<open>enforce_tls\<close> no operator for a plain HTTP endpoint is ever built: a daemon that has
  credentials does not start, and one without never sends any.
\<close>

lemma tls_enforced:
  assumes "sg_enforce_tls storage" and "sg_endpoint storage = ''http://'' @ host"
    and "daemon_storage mk s storage creds = r"
  shows "\<nexists>opr b. r = Inr (Some opr, b)"
  using assms
  by (auto simp: daemon_storage_def build_from_core_config_def starts_with_def split: option.splits)

lemma daemon_keeps_unhealthy_operator:
  assumes "daemon_storage mk s storage creds = Inr (x, b)"
  shows "b \<longleftrightarrow> (\<exists>opr l. x = Some opr \<and> op_list opr s ''/'' = Inr l)"
  using assms
  by (auto simp: daemon_storage_def is_healthy_def check_health_def split: option.splits sum.splits)

end
