(* ===== verification/Cli_Sync.thy ===== *)
theory Cli_Sync
  imports Push_Tree Storage_Operator
begin

text \<open>
  The file commands of the command line, \<^verbatim>\<open>crates/tcfs-cli/src/main.rs\<close>: \<^verbatim>\<open>push\<close>, \<^verbatim>\<open>pull\<close>,
  \<^verbatim>\<open>sync-status\<close> and \<^verbatim>\<open>unsync\<close>, with the resolution of credentials, state path and device id they
  share. Terminal output and progress bars only observe and are left out; a state cache that goes
  out of scope is flushed by its \<^verbatim>\<open>Drop\<close>, which \<open>sc_drop\<close> models.
\<close>

section \<open>Model\<close>

definition env_or :: "environment \<Rightarrow> string \<Rightarrow> string \<Rightarrow> string option" where
  "env_or env a b = or_else (env a) (env b)"

definition build_operator_from_env :: "'s op_builder \<Rightarrow> environment \<Rightarrow> TcfsConfig \<Rightarrow> 's operator res" where
  "build_operator_from_env mk env cfg =
     (case env_or env ''AWS_ACCESS_KEY_ID'' ''TCFS_ACCESS_KEY_ID'' of
        None \<Rightarrow> Err (EMissing ''AWS_ACCESS_KEY_ID'')
      | Some ak \<Rightarrow>
          (case env_or env ''AWS_SECRET_ACCESS_KEY'' ''TCFS_SECRET_ACCESS_KEY'' of
             None \<Rightarrow> Err (EMissing ''AWS_SECRET_ACCESS_KEY'')
           | Some sk \<Rightarrow> build_from_core_config mk (cf_storage cfg) ak sk))"

definition cli_expand_tilde :: "environment \<Rightarrow> path \<Rightarrow> path" where
  "cli_expand_tilde env p =
     (case strip_prefix ''~/'' (path_str p) of
        Some rest \<Rightarrow> path_of (unwrap_or [] (env_or env ''HOME'' ''USERPROFILE'') @ ''/'' @ rest)
      | None \<Rightarrow> p)"

definition resolve_state_path :: "environment \<Rightarrow> TcfsConfig \<Rightarrow> path option \<Rightarrow> path" where
  "resolve_state_path env cfg over =
     (case over of
        Some p \<Rightarrow> p
      | None \<Rightarrow> with_extension (cli_expand_tilde env (sy_state_db (cf_sync cfg))) ''json'')"

definition load_device_id :: "reg_codec \<Rightarrow> environment \<Rightarrow> string option \<Rightarrow> fs \<Rightarrow> TcfsConfig \<Rightarrow> string" where
  "load_device_id R env hostname f cfg =
     (let device_name = unwrap_or (default_device_name hostname) (sy_device_name (cf_sync cfg));
          registry_path = unwrap_or (default_registry_path env) (sy_device_identity (cf_sync cfg))
      in case reg_load R f registry_path of
           Inl _ \<Rightarrow> []
         | Inr r \<Rightarrow> (case reg_find r device_name of Some d \<Rightarrow> di_device_id d | None \<Rightarrow> []))"

definition collect_config_from_sync :: "TcfsConfig \<Rightarrow> CollectConfig" where
  "collect_config_from_sync cfg =
     \<lparr>sync_git_dirs = sy_sync_git_dirs (cf_sync cfg), git_sync_mode = sy_git_sync_mode (cf_sync cfg),
      sync_hidden_dirs = sy_sync_hidden_dirs (cf_sync cfg), exclude_patterns = sy_exclude_patterns (cf_sync cfg)\<rparr>"

text \<open>What the commands get from outside: libraries, the operator builder, the environment.\<close>

record 's cli =
  cl_libs :: "'s libs"
  cl_state :: state_codec
  cl_reg :: reg_codec
  cl_glob :: globber
  cl_build :: "'s op_builder"
  cl_env :: environment
  cl_host :: "string option"

subsection \<open>Push\<close>

datatype push_report = PushedFile UploadResult | PushedTree counts

definition push_prefix :: "path \<Rightarrow> string option \<Rightarrow> string" where
  "push_prefix local pfx =
     (case pfx of Some x \<Rightarrow> trim_end_matches slash x | None \<Rightarrow> unwrap_or ''tcfs'' (file_name local))"

definition push_single ::
  "'s cli \<Rightarrow> 's libs \<Rightarrow> rnd \<Rightarrow> fs \<Rightarrow> 's \<Rightarrow> StateCache \<Rightarrow> path \<Rightarrow> string \<Rightarrow> string \<Rightarrow> push_report res \<times> fs \<times> 's" where
  "push_single X E rn f s st local rp dev =
     (case upload_file_with_device E rn f s st local rp dev (Some (unwrap_or [] (file_name local))) None of
        (Inl e, s', st') \<Rightarrow> (Inl e, sc_drop (cl_state X) f st', s')
      | (Inr r, s', st') \<Rightarrow>
          (case sc_flush (cl_state X) f st' of
             (Inl e, f', st'') \<Rightarrow> (Inl e, sc_drop (cl_state X) f' st'', s')
           | (Inr _, f', st'') \<Rightarrow> (Ok (PushedFile r), sc_drop (cl_state X) f' st'', s')))"

definition cmd_push ::
  "'s cli \<Rightarrow> (nat \<Rightarrow> rnd) \<Rightarrow> fs \<Rightarrow> dtree \<Rightarrow> 's \<Rightarrow> TcfsConfig \<Rightarrow> path \<Rightarrow> string option \<Rightarrow> path option \<Rightarrow>
   push_report res \<times> fs \<times> 's" where
  "cmd_push X rn f t s cfg local pfx state_override =
     (case build_operator_from_env (cl_build X) (cl_env X) cfg of
        Inl e \<Rightarrow> (Inl e, f, s)
      | Inr opr \<Rightarrow>
          (case sc_open (cl_state X) f (resolve_state_path (cl_env X) cfg state_override) of
             Inl e \<Rightarrow> (Inl e, f, s)
           | Inr st \<Rightarrow>
               (let dev = load_device_id (cl_reg X) (cl_env X) (cl_host X) f cfg;
                    rp = push_prefix local pfx;
                    E = (cl_libs X)\<lparr>l_op := opr\<rparr>
                in if fs_is_file f local then push_single X E (rn 0) f s st local rp dev
                   else if fs_is_dir f local
                   then (case push_tree_with_device E (cl_state X) (cl_glob X) rn f t s st local rp dev
                                (Some (collect_config_from_sync cfg)) None of
                           (Inl e, f', s', st') \<Rightarrow> (Inl e, sc_drop (cl_state X) f' st', s')
                         | (Inr n, f', s', st') \<Rightarrow> (Ok (PushedTree n), sc_drop (cl_state X) f' st', s'))
                   else (Err (EMissing (path_str local)), f, s))))"

subsection \<open>Pull\<close>

definition pull_prefix :: "string \<Rightarrow> string option \<Rightarrow> string" where
  "pull_prefix manifest pfx =
     (case pfx of Some x \<Rightarrow> trim_end_matches slash x | None \<Rightarrow> hd (split_on slash manifest))"

definition cmd_pull ::
  "'s cli \<Rightarrow> fs \<Rightarrow> 's \<Rightarrow> TcfsConfig \<Rightarrow> string \<Rightarrow> path option \<Rightarrow> string option \<Rightarrow> path option \<Rightarrow>
   DownloadResult res \<times> fs" where
  "cmd_pull X f s cfg manifest local pfx state_override =
     (case build_operator_from_env (cl_build X) (cl_env X) cfg of
        Inl e \<Rightarrow> (Inl e, f)
      | Inr opr \<Rightarrow>
          (let dev = load_device_id (cl_reg X) (cl_env X) (cl_host X) f cfg;
               local_path = unwrap_or (path_of (rsplit_first slash manifest)) local
           in case sc_open (cl_state X) f (resolve_state_path (cl_env X) cfg state_override) of
                Inl e \<Rightarrow> (Inl e, f)
              | Inr st \<Rightarrow>
                  (case download_file_with_device ((cl_libs X)\<lparr>l_op := opr\<rparr>) f s manifest local_path
                          (pull_prefix manifest pfx) dev (Some st) None of
                     (Inl e, f', st') \<Rightarrow> (Inl e, sc_drop (cl_state X) f' (unwrap_or st st'))
                   | (Inr r, f', st') \<Rightarrow>
                       (case sc_flush (cl_state X) f' (unwrap_or st st') of
                          (Inl e, f'', st'') \<Rightarrow> (Inl e, sc_drop (cl_state X) f'' st'')
                        | (Inr _, f'', st'') \<Rightarrow> (Ok r, sc_drop (cl_state X) f'' st'')))))"

subsection \<open>Status\<close>

record file_report =
  fr_file :: path
  fr_entry :: "(SyncState \<times> u64 \<times> SyncReason option) option"

definition cmd_sync_status ::
  "'s cli \<Rightarrow> fs \<Rightarrow> TcfsConfig \<Rightarrow> path option \<Rightarrow> path option \<Rightarrow> (nat \<times> file_report option) res" where
  "cmd_sync_status X f cfg pth state_override =
     (case sc_open (cl_state X) f (resolve_state_path (cl_env X) cfg state_override) of
        Inl e \<Rightarrow> Inl e
      | Inr st \<Rightarrow>
          (case pth of
             None \<Rightarrow> Ok (sc_len st, None)
           | Some p \<Rightarrow>
               (case fs_canonicalize f p of
                  None \<Rightarrow> Err (EIo ''canonicalize'' (path_str p))
                | Some q \<Rightarrow>
                    (case sc_get f st q of
                       None \<Rightarrow> Ok (sc_len st, Some \<lparr>fr_file = q, fr_entry = None\<rparr>)
                     | Some e \<Rightarrow>
                         (case sc_needs_sync (l_hash (cl_libs X)) f st q of
                            Inl err \<Rightarrow> Inl err
                          | Inr why \<Rightarrow>
                              Ok (sc_len st,
                                  Some \<lparr>fr_file = q,
                                        fr_entry = Some (e, (if ss_last_synced e \<le> fs_now f
                                                             then fs_now f - ss_last_synced e else 0), why)\<rparr>))))))"

subsection \<open>Unsync\<close>

definition stub_beside :: "path \<Rightarrow> string \<Rightarrow> path" where
  "stub_beside p n = path_child (unwrap_or (path_of ''.'') (path_parent p)) (real_to_stub_name n)"

definition unsync_stub :: "TcfsConfig \<Rightarrow> string \<Rightarrow> bytes \<Rightarrow> StubMeta" where
  "unsync_stub cfg h data =
     \<lparr>sm_chunks = 0, sm_compressed = False, sm_fetched = False, sm_oid = ''blake3:'' @ h,
      sm_origin = ''seaweedfs://'' @ sg_endpoint (cf_storage cfg) @ ''/'' @ h, sm_size = u64_len data\<rparr>"

text \<open>The check made without \<^verbatim>\<open>--force\<close>.\<close>

definition unsync_check :: "'s cli \<Rightarrow> fs \<Rightarrow> TcfsConfig \<Rightarrow> path \<Rightarrow> string \<Rightarrow> unit res" where
  "unsync_check X f cfg p h =
     (case sc_open (cl_state X) f (resolve_state_path (cl_env X) cfg None) of
        Inl e \<Rightarrow> Inl e
      | Inr st \<Rightarrow>
          (case sc_get f st p of
             None \<Rightarrow> Err (EMissing (path_str p))
           | Some e \<Rightarrow> if ss_blake3 e \<noteq> h then Err (EFileIntegrity (path_str p) (ss_blake3 e) h) else Ok ()))"

text \<open>The result tells whether the file was replaced; a stub is left alone.\<close>

definition cmd_unsync :: "'s cli \<Rightarrow> fs \<Rightarrow> TcfsConfig \<Rightarrow> path \<Rightarrow> bool \<Rightarrow> bool res \<times> fs" where
  "cmd_unsync X f cfg p force =
     (if \<not> fs_exists f p then (Err (EMissing (path_str p)), f)
      else if is_stub_path p then (Ok False, f)
      else (case fs_read f p of
              Inl e \<Rightarrow> (Inl e, f)
            | Inr data \<Rightarrow>
                (let h = hex_of (cl_libs X) data
                 in case (if force then Ok () else unsync_check X f cfg p h) of
                      Inl e \<Rightarrow> (Inl e, f)
                    | Inr _ \<Rightarrow>
                        (case file_name p of
                           None \<Rightarrow> (Err (EMissing ''filename''), f)
                         | Some n \<Rightarrow>
                             (case fs_write f (stub_beside p n) (stub_to_bytes (unsync_stub cfg h data)) of
                                (Inl e, f1) \<Rightarrow> (Inl e, f1)
                              | (Inr _, f1) \<Rightarrow>
                                  (case fs_remove_file f1 p of
                                     (Inl e, f2) \<Rightarrow> (Inl e, f2)
                                   | (Inr _, f2) \<Rightarrow> (Ok True, f2)))))))"

section \<open>Push and pull\<close>

lemma sc_open_path: "sc_open J f p = Inr c \<Longrightarrow> db_path c = p \<and> \<not> dirty c"
  by (auto simp: sc_open_def split: sum.splits if_splits)

lemma download_state_path:
  assumes "download_file_with_device E f s remote lp p dev (Some c) enc = (r, f', st')"
  obtains c' where "st' = Some c'" "db_path c' = db_path c"
  using assms
  by (auto simp: download_file_with_device_def record_sync_def sc_set_def Let_def
      split: sum.splits prod.splits if_splits option.splits)

lemma pull_prefix_manifest: "slash \<notin> set p \<Longrightarrow> pull_prefix (manifest_key p h) None = p"
  using split_on_append[of slash p "''manifests/'' @ h"] by (simp add: pull_prefix_def manifest_key_def)

text \<open>Once the content can be fetched, \<^verbatim>\<open>pull\<close> leaves it at the target, whatever happens to the state file.\<close>

lemma cmd_pull_writes:
  assumes "build_operator_from_env (cl_build X) (cl_env X) cfg = Inr (l_op (cl_libs X))"
    and "fetch_verified (cl_libs X) s remote (pull_prefix remote pfx) None = Inr (m, data)"
    and "writable g q" and "\<not> fault g OpStat q"
    and "resolve_state_path (cl_env X) cfg so = sp" and "sc_open (cl_state X) g sp = Inr st"
    and "q \<noteq> sp" and "q \<noteq> with_extension sp ''tmp''"
  shows "\<exists>r g'. cmd_pull X g s cfg remote (Some q) pfx so = (r, g') \<and> map_option f_data (files g' q) = Some data"
proof -
  let ?dev = "load_device_id (cl_reg X) (cl_env X) (cl_host X) g cfg"
  obtain dr g1 st1 where dl: "download_file_with_device (cl_libs X) g s remote q (pull_prefix remote pfx) ?dev (Some st) None =
      (Inr dr, g1, st1)" and c1: "map_option f_data (files g1 q) = Some data"
    using download_writes_state[OF assms(2-4), of ?dev "Some st"] by blast
  obtain c' where st1: "st1 = Some c'" and "db_path c' = db_path st"
    using download_state_path[OF dl] .
  then have q: "q \<noteq> db_path c'" "q \<noteq> with_extension (db_path c') ''tmp''"
    using sc_open_path[OF assms(6)] assms(7,8) by simp_all
  obtain r2 g2 c2 where fl: "sc_flush (cl_state X) g1 c' = (r2, g2, c2)" by (metis prod_cases3)
  have "files g2 q = files g1 q" "files (sc_drop (cl_state X) g2 c2) q = files g1 q"
    using sc_flush_frame[OF fl q] sc_drop_frame[of q c2 "cl_state X" g2] q by simp_all
  then show ?thesis
    using c1 assms(1,5,6) dl fl st1
    by (auto simp: cmd_pull_def Let_def unwrap_or_def split: sum.split)
qed

text \<open>
  C24: what \<^verbatim>\<open>tcfs push\<close> stores of a new, non-empty file \<^verbatim>\<open>tcfs pull\<close> brings back: given the manifest path
  the push prints, and no prefix, it writes the same bytes to any writable place, if the prefix
  has no slash. No key is involved on either side.
\<close>

theorem cli_push_then_pull:
  assumes "engine_laws (cl_libs X)"
    and "build_operator_from_env (cl_build X) (cl_env X) cfg = Inr (l_op (cl_libs X))"
    and "good_rnd (rn 0)" and "cas_in (cl_libs X) (push_prefix lp pfx) U s" and "inj_on (hex_of (cl_libs X)) U"
    and "upload_blobs_in (cl_libs X) (rn 0) f lp None U" and "slash \<notin> set (push_prefix lp pfx)"
    and "sc_open (cl_state X) f (resolve_state_path (cl_env X) cfg so) = Inr st" and "fs_is_file f lp"
    and "sc_needs_sync (l_hash (cl_libs X)) f st lp = Inr (Some why)" and "fs_read f lp = Inr data" and "data \<noteq> []"
    and "op_exists (l_op (cl_libs X)) s (manifest_key (push_prefix lp pfx) (hex_of (cl_libs X) data)) = Inr False"
    and "cmd_push X rn f t s cfg lp pfx so = (Inr rep, f', s')"
    and "writable g q" and "\<not> fault g OpStat q" and "resolve_state_path (cl_env X) cfg so' = sp"
    and "sc_open (cl_state X) g sp = Inr st'" and "q \<noteq> sp" and "q \<noteq> with_extension sp ''tmp''"
  shows "\<exists>r. rep = PushedFile r \<and>
           (\<exists>res g'. cmd_pull X g s' cfg (ur_remote_path r) (Some q) None so' = (res, g') \<and>
              map_option f_data (files g' q) = Some data)"
proof -
  let ?dev = "load_device_id (cl_reg X) (cl_env X) (cl_host X) f cfg" and ?p = "push_prefix lp pfx"
  obtain r c' where up: "upload_file_with_device (cl_libs X) (rn 0) f s st lp ?p ?dev
      (Some (unwrap_or [] (file_name lp))) None = (Inr r, s', c')" and rep: "rep = PushedFile r"
    using assms(2,8,9,14)
    by (auto simp: cmd_push_def push_single_def Let_def split: sum.splits prod.splits)
  obtain m where fv: "fetch_verified (cl_libs X) s' (ur_remote_path r) ?p None = Inr (m, data)"
    and rp: "ur_remote_path r = manifest_key ?p (hex_of (cl_libs X) data)"
    using upload_new_fetch[OF assms(1,3-6,10-13) up] by blast
  have "pull_prefix (ur_remote_path r) None = ?p"
    unfolding rp by (rule pull_prefix_manifest[OF assms(7)])
  then show ?thesis
    using cmd_pull_writes[OF assms(2) _ assms(15-20), of s' "ur_remote_path r" None m data] fv rep by simp
qed

text \<open>With a slash in the prefix the default of \<^verbatim>\<open>pull\<close> is the first component only, where no chunk is found.\<close>

lemma nested_prefix_not_pulled:
  assumes "slash \<notin> set a" and "\<And>h. \<not> is_ok (op_read (l_op (cl_libs X)) s (chunk_key a h))"
    and "build_operator_from_env (cl_build X) (cl_env X) cfg = Inr (l_op (cl_libs X))"
    and "cmd_pull X g s cfg (manifest_key (a @ slash # b) h) (Some q) None so = (r, g')"
  shows "\<not> is_ok r \<and> g' = g"
proof -
  have pre: "pull_prefix (manifest_key (a @ slash # b) h) None = a"
    using split_on_append[OF assms(1), of "b @ ''/manifests/'' @ h"] by (simp add: pull_prefix_def manifest_key_def)
  have "fetch_verified (cl_libs X) s (manifest_key (a @ slash # b) h) a None \<noteq> Inr (m, d)" for m d
  proof
    assume "fetch_verified (cl_libs X) s (manifest_key (a @ slash # b) h) a None = Inr (m, d)"
    then obtain key where "chunks m \<noteq> []" "fetch_chunks (cl_libs X) key s a 0 (chunks m) = Inr d"
      by (rule fetch_verified_Ok)
    then have "is_ok (op_read (l_op (cl_libs X)) s (chunk_key a (hd (chunks m))))"
      using fetch_chunks_verified[of "cl_libs X" key s a 0 "chunks m" d "hd (chunks m)"] by auto
    with assms(2) show False by blast
  qed
  then have "\<exists>e. fetch_verified (cl_libs X) s (manifest_key (a @ slash # b) h) a None = Inl e"
    by (cases "fetch_verified (cl_libs X) s (manifest_key (a @ slash # b) h) a None") auto
  then show ?thesis
    using assms(3,4) sc_open_path[of "cl_state X" g]
    by (auto simp: cmd_pull_def Let_def pre download_file_with_device_def unwrap_or_def sc_drop_def
        split: sum.splits)
qed

text \<open>
  Pushing a single file publishes nothing. Whatever the outcome, no index object changes, so the
  mounts and the file provider, which list the index, do not show the file.
\<close>

theorem cli_push_file_not_indexed:
  assumes "store_laws (l_op (cl_libs X))"
    and "build_operator_from_env (cl_build X) (cl_env X) cfg = Inr (l_op (cl_libs X))"
    and "fs_is_file f lp" and "cmd_push X rn f t s cfg lp pfx so = (r, f', s')"
  shows "op_read (l_op (cl_libs X)) s' (index_key (push_prefix lp pfx) rel) =
         op_read (l_op (cl_libs X)) s (index_key (push_prefix lp pfx) rel)"
proof -
  consider "s' = s"
    | x c c' where "upload_file_with_device (cl_libs X) (rn 0) f s c lp (push_prefix lp pfx)
        (load_device_id (cl_reg X) (cl_env X) (cl_host X) f cfg) (Some (unwrap_or [] (file_name lp))) None = (x, s', c')"
    using assms(2-4)
    by (auto simp: cmd_push_def push_single_def Let_def split: sum.splits prod.splits)
  then show ?thesis
    by cases (simp_all add: upload_frame[OF assms(1)])
qed

section \<open>Unsync\<close>

lemma stub_beside_neq:
  assumes "file_name p = Some n"
  shows "stub_beside p n \<noteq> p"
proof
  assume "stub_beside p n = p"
  then have "p_comps p = p_comps (unwrap_or (path_of ''.'') (path_parent p)) @ [n @ ''.tc'']"
    by (metis file_name_child real_to_stub_name_def stub_beside_def)
  with assms show False by (auto simp: file_name_def split: list.splits if_splits)
qed

lemma unsync_check_tracked:
  assumes "unsync_check X f cfg p h = Inr u"
  obtains st e where "sc_open (cl_state X) f (resolve_state_path (cl_env X) cfg None) = Inr st"
    "sc_get f st p = Some e" "ss_blake3 e = h"
  using assms by (auto simp: unsync_check_def split: sum.splits option.splits if_splits)

lemma unsync_stub_parses:
  assumes "hasher_laws (l_hash E)" and "plain_line (sg_endpoint (cf_storage cfg))"
  shows "stub_parse (to_stub_string (unsync_stub cfg (hex_of E d) data)) = Inr (unsync_stub cfg (hex_of E d) data)"
proof -
  have "plain_line (hex_of E d)" using hex_plain[OF hex_of_digits[OF assms(1)]] .
  then show ?thesis
    using assms(2) by (intro stub_round_trip) (simp_all add: unsync_stub_def, simp_all add: plain_line_def)
qed

text \<open>
  C29: \<^verbatim>\<open>unsync\<close> gives up the content of a file only when it can be named again. It touches no file but
  the given one and its stub; unless it reports that the file was replaced, the file is as before;
  and when it was, without \<^verbatim>\<open>--force\<close> the state cache holds the hash of exactly this content, and the
  stub left behind parses and carries that hash and the size.
\<close>

theorem unsync_keeps_track:
  assumes "cmd_unsync X f cfg p force = (r, f')" and "file_name p = Some n"
    and "hasher_laws (l_hash (cl_libs X))" and "plain_line (sg_endpoint (cf_storage cfg))"
  shows "(\<forall>q. q \<noteq> p \<and> q \<noteq> stub_beside p n \<longrightarrow> files f' q = files f q) \<and>
         (r \<noteq> Inr True \<longrightarrow> files f' p = files f p) \<and>
         (r = Inr True \<longrightarrow> (\<exists>data m. fs_read f p = Inr data \<and> files f' p = None \<and>
            map_option f_data (files f' (stub_beside p n)) = Some (stub_to_bytes m) \<and>
            stub_parse (to_stub_string m) = Inr m \<and> blake3_hex m = Some (hex_of (cl_libs X) data) \<and>
            sm_size m = u64_len data \<and>
            (force \<or> (\<exists>st e. sc_open (cl_state X) f (resolve_state_path (cl_env X) cfg None) = Inr st \<and>
                       sc_get f st p = Some e \<and> ss_blake3 e = hex_of (cl_libs X) data))))"
proof -
  note neq = stub_beside_neq[OF assms(2)]
  consider (same) "f' = f" "r \<noteq> Inr True"
    | (stub) data x where "fs_read f p = Inr data" "r \<noteq> Inr True"
        "fs_write f (stub_beside p n) (stub_to_bytes (unsync_stub cfg (hex_of (cl_libs X) data) data)) = (x, f')"
    | (replaced) data f1 where "fs_read f p = Inr data" "r = Inr True"
        "force \<or> is_ok (unsync_check X f cfg p (hex_of (cl_libs X) data))"
        "fs_write f (stub_beside p n) (stub_to_bytes (unsync_stub cfg (hex_of (cl_libs X) data) data)) = (Inr (), f1)"
        "fs_remove_file f1 p = (Inr (), f')"
    using assms(1,2)
    by (auto simp: cmd_unsync_def fs_remove_file_def Let_def split: if_splits sum.splits prod.splits)
  then show ?thesis
  proof cases
    case (stub data x)
    then show ?thesis using fs_write_frame[OF stub(3)] neq by metis
  next
    case (replaced data f1)
    let ?m = "unsync_stub cfg (hex_of (cl_libs X) data) data"
    have f': "files f' = (files f1)(p := None)"
      using replaced(5) by (auto simp: fs_remove_file_def split: if_splits)
    have "map_option f_data (files f' (stub_beside p n)) = Some (stub_to_bytes ?m)"
      using fs_write_content[OF replaced(4)] neq by (simp add: f')
    moreover have "blake3_hex ?m = Some (hex_of (cl_libs X) data)" "sm_size ?m = u64_len data"
      by (simp_all add: blake3_hex_def unsync_stub_def)
    moreover have "force \<or> (\<exists>st e. sc_open (cl_state X) f (resolve_state_path (cl_env X) cfg None) = Inr st \<and>
        sc_get f st p = Some e \<and> ss_blake3 e = hex_of (cl_libs X) data)"
      using replaced(3) by (auto simp: is_ok_def split: sum.splits elim!: unsync_check_tracked)
    moreover have "q \<noteq> p \<and> q \<noteq> stub_beside p n \<longrightarrow> files f' q = files f q" for q
      using fs_write_frame[OF replaced(4)] by (simp add: f')
    ultimately show ?thesis
      using replaced(1,2) f' unsync_stub_parses[OF assms(3,4)] by auto
  qed simp
qed

section \<open>Concrete runs\<close>

text \<open>\<^verbatim>\<open>/a\<close> is pushed under the prefix \<^verbatim>\<open>p\<close> without a device identity; the state file is new.\<close>

definition cli_manifest :: SyncManifest where
  "cli_manifest = \<lparr>version = 2, file_hash = demo_hex [1, 2], file_size = 2, chunks = [demo_hex [1, 2]],
     m_vclock = vc_new, written_by = [], written_at = 9, rel_path = Some ''a'', encrypted_file_key = None\<rparr>"

definition loose_codec :: "entry_map \<Rightarrow> state_codec" where
  "loose_codec m = \<lparr>map_to_json = (\<lambda>_. Some ''{}''), map_from_json = (\<lambda>_. Some m),
     entry_to_json = (\<lambda>_. None), entry_from_json = (\<lambda>_. None)\<rparr>"

definition demo_cli :: "entry_map \<Rightarrow> (string \<Rightarrow> bytes option) cli" where
  "demo_cli m = \<lparr>cl_libs = demo_libs cli_manifest, cl_state = loose_codec m, cl_reg = one_reg_codec reg_default,
     cl_glob = (\<lambda>_. None), cl_build = (\<lambda>_. Some mem_operator), cl_env = (\<lambda>_. Some ''/k''), cl_host = None\<rparr>"

lemma demo_cli_simps [simp]:
  "cl_libs (demo_cli m) = demo_libs cli_manifest" "cl_state (demo_cli m) = loose_codec m"
  "cl_build (demo_cli m) = (\<lambda>_. Some mem_operator)" "cl_env (demo_cli m) = (\<lambda>_. Some ''/k'')"
  by (simp_all add: demo_cli_def)

lemma demo_cli_operator: "build_operator_from_env (\<lambda>_. Some mem_operator) (\<lambda>_. Some ''/k'') default_config = Inr mem_operator"
  by (simp add: build_operator_from_env_def env_or_def or_else_def build_from_core_config_def build_operator_def
      default_config_def default_storage_def)

definition demo_state :: StateCache where
  "demo_state = \<lparr>db_path = path_of ''/state.json'', entries = (\<lambda>_. None), dirty = False, last_nats_seq = 0,
     sc_device_id = []\<rparr>"

lemma demo_state_open: "sc_open (loose_codec m) one_file (path_of ''/state.json'') = Inr demo_state"
proof -
  have "\<not> fs_exists one_file (path_of ''/state.json'')" by code_simp
  then show ?thesis by (simp add: sc_open_def demo_state_def)
qed

lemma demo_device_id: "load_device_id (cl_reg (demo_cli m)) (\<lambda>_. Some ''/k'') (cl_host (demo_cli m)) one_file default_config = []"
proof -
  have "\<not> fs_exists one_file (default_registry_path (\<lambda>_. Some ''/k''))" by code_simp
  then show ?thesis
    by (simp add: load_device_id_def default_config_def default_sync_def unwrap_or_def reg_load_def reg_default_def reg_find_def)
qed

lemma plain_chunk_hash: "hash_to_hex toy_hasher (ch_hash demo_chunk) = demo_hex [1, 2]"
  by (simp add: demo_chunk_def demo_hex_def hash_to_hex_def)

lemma demo_plain_write:
  "\<exists>r s' c'. upload_file_with_device (demo_libs cli_manifest) demo_rnd one_file empty_store demo_state (path_of ''/a'')
     ''p'' [] (Some ''a'') None = (Inr r, s', c') \<and> db_path c' = path_of ''/state.json''"
proof -
  have ns: "sc_needs_sync toy_hasher one_file demo_state (path_of ''/a'') = Inr (Some NewFile)" by code_simp
  have g: "sc_get one_file demo_state (path_of ''/a'') = None" by (simp add: sc_get_def demo_state_def)
  have "fs_metadata one_file (path_of ''/a'') = Inr (2, Some 5)" by code_simp
  then have rec: "\<exists>c'. record_sync one_file demo_state (path_of ''/a'') h n rem v d = (Inr (), c') \<and>
      db_path c' = path_of ''/state.json''" for h n rem v d
    by (simp add: record_sync_def make_sync_state_full_def sc_set_def demo_state_def)
  have m: "\<lparr>version = 2, file_hash = demo_hex [1, 2], file_size = u64_len [1, 2 :: u8],
      chunks = [demo_hex [1, 2]], m_vclock = vc_new, written_by = [], written_at = fs_now one_file,
      rel_path = Some ''a'', encrypted_file_key = None\<rparr> = cli_manifest"
    by (simp add: cli_manifest_def u64_len_def one_file_def)
  have b: "to_bytes (one_manifest_codec cli_manifest) cli_manifest = Inr (bytes_of_str ''{m}'')"
    by (simp add: to_bytes_def one_manifest_codec_def)
  have s: "slice [1, 2] (ch_offset demo_chunk) (ch_length demo_chunk) = Inr [1, 2 :: u8]"
    by (simp add: demo_chunk_def)
  obtain c' where c': "record_sync one_file demo_state (path_of ''/a'') (demo_hex [1, 2]) 1
      (manifest_key ''p'' (demo_hex [1, 2])) vc_new [] = (Inr (), c')" and d: "db_path c' = path_of ''/state.json''" using rec by blast
  show ?thesis
    by (simp add: upload_file_with_device_def ns demo_chunk_file g Let_def remote_check_def exists_or_false_def
        mem_operator_def upload_write_def upload_key_def upload_blob_def s plain_chunk_hash put_chunk_def
        wrapped_key_def m b c'[simplified] d)
qed

lemma demo_state_flush:
  assumes "db_path c = path_of ''/state.json''"
  shows "\<exists>f' c'. sc_flush (loose_codec m) one_file c = (Inr (), f', c')"
proof -
  have e: "fst (fs_ensure_parent one_file (path_of ''/state.json'')) = Inr ()" by code_simp
  have r: "fst (fs_replace (snd (fs_ensure_parent one_file (path_of ''/state.json'')))
      (with_extension (path_of ''/state.json'') ''tmp'') (path_of ''/state.json'') (bytes_of_str ''{}'')) = Inr ()"
    by code_simp
  obtain f1 where f1: "fs_ensure_parent one_file (path_of ''/state.json'') = (Inr (), f1)"
    using e by (cases "fs_ensure_parent one_file (path_of ''/state.json'')") simp
  with r obtain f2 where "fs_replace f1 (with_extension (path_of ''/state.json'') ''tmp'') (path_of ''/state.json'')
      (bytes_of_str ''{}'') = (Inr (), f2)"
    by (cases "fs_replace f1 (with_extension (path_of ''/state.json'') ''tmp'') (path_of ''/state.json'') (bytes_of_str ''{}'')") simp
  with f1 assms show ?thesis by (simp add: sc_flush_def loose_codec_def)
qed

definition demo_push :: "push_report res \<times> fs \<times> (string \<Rightarrow> bytes option)" where
  "demo_push = cmd_push (demo_cli (\<lambda>_. None)) (\<lambda>_. demo_rnd) one_file RegFile empty_store default_config (path_of ''/a'')
     (Some ''p'') (Some (path_of ''/state.json''))"

lemma demo_push_prefix: "push_prefix l (Some ''p'') = ''p''"
  by (simp add: push_prefix_def trim_end_matches_def)

lemma demo_file: "fs_is_file one_file (path_of ''/a'')" "file_name (path_of ''/a'') = Some ''a''"
  by code_simp+

lemma demo_push_ok: "\<exists>rep f' s'. demo_push = (Inr rep, f', s')"
proof -
  obtain r s' c' where up: "upload_file_with_device (demo_libs cli_manifest) demo_rnd one_file empty_store demo_state
      (path_of ''/a'') ''p'' [] (Some ''a'') None = (Inr r, s', c')" and d: "db_path c' = path_of ''/state.json''"
    using demo_plain_write by blast
  obtain f' c'' where fl: "sc_flush (loose_codec (\<lambda>_. None)) one_file c' = (Inr (), f', c'')"
    using demo_state_flush[OF d] by blast
  have op: "(demo_libs cli_manifest)\<lparr>l_op := mem_operator\<rparr> = demo_libs cli_manifest"
    by (simp add: demo_libs_def)
  show ?thesis
    using up fl
    by (simp add: demo_push_def cmd_push_def demo_cli_operator resolve_state_path_def demo_state_open demo_device_id
        demo_push_prefix demo_file push_single_def unwrap_or_def op)
qed

theorem cli_push_then_pull_witness:
  "\<exists>r f' s' res g'. demo_push = (Inr (PushedFile r), f', s') \<and>
     cmd_pull (demo_cli (\<lambda>_. None)) one_file s' default_config (ur_remote_path r) (Some (path_of ''/b'')) None
       (Some (path_of ''/state.json'')) = (res, g') \<and>
     map_option f_data (files g' (path_of ''/b'')) = Some [1, 2]"
proof -
  let ?X = "demo_cli (\<lambda>_. None)"
  obtain rep f' s' where run: "demo_push = (Inr rep, f', s')" using demo_push_ok by blast
  have blobs: "upload_blobs_in (demo_libs cli_manifest) demo_rnd one_file (path_of ''/a'') None {[1, 2]}"
    by (auto simp: upload_blobs_in_def demo_chunk_file upload_key_def blobs_in_def upload_blob_def demo_chunk_def)
  have ns: "sc_needs_sync toy_hasher one_file demo_state (path_of ''/a'') = Inr (Some NewFile)"
    and neq: "path_of ''/b'' \<noteq> path_of ''/state.json''" "path_of ''/b'' \<noteq> with_extension (path_of ''/state.json'') ''tmp''"
    by code_simp+
  have rsp: "resolve_state_path env cfg (Some p) = p" for env cfg p by (simp add: resolve_state_path_def)
  have "\<exists>r. rep = PushedFile r \<and>
      (\<exists>res g'. cmd_pull ?X one_file s' default_config (ur_remote_path r) (Some (path_of ''/b'')) None
         (Some (path_of ''/state.json'')) = (res, g') \<and> map_option f_data (files g' (path_of ''/b'')) = Some [1, 2])"
    by (rule cli_push_then_pull[where X = ?X and U = "{[1, 2]}" and lp = "path_of ''/a''" and pfx = "Some ''p''"
          and st = demo_state and rn = "\<lambda>_. demo_rnd" and why = NewFile and st' = demo_state, OF _ _ _ _ _ _ _ _ _ _ _ _ _ run[unfolded demo_push_def] demo_writable _ _ _ neq])
      (use demo_laws[of cli_manifest] demo_rnd_good blobs ns demo_read demo_state_open demo_file demo_cli_operator
        empty_store_ok(1)[of cli_manifest "''p''" "{[1, 2]}"] in
        \<open>simp_all add: demo_push_prefix rsp mem_operator_def one_file_def\<close>)
  with run show ?thesis by blast
qed

theorem cli_push_file_not_indexed_witness:
  "op_read mem_operator (snd (snd demo_push)) ''p/index/a'' = op_read mem_operator empty_store ''p/index/a''"
proof -
  obtain r f' s' where run: "demo_push = (r, f', s')" by (metis prod_cases3)
  from cli_push_file_not_indexed[OF _ _ demo_file(1) run[unfolded demo_push_def], of "''a''"]
  show ?thesis unfolding run by (simp add: mem_operator_laws demo_cli_operator demo_push_prefix index_key_def)
qed

text \<open>\<^verbatim>\<open>/a\<close> is tracked with its present hash and given up for a stub.\<close>

definition tracked_fs :: fs where
  "tracked_fs = one_file\<lparr>files := (files one_file)(path_of ''/s.json'' \<mapsto> \<lparr>f_data = [], f_mtime = None\<rparr>)\<rparr>"

definition tracked_entries :: entry_map where
  "tracked_entries = (\<lambda>_. None)(''/a'' := Some (sample_state\<lparr>ss_blake3 := demo_hex [1, 2]\<rparr>))"

definition tracked_config :: TcfsConfig where
  "tracked_config = default_config\<lparr>cf_sync := default_sync\<lparr>sy_state_db := path_of ''/s.db''\<rparr>\<rparr>"

lemma tracked_check: "unsync_check (demo_cli tracked_entries) tracked_fs tracked_config (path_of ''/a'') (demo_hex [1, 2]) = Inr ()"
proof -
  have sp: "resolve_state_path (\<lambda>_. Some ''/k'') tracked_config None = path_of ''/s.json''"
    and ex: "fs_exists tracked_fs (path_of ''/s.json'')" and rd: "fs_read tracked_fs (path_of ''/s.json'') = Inr []"
    and k: "path_key tracked_fs (path_of ''/a'') = ''/a''"
    by code_simp+
  have "from_utf8 [] = Some []" by (simp add: from_utf8_def str_of_bytes_def)
  then show ?thesis
    by (simp add: unsync_check_def sp sc_open_def ex read_to_string_def rd loose_codec_def sc_get_def k tracked_entries_def)
qed

theorem unsync_keeps_track_witness:
  "\<exists>f' m. cmd_unsync (demo_cli tracked_entries) tracked_fs tracked_config (path_of ''/a'') False = (Inr True, f') \<and>
     files f' (path_of ''/a'') = None \<and>
     map_option f_data (files f' (stub_beside (path_of ''/a'') ''a'')) = Some (stub_to_bytes m) \<and>
     stub_parse (to_stub_string m) = Inr m \<and> blake3_hex m = Some (demo_hex [1, 2]) \<and> sm_size m = 2"
proof -
  let ?X = "demo_cli tracked_entries"
  let ?stub = "stub_to_bytes (unsync_stub tracked_config (demo_hex [1, 2]) [1, 2])"
  have ev: "fs_exists tracked_fs (path_of ''/a'')" "\<not> is_stub_path (path_of ''/a'')"
    "fs_read tracked_fs (path_of ''/a'') = Inr [1, 2]"
    by code_simp+
  have w: "fst (fs_write tracked_fs (stub_beside (path_of ''/a'') ''a'') d) = Inr ()" for d
  proof -
    have "\<not> dirs tracked_fs (stub_beside (path_of ''/a'') ''a'')"
      "path_parent (stub_beside (path_of ''/a'') ''a'') = Some (path_of ''/'')" "dirs tracked_fs (path_of ''/'')"
      by code_simp+
    then show ?thesis by (simp add: fs_write_def) (simp add: tracked_fs_def one_file_def)
  qed
  obtain f1 where f1: "fs_write tracked_fs (stub_beside (path_of ''/a'') ''a'') ?stub = (Inr (), f1)"
    using w[of ?stub] by (cases "fs_write tracked_fs (stub_beside (path_of ''/a'') ''a'') ?stub") simp
  have keep: "files f1 (path_of ''/a'') \<noteq> None"
    using fs_write_frame[OF f1, of "path_of ''/a''"] stub_beside_neq[OF demo_file(2)]
    by (simp add: tracked_fs_def one_file_def)
  have "fault f1 = fault tracked_fs" using fs_write_env[OF f1] by simp
  with keep obtain f2 where f2: "fs_remove_file f1 (path_of ''/a'') = (Inr (), f2)"
    by (simp add: fs_remove_file_def tracked_fs_def one_file_def)
  have run: "cmd_unsync ?X tracked_fs tracked_config (path_of ''/a'') False = (Inr True, f2)"
    by (simp add: cmd_unsync_def ev tracked_check demo_file f1 f2 Let_def)
  have pl: "plain_line (sg_endpoint (cf_storage tracked_config))"
    by (simp add: tracked_config_def default_config_def default_storage_def plain_line_def)
  show ?thesis
    using unsync_keeps_track[OF run demo_file(2) _ pl] run ev(3) toy_hasher_laws
    by (auto simp: u64_len_def)
qed

end
