(* ===== verification/Worker_Pool.thy ===== *)
theory Worker_Pool
  imports Nats_Client Cli_Sync "HOL-Library.Multiset"
begin

text \<open>
  The worker mode of the daemon (\<^verbatim>\<open>crates/tcfsd/src/worker.rs\<close>, \<^verbatim>\<open>run\<close>): start-up, and the pool that
  takes tasks from the stream, runs each in a task of its own under a semaphore, and drains on
  shutdown. The pool is a step relation. Tasks run concurrently with the receiving loop and with
  each other, so the result of a task is any value: what is proved holds for every interleaving
  of the work itself.
\<close>

section \<open>Model: start-up\<close>

text \<open>\<^verbatim>\<open>Semaphore::new\<close> panics above its documented maximum.\<close>

definition MAX_PERMITS :: usize where "MAX_PERMITS = drop_bit 3 (- 1)"

definition worker_concurrency :: "environment \<Rightarrow> usize option \<Rightarrow> usize" where
  "worker_concurrency env cpus =
     (case Option.bind (env ''TCFS_WORKER_CONCURRENCY'') parse_u64 of
        Some n \<Rightarrow> n
      | None \<Rightarrow> unwrap_or 4 cpus)"

definition worker_start ::
  "'s op_builder \<Rightarrow> state_codec \<Rightarrow> jetstream \<Rightarrow> environment \<Rightarrow> usize option \<Rightarrow> fs \<Rightarrow> TcfsConfig \<Rightarrow>
   ('s operator \<times> StateCache \<times> usize) res" where
  "worker_start mk J N env cpus f cfg =
     (case build_operator_from_env mk env cfg of
        Inl e \<Rightarrow> Inl e
      | Inr opr \<Rightarrow>
          (case sc_open J f (with_extension (sy_state_db (cf_sync cfg)) ''json'') of
             Inl e \<Rightarrow> Inl e
           | Inr st \<Rightarrow>
               (case nats_connect N (sy_nats_url (cf_sync cfg)) of
                  Inl e \<Rightarrow> Inl e
                | Inr _ \<Rightarrow>
                    (case ensure_streams N of
                       Inl e \<Rightarrow> Inl e
                     | Inr _ \<Rightarrow>
                         (let n = worker_concurrency env cpus
                          in if n > MAX_PERMITS then Err (EPanic ''semaphore permits'') else Ok (opr, st, n))))))"

section \<open>Model: the pool\<close>

text \<open>
  Where the receiving loop is: waiting for a message or the shutdown signal, waiting for a permit
  for a task, waiting for the running tasks, or done.
\<close>

datatype pool_pc = Receiving | Acquiring SyncTask | Draining | Finished

record pool =
  po_pc :: pool_pc
  po_permits :: nat
  po_running :: "SyncTask list"
  po_shutdown :: bool
  po_received :: "SyncTask list"
  po_settled :: "(SyncTask \<times> disposition) list"
  po_metrics :: WorkerMetrics

definition pool_init :: "usize \<Rightarrow> pool" where
  "pool_init n = \<lparr>po_pc = Receiving, po_permits = unat n, po_running = [], po_shutdown = False, po_received = [],
     po_settled = [], po_metrics = \<lparr>tasks_processed = (\<lambda>_. 0), tasks_failed = (\<lambda>_. 0)\<rparr>\<rparr>"

text \<open>
  The shutdown branch of the \<^verbatim>\<open>select!\<close> comes first (\<^verbatim>\<open>biased\<close>); it is not polled while the loop
  waits for a permit. The drain takes \<^verbatim>\<open>concurrency as u32\<close> permits at once. A task that panics
  unwinds out of the spawned future: its permit is released, but the message is neither acknowledged
  nor handed back and no counter moves (\<open>Dropped\<close>).
\<close>

inductive pool_step :: "usize \<Rightarrow> pool \<Rightarrow> pool \<Rightarrow> bool" for n where
  signal: "pool_step n p (p\<lparr>po_shutdown := True\<rparr>)"
| unreadable: "po_pc p = Receiving \<Longrightarrow> \<not> po_shutdown p \<Longrightarrow> pool_step n p p"
| receive: "po_pc p = Receiving \<Longrightarrow> \<not> po_shutdown p \<Longrightarrow>
    pool_step n p (p\<lparr>po_pc := Acquiring t, po_received := po_received p @ [t]\<rparr>)"
| spawn: "po_pc p = Acquiring t \<Longrightarrow> 0 < po_permits p \<Longrightarrow>
    pool_step n p (p\<lparr>po_pc := Receiving, po_permits := po_permits p - 1, po_running := po_running p @ [t]\<rparr>)"
| complete: "po_running p = xs @ t # ys \<Longrightarrow> settle_task (po_metrics p) t r = (d, ms) \<Longrightarrow>
    pool_step n p (p\<lparr>po_running := xs @ ys, po_permits := po_permits p + 1,
                     po_settled := po_settled p @ [(t, d)], po_metrics := ms\<rparr>)"
| stop: "po_pc p = Receiving \<Longrightarrow> po_shutdown p \<Longrightarrow> pool_step n p (p\<lparr>po_pc := Draining\<rparr>)"
| drained: "po_pc p = Draining \<Longrightarrow> unat (ucast n :: u32) \<le> po_permits p \<Longrightarrow>
    pool_step n p (p\<lparr>po_pc := Finished\<rparr>)"

inductive_cases pool_stepE: "pool_step n p p'"

abbreviation pool_reach :: "usize \<Rightarrow> pool \<Rightarrow> bool" where
  "pool_reach n p \<equiv> (pool_step n)\<^sup>*\<^sup>* (pool_init n) p"

section \<open>What the pool guarantees\<close>

definition waiting :: "pool \<Rightarrow> SyncTask list" where
  "waiting p = (case po_pc p of Acquiring t \<Rightarrow> [t] | _ \<Rightarrow> [])"

definition counted :: "pool \<Rightarrow> disposition \<Rightarrow> string \<Rightarrow> nat" where
  "counted p d ty = length (filter (\<lambda>(t, x). type_name t = ty \<and> x = d) (po_settled p))"

definition pool_inv :: "usize \<Rightarrow> pool \<Rightarrow> bool" where
  "pool_inv n p \<longleftrightarrow>
     po_permits p + length (po_running p) = unat n \<and>
     mset (po_received p) = mset (map fst (po_settled p)) + mset (po_running p) + mset (waiting p) \<and>
     tasks_processed (po_metrics p) = (\<lambda>ty. of_nat (counted p Acked ty)) \<and>
     tasks_failed (po_metrics p) = (\<lambda>ty. of_nat (counted p Naked ty)) \<and>
     (po_pc p = Finished \<longrightarrow> unat (ucast n :: u32) \<le> po_permits p)"

lemma counted_settle:
  assumes "settle_task (po_metrics p) t r = (d, ms)"
    and "tasks_processed (po_metrics p) = (\<lambda>ty. of_nat (counted p Acked ty))"
    and "tasks_failed (po_metrics p) = (\<lambda>ty. of_nat (counted p Naked ty))"
    and "po_settled q = po_settled p @ [(t, d)]"
  shows "tasks_processed ms = (\<lambda>ty. of_nat (counted q Acked ty))"
    and "tasks_failed ms = (\<lambda>ty. of_nat (counted q Naked ty))"
  using assms by (auto simp: settle_task_def counted_def fun_eq_iff split: sum.splits if_splits)

lemma pool_inv_init: "pool_inv n (pool_init n)"
  by (simp add: pool_inv_def pool_init_def waiting_def counted_def fun_eq_iff)

lemma pool_inv_step:
  assumes "pool_inv n p" and "pool_step n p p'"
  shows "pool_inv n p'"
  using assms(2)
proof cases
  case (complete xs t ys r d ms)
  with assms(1) show ?thesis
    using counted_settle[OF complete(3), of p'] by (auto simp: pool_inv_def waiting_def)
qed (use assms(1) in \<open>auto simp: pool_inv_def waiting_def counted_def\<close>)

lemma pool_inv_reach: "pool_reach n p \<Longrightarrow> pool_inv n p"
  by (induction rule: rtranclp_induct) (auto intro: pool_inv_init pool_inv_step)

lemma drain_count: "n < 2 ^ 32 \<Longrightarrow> unat (ucast (n :: usize) :: u32) = unat n"
  by (simp add: unsigned_ucast_eq take_bit_nat_eq_self word_less_nat_alt)

text \<open>
  C31: the worker pool loses and duplicates no task. At every moment no more tasks run than there
  are permits, and each task received is waiting for a permit, running, or settled, once: it was
  acknowledged, handed back, or ended in a panic. The 64-bit counters agree with how the tasks were
  settled. A worker with fewer than 2 to the 32 permits that has finished has settled exactly the tasks
  it received, and none is running.
\<close>

theorem worker_pool_settles:
  assumes "(pool_step n)\<^sup>*\<^sup>* (pool_init n) p"
  shows "length (po_running p) \<le> unat n \<and>
         mset (po_received p) = mset (map fst (po_settled p)) + mset (po_running p) + mset (waiting p) \<and>
         (\<forall>ty. tasks_processed (po_metrics p) ty = of_nat (counted p Acked ty) \<and>
               tasks_failed (po_metrics p) ty = of_nat (counted p Naked ty)) \<and>
         (po_pc p = Finished \<and> n < 2 ^ 32 \<longrightarrow>
            po_running p = [] \<and> mset (map fst (po_settled p)) = mset (po_received p))"
proof -
  note inv = pool_inv_reach[OF assms, unfolded pool_inv_def]
  have "po_running p = []" if "po_pc p = Finished" "n < 2 ^ 32"
    using inv that drain_count[OF that(2)] by (cases "po_running p") auto
  with inv show ?thesis by (auto simp: waiting_def)
qed

lemma pool_complete_all:
  "\<exists>p'. (pool_step n)\<^sup>*\<^sup>* p p' \<and> po_running p' = [] \<and> po_pc p' = po_pc p \<and> po_shutdown p' = po_shutdown p"
proof (induction "length (po_running p)" arbitrary: p)
  case (Suc k)
  then obtain t ts where run: "po_running p = [] @ t # ts" by (cases "po_running p") auto
  obtain d ms where st: "settle_task (po_metrics p) t (Inr ()) = (d, ms)" by fastforce
  let ?q = "p\<lparr>po_running := [] @ ts, po_permits := po_permits p + 1, po_settled := po_settled p @ [(t, d)], po_metrics := ms\<rparr>"
  have "k = length (po_running ?q)" using Suc.hyps(2) run by simp
  from Suc.hyps(1)[OF this] obtain p' where "(pool_step n)\<^sup>*\<^sup>* ?q p'" "po_running p' = []"
    "po_pc p' = po_pc p" "po_shutdown p' = po_shutdown p" by auto
  moreover have "pool_step n p ?q" by (rule pool_step.complete[OF run st])
  ultimately show ?case by (blast intro: converse_rtranclp_into_rtranclp)
qed auto

lemma pool_drain:
  assumes "pool_inv n p" and "po_pc p = Draining"
  shows "\<exists>p'. (pool_step n)\<^sup>*\<^sup>* p p' \<and> po_pc p' = Finished"
proof -
  obtain p1 where p1: "(pool_step n)\<^sup>*\<^sup>* p p1" "po_running p1 = []" "po_pc p1 = Draining"
    using pool_complete_all[of n p] assms(2) by auto
  have "pool_inv n p1" using p1(1) assms(1) by (induction rule: rtranclp_induct) (auto intro: pool_inv_step)
  then have "unat (ucast n :: u32) \<le> po_permits p1"
    using p1(2) by (simp add: pool_inv_def unsigned_ucast_eq take_bit_eq_mod)
  from pool_step.drained[OF p1(3) this] p1(1) show ?thesis
    by (intro exI[of _ "p1\<lparr>po_pc := Finished\<rparr>"]) auto
qed

lemma pool_inv_steps: "(pool_step n)\<^sup>*\<^sup>* p p' \<Longrightarrow> pool_inv n p \<Longrightarrow> pool_inv n p'"
  by (induction rule: rtranclp_induct) (auto intro: pool_inv_step)

lemma pool_stop:
  assumes "pool_inv n p" and "po_pc p = Receiving"
  shows "\<exists>p'. (pool_step n)\<^sup>*\<^sup>* p p' \<and> po_pc p' = Finished"
proof -
  let ?p1 = "p\<lparr>po_shutdown := True\<rparr>" and ?p2 = "p\<lparr>po_shutdown := True, po_pc := Draining\<rparr>"
  have "pool_step n p ?p1" by (rule pool_step.signal)
  moreover have "pool_step n ?p1 ?p2" using pool_step.stop[of ?p1 n] assms(2) by simp
  ultimately have "(pool_step n)\<^sup>*\<^sup>* p ?p2" by simp
  with pool_drain[OF pool_inv_steps[OF this assms(1)]] show ?thesis
    by (auto intro: rtranclp_trans)
qed

lemma acquiring_stuck:
  assumes "(pool_step 0)\<^sup>*\<^sup>* p p'" and "pool_inv 0 p" and "po_pc p = Acquiring t"
  shows "po_pc p' = Acquiring t"
  using assms(1)
proof (induction rule: rtranclp_induct)
  case (step q q')
  have "pool_inv 0 q" using pool_inv_steps[OF step.hyps(1) assms(2)] .
  then have "po_permits q = 0" by (simp add: pool_inv_def)
  with step.hyps(2) step.IH show ?case by (auto elim!: pool_stepE)
qed (rule assms(3))

text \<open>
  C32: a worker can always be shut down in order, whatever it is doing, exactly when it has at least
  one permit. With \<^verbatim>\<open>TCFS_WORKER_CONCURRENCY=0\<close> the first task leaves it waiting for a permit that
  never comes, deaf to the shutdown signal.
\<close>

theorem worker_shutdown_iff:
  "(\<forall>p. (pool_step n)\<^sup>*\<^sup>* (pool_init n) p \<longrightarrow> (\<exists>p'. (pool_step n)\<^sup>*\<^sup>* p p' \<and> po_pc p' = Finished)) \<longleftrightarrow> n \<noteq> 0"
proof
  assume live: "\<forall>p. pool_reach n p \<longrightarrow> (\<exists>p'. (pool_step n)\<^sup>*\<^sup>* p p' \<and> po_pc p' = Finished)"
  let ?t = "Unsync [] []" and ?i = "pool_init n"
  let ?p = "?i\<lparr>po_pc := Acquiring ?t, po_received := po_received ?i @ [?t]\<rparr>"
  have "pool_step n ?i ?p" by (rule pool_step.receive) (simp_all add: pool_init_def)
  then have "pool_reach n ?p" by blast
  with live obtain p' where "(pool_step n)\<^sup>*\<^sup>* ?p p'" "po_pc p' = Finished" by blast
  with acquiring_stuck[of ?p p' ?t] pool_inv_reach[OF \<open>pool_reach n ?p\<close>] show "n \<noteq> 0" by fastforce
next
  assume n: "n \<noteq> 0"
  show "\<forall>p. pool_reach n p \<longrightarrow> (\<exists>p'. (pool_step n)\<^sup>*\<^sup>* p p' \<and> po_pc p' = Finished)"
  proof (intro allI impI)
    fix p assume "pool_reach n p"
    then have inv: "pool_inv n p" by (rule pool_inv_reach)
    show "\<exists>p'. (pool_step n)\<^sup>*\<^sup>* p p' \<and> po_pc p' = Finished"
    proof (cases "po_pc p")
      case (Acquiring t)
      then obtain p1 where p1: "(pool_step n)\<^sup>*\<^sup>* p p1" "po_running p1 = []" "po_pc p1 = Acquiring t"
        using pool_complete_all[of n p] by auto
      have "0 < po_permits p1"
        using pool_inv_steps[OF p1(1) inv] p1(2) n unat_eq_0[of n] by (simp add: pool_inv_def)
      from rtranclp.rtrancl_into_rtrancl[OF p1(1) pool_step.spawn[OF p1(3) this]]
      obtain p2 where p2: "(pool_step n)\<^sup>*\<^sup>* p p2" "po_pc p2 = Receiving" by fastforce
      from pool_stop[OF pool_inv_steps[OF p2(1) inv] p2(2)] p2(1) show ?thesis
        by (auto intro: rtranclp_trans)
    qed (use pool_stop[OF inv] pool_drain[OF inv] in auto)
  qed
qed

text \<open>
  The bound on the number of permits is needed: the drain count is truncated to 32 bits, so a
  worker with 2 to the 32 permits finishes without waiting for a running task.
\<close>

lemma wide_pool_not_drained:
  "\<exists>p. (pool_step (2 ^ 32))\<^sup>*\<^sup>* (pool_init (2 ^ 32)) p \<and> po_pc p = Finished \<and> po_running p \<noteq> []"
proof -
  let ?n = "2 ^ 32 :: usize" and ?t = "Unsync [] []"
  let ?p1 = "(pool_init ?n)\<lparr>po_pc := Acquiring ?t, po_received := [?t]\<rparr>"
  let ?p2 = "?p1\<lparr>po_pc := Receiving, po_permits := po_permits ?p1 - 1, po_running := [?t]\<rparr>"
  let ?p3 = "?p2\<lparr>po_shutdown := True\<rparr>"
  let ?p4 = "?p3\<lparr>po_pc := Draining\<rparr>"
  let ?p5 = "?p4\<lparr>po_pc := Finished\<rparr>"
  have "pool_step ?n (pool_init ?n) ?p1"
    using pool_step.receive[of "pool_init ?n" ?n ?t] by (simp add: pool_init_def)
  moreover have "pool_step ?n ?p1 ?p2"
    using pool_step.spawn[of ?p1 ?t ?n] by (simp add: pool_init_def)
  moreover have "pool_step ?n ?p2 ?p3" by (rule pool_step.signal)
  moreover have "pool_step ?n ?p3 ?p4" by (rule pool_step.stop) simp_all
  moreover have "pool_step ?n ?p4 ?p5" by (rule pool_step.drained) simp_all
  ultimately have "(pool_step ?n)\<^sup>*\<^sup>* (pool_init ?n) ?p5"
    by (meson converse_rtranclp_into_rtranclp r_into_rtranclp)
  then show ?thesis by (intro exI[of _ ?p5]) simp
qed

section \<open>A concrete run\<close>

theorem worker_pool_settles_witness:
  "\<exists>p. (pool_step 1)\<^sup>*\<^sup>* (pool_init 1) p \<and> po_pc p = Finished \<and>
       po_settled p = [(Unsync ''i'' ''/a'', Acked)] \<and> mset (map fst (po_settled p)) = mset (po_received p)"
proof -
  let ?n = "1 :: usize" and ?t = "Unsync ''i'' ''/a''"
  let ?p1 = "(pool_init ?n)\<lparr>po_pc := Acquiring ?t, po_received := [?t]\<rparr>"
  let ?p2 = "?p1\<lparr>po_pc := Receiving, po_permits := po_permits ?p1 - 1, po_running := [?t]\<rparr>"
  obtain d ms where st: "settle_task (po_metrics ?p2) ?t (Inr ()) = (d, ms)" and d: "d = Acked"
    by (simp add: settle_task_def)
  let ?p3 = "?p2\<lparr>po_running := [] @ [], po_permits := po_permits ?p2 + 1, po_settled := po_settled ?p2 @ [(?t, d)], po_metrics := ms\<rparr>"
  let ?p4 = "?p3\<lparr>po_shutdown := True\<rparr>"
  let ?p5 = "?p4\<lparr>po_pc := Draining\<rparr>"
  let ?p6 = "?p5\<lparr>po_pc := Finished\<rparr>"
  have "pool_step ?n (pool_init ?n) ?p1"
    using pool_step.receive[of "pool_init ?n" ?n ?t] by (simp add: pool_init_def)
  moreover have "pool_step ?n ?p1 ?p2"
    using pool_step.spawn[of ?p1 ?t ?n] by (simp add: pool_init_def)
  moreover have "pool_step ?n ?p2 ?p3" by (rule pool_step.complete[OF _ st]) simp
  moreover have "pool_step ?n ?p3 ?p4" by (rule pool_step.signal)
  moreover have "pool_step ?n ?p4 ?p5" by (rule pool_step.stop) simp_all
  moreover have "pool_step ?n ?p5 ?p6" by (rule pool_step.drained) (simp_all add: pool_init_def)
  ultimately have run: "(pool_step ?n)\<^sup>*\<^sup>* (pool_init ?n) ?p6"
    by (meson converse_rtranclp_into_rtranclp r_into_rtranclp)
  have "po_settled ?p6 = [(?t, Acked)]" "po_pc ?p6 = Finished" using d by (simp_all add: pool_init_def)
  with worker_pool_settles[OF run] run show ?thesis by (intro exI[of _ ?p6]) (simp add: word_less_nat_alt)
qed

theorem worker_shutdown_iff_witness:
  "\<not> (\<forall>p. (pool_step 0)\<^sup>*\<^sup>* (pool_init 0) p \<longrightarrow> (\<exists>p'. (pool_step 0)\<^sup>*\<^sup>* p p' \<and> po_pc p' = Finished))"
  using worker_shutdown_iff[of 0] by simp

end
