(* ===== verification/Fleet.thy ===== *)
theory Fleet
  imports Daemon_Service
begin

text \<open>
  Many devices on one bucket. Every device runs a daemon (\<^verbatim>\<open>crates/tcfsd/src/grpc.rs\<close>,
  \<^verbatim>\<open>crates/tcfsd/src/daemon.rs\<close>) or a worker (\<^verbatim>\<open>crates/tcfsd/src/worker.rs\<close>) with its own disk and
  state cache; the remote store is shared. A run of the fleet interleaves requests, stream events,
  worker tasks and arbitrary local changes, one request at a time. The theorems follow a pushed
  file through such a run: nothing the fleet does makes it unavailable, except a \<^verbatim>\<open>keep_local\<close>
  resolution, which is left out of the runs.
\<close>

section \<open>What stays available\<close>

text \<open>The content is fetched and verified under the manifest key of its hash.\<close>

definition available :: "'s libs \<Rightarrow> string \<Rightarrow> EncryptionContext option \<Rightarrow> 's \<Rightarrow> bytes \<Rightarrow> bool" where
  "available E p enc s d \<longleftrightarrow> (\<exists>m. fetch_verified E s (manifest_key p (hex_of E d)) p enc = Inr (m, d))"

text \<open>
  A sound bucket is content addressed, and every manifest in it of a non-empty content (among those
  considered) leads to that content. A store extends another when it is still sound and still has
  all its contents.
\<close>

definition bucket_ok :: "'s libs \<Rightarrow> string \<Rightarrow> bytes set \<Rightarrow> EncryptionContext option \<Rightarrow> 's \<Rightarrow> bool" where
  "bucket_ok E p U enc s \<longleftrightarrow> cas_in E p U s \<and>
     (\<forall>d \<in> U. d \<noteq> [] \<longrightarrow>
        op_exists (l_op E) s (manifest_key p (hex_of E d)) = Inr True \<or>
        is_ok (op_read (l_op E) s (manifest_key p (hex_of E d))) \<longrightarrow> available E p enc s d)"

definition store_extends ::
  "'s libs \<Rightarrow> string \<Rightarrow> bytes set \<Rightarrow> EncryptionContext option \<Rightarrow> 's \<Rightarrow> 's \<Rightarrow> bool" where
  "store_extends E p U enc s s' \<longleftrightarrow>
     (bucket_ok E p U enc s \<longrightarrow> bucket_ok E p U enc s' \<and>
        (\<forall>d \<in> U. d \<noteq> [] \<longrightarrow> available E p enc s d \<longrightarrow> available E p enc s' d))"

lemma store_extends_refl [simp]: "store_extends E p U enc s s"
  by (simp add: store_extends_def)

lemma store_extends_trans [trans]:
  "store_extends E p U enc s s1 \<Longrightarrow> store_extends E p U enc s1 s2 \<Longrightarrow> store_extends E p U enc s s2"
  by (simp add: store_extends_def)

lemma fetch_chunks_mono:
  assumes "\<And>g b. op_read (l_op E) s (chunk_key p g) = Inr b \<Longrightarrow> op_read (l_op E) s' (chunk_key p g) = Inr b"
  shows "fetch_chunks E key s p i hs = Inr d \<Longrightarrow> fetch_chunks E key s' p i hs = Inr d"
proof (induction hs arbitrary: i d)
  case (Cons h hs)
  obtain b where b: "op_read (l_op E) s (chunk_key p h) = Inr b"
    using Cons.prems by (auto split: sum.splits)
  show ?case
    using Cons.prems Cons.IH assms[OF b] b by (auto split: sum.splits if_splits)
qed simp

text \<open>A store in which every readable chunk and the manifest of a content are kept has that content.\<close>

lemma available_mono:
  assumes "available E p enc s d"
    and "\<And>g b. op_read (l_op E) s (chunk_key p g) = Inr b \<Longrightarrow> op_read (l_op E) s' (chunk_key p g) = Inr b"
    and "op_read (l_op E) s' (manifest_key p (hex_of E d)) = op_read (l_op E) s (manifest_key p (hex_of E d))"
  shows "available E p enc s' d"
proof -
  obtain m where "fetch_verified E s (manifest_key p (hex_of E d)) p enc = Inr (m, d)"
    using assms(1) by (auto simp: available_def)
  then obtain mb key where m: "op_read (l_op E) s (manifest_key p (hex_of E d)) = Inr mb"
    "from_bytes (l_mf E) mb = Inr m" "chunks m \<noteq> []"
    "download_key E enc (manifest_key p (hex_of E d)) m = Inr key"
    "fetch_chunks E key s p 0 (chunks m) = Inr d" "hex_of E d = file_hash m"
    by (rule fetch_verified_Ok)
  have "fetch_chunks E key s' p 0 (chunks m) = Inr d"
    by (rule fetch_chunks_mono[OF assms(2) m(5)])
  with m assms(3) show ?thesis
    by (simp add: available_def fetch_verified_def chunk_hashes_def)
qed

text \<open>Writes that keep readable chunks and leave the manifests alone extend the store.\<close>

lemma chunk_writes_extend:
  assumes "cas_in E p U s \<Longrightarrow> cas_in E p U s'"
    and "\<And>g b. cas_in E p U s \<Longrightarrow> op_read (l_op E) s (chunk_key p g) = Inr b \<Longrightarrow>
           op_read (l_op E) s' (chunk_key p g) = Inr b"
    and "\<And>h. op_read (l_op E) s' (manifest_key p h) = op_read (l_op E) s (manifest_key p h)"
    and "\<And>h. op_exists (l_op E) s' (manifest_key p h) = op_exists (l_op E) s (manifest_key p h)"
  shows "store_extends E p U enc s s'"
proof -
  have "available E p enc s' d" if "cas_in E p U s" "available E p enc s d" for d
    using available_mono[OF that(2) assms(2)[OF that(1)] assms(3)] .
  then show ?thesis
    using assms(1) by (simp add: store_extends_def bucket_ok_def assms(3,4))
qed

lemma other_write_extends:
  assumes "store_laws (l_op E)" and "op_write (l_op E) s k b = (r, s')"
    and "\<And>h. k \<noteq> chunk_key p h" and "\<And>h. k \<noteq> manifest_key p h"
  shows "store_extends E p U enc s s'"
proof -
  have fr: "op_read (l_op E) s' (chunk_key p h) = op_read (l_op E) s (chunk_key p h)"
    "op_exists (l_op E) s' (chunk_key p h) = op_exists (l_op E) s (chunk_key p h)"
    "op_read (l_op E) s' (manifest_key p h) = op_read (l_op E) s (manifest_key p h)"
    "op_exists (l_op E) s' (manifest_key p h) = op_exists (l_op E) s (manifest_key p h)" for h
    using store_write_frame[OF assms(1,2)] store_write_frame_exists[OF assms(1,2)] assms(3,4) by metis+
  show ?thesis by (rule chunk_writes_extend) (simp_all add: cas_in_def fr)
qed

section \<open>Uploads\<close>

lemma upload_write_stages:
  assumes "upload_write E rn f s c lp p dev rel enc cs data h vc out = (r, s', c')"
  obtains (none) e where "r = Inl e" "s' = s"
  | (chunks) key r1 e where "r = Inl e" "upload_key E rn enc h = Inr key"
      "upload_chunks E key (r_nonce rn) data p s 0 cs = (r1, s')"
  | (manifest) key hs s1 wk m mb r2 where "upload_key E rn enc h = Inr key"
      "upload_chunks E key (r_nonce rn) data p s 0 cs = (Inr hs, s1)"
      "wrapped_key E rn enc key = Inr wk" "to_bytes (l_mf E) m = Inr mb"
      "file_hash m = h" "SyncManifest.chunks m = hs" "encrypted_file_key m = wk"
      "op_write (l_op E) s1 (manifest_key p h) mb = (r2, s')"
      "is_ok r \<longrightarrow> is_ok r2"
  using assms by (auto simp: upload_write_def Let_def split: sum.splits prod.splits)

text \<open>What an upload reads is among the contents considered, and so is every blob it stores.\<close>

definition upload_in :: "'s libs \<Rightarrow> bytes set \<Rightarrow> rnd \<Rightarrow> fs \<Rightarrow> path \<Rightarrow> EncryptionContext option \<Rightarrow> bool" where
  "upload_in E U rn f lp enc \<longleftrightarrow> good_rnd rn \<and> upload_blobs_in E rn f lp enc U \<and>
     (\<forall>d. fs_read f lp = Inr d \<longrightarrow> d \<in> U)"

lemma upload_chunks_extends:
  assumes "engine_laws E" and "inj_on (hex_of E) U"
    and "list_all (tagged E data) cs" and "blobs_in E key nonces data U 0 cs"
    and "upload_chunks E key nonces data p s 0 cs = (r, s')"
  shows "store_extends E p U enc s s'"
proof -
  note L = engine_lawsD[OF assms(1)]
  show ?thesis
    by (rule chunk_writes_extend)
      (use upload_chunks_cas[OF L(1) assms(5) _ assms(3,4)] upload_chunks_keeps[OF L(1) assms(2,5) _ assms(3,4)]
         upload_chunks_frame[OF L(1) _ assms(5)] in auto)
qed

text \<open>The manifest an upload writes leads to the content it was written for.\<close>

lemma written_manifest_available:
  assumes "engine_laws E" and "inj_on (hex_of E) U" and "good_rnd rn" and "cas_in E p U s"
    and "list_all (tagged E data) cs" and "blobs_in E key (r_nonce rn) data U 0 cs"
    and "concat (map (chunk_bytes_of data) cs) = data" and "cs \<noteq> []"
    and "upload_key E rn enc (hex_of E data) = Inr key"
    and "upload_chunks E key (r_nonce rn) data p s 0 cs = (Inr hs, s1)"
    and "wrapped_key E rn enc key = Inr (encrypted_file_key m)" and "to_bytes (l_mf E) m = Inr mb"
    and "file_hash m = hex_of E data" and "chunks m = hs"
    and "\<And>h. op_read (l_op E) s' (chunk_key p h) = op_read (l_op E) s1 (chunk_key p h)"
    and "op_read (l_op E) s' (manifest_key p (hex_of E data)) = Inr mb"
  shows "available E p enc s' data"
proof -
  note L = engine_lawsD[OF assms(1)]
  have "fetch_chunks E key s1 p 0 hs = Inr data" "length hs = length cs"
    using upload_then_fetch[OF L(1) assms(2) L(5) _ assms(10,4-6)] assms(3,7) by (simp_all add: good_rnd_def)
  moreover have "download_key E enc (manifest_key p (hex_of E data)) m = Inr key"
    by (rule download_key_of_upload[OF L(5,6) assms(3)]) (simp_all add: assms)
  ultimately show ?thesis
    using assms(8,13,14,16) to_bytes_from_bytes[OF L(4) assms(12)] fetch_chunks_cong[OF assms(15)]
    by (auto simp: available_def fetch_verified_def chunk_hashes_def)
qed

text \<open>Writing the manifest of a content, once that content is fetched through it, extends the store.\<close>

lemma manifest_write_extends:
  assumes "store_laws (l_op E)" and "inj_on (hex_of E) U" and "data \<in> U"
    and "op_write (l_op E) s (manifest_key p (hex_of E data)) mb = (r, s')"
    and "cas_in E p U s \<Longrightarrow> data \<noteq> [] \<Longrightarrow>
           op_read (l_op E) s' (manifest_key p (hex_of E data)) = Inr mb \<Longrightarrow> available E p enc s' data"
  shows "store_extends E p U enc s s'"
proof -
  have fr: "op_read (l_op E) s' (chunk_key p h) = op_read (l_op E) s (chunk_key p h)" for h
    by (rule store_write_frame[OF assms(1,4)]) simp
  note mk = store_write_frame[OF assms(1,4), of "manifest_key p (hex_of E d)" for d]
    store_write_frame_exists[OF assms(1,4), of "manifest_key p (hex_of E d)" for d]
  have "available E p enc s' d"
    if "bucket_ok E p U enc s" "d \<in> U" "d \<noteq> []"
      and src: "available E p enc s d \<or> op_exists (l_op E) s' (manifest_key p (hex_of E d)) = Inr True \<or>
            is_ok (op_read (l_op E) s' (manifest_key p (hex_of E d)))" for d
  proof (cases "hex_of E d = hex_of E data \<and> op_read (l_op E) s' (manifest_key p (hex_of E data)) = Inr mb")
    case True
    then have "d = data" using assms(2,3) that(2) by (auto dest: inj_onD)
    with True assms(5) that show ?thesis by (simp add: bucket_ok_def)
  next
    case False
    then have same: "op_read (l_op E) s' (manifest_key p (hex_of E d)) = op_read (l_op E) s (manifest_key p (hex_of E d))"
      "op_exists (l_op E) s' (manifest_key p (hex_of E d)) = op_exists (l_op E) s (manifest_key p (hex_of E d))"
      using mk[of d] store_write_atomic[OF assms(1,4)] by (cases "hex_of E d = hex_of E data"; auto)+
    with that have "available E p enc s d" by (auto simp: bucket_ok_def)
    then show ?thesis using available_mono[OF _ _ same(1)] fr by simp
  qed
  with cas_in_write_manifest[OF assms(1) _ assms(4)] show ?thesis
    unfolding store_extends_def bucket_ok_def by blast
qed

lemma upload_write_extends:
  assumes "engine_laws E" and "inj_on (hex_of E) U" and "upload_in E U rn f lp enc"
    and "chunk_file (l_hash E) (l_cdc E) f lp = Inr (cs, data)"
    and "upload_write E rn f s c lp p dev rel enc cs data (hex_of E data) vc out = (r, s', c')"
    and "bucket_ok E p U enc s"
  shows "store_extends E p U enc s s'" and "data \<noteq> [] \<Longrightarrow> is_ok r \<Longrightarrow> available E p enc s' data"
proof -
  note L = engine_lawsD[OF assms(1)]
  note C = chunk_file_ok[OF L(3) assms(4)]
  have U: "good_rnd rn" "data \<in> U" "cas_in E p U s" using assms(3,6) C(1) by (simp_all add: upload_in_def bucket_ok_def)
  have blobs: "blobs_in E key (r_nonce rn) data U 0 cs" if "upload_key E rn enc (hex_of E data) = Inr key" for key
    using assms(3,4) that by (auto simp: upload_in_def upload_blobs_in_def)
  have "store_extends E p U enc s s' \<and> (data \<noteq> [] \<longrightarrow> is_ok r \<longrightarrow> available E p enc s' data)"
    using assms(5)
  proof (cases rule: upload_write_stages)
    case (chunks key r1 e)
    then show ?thesis using upload_chunks_extends[OF assms(1,2) C(2) blobs] by simp
  next
    case (manifest key hs s1 wk m mb r2)
    note up = upload_chunks_extends[OF assms(1,2) C(2) blobs[OF manifest(1)] manifest(2), of enc]
    have new: "available E p enc s' data"
      if "data \<noteq> []" "op_read (l_op E) s' (manifest_key p (hex_of E data)) = Inr mb"
      by (rule written_manifest_available[OF assms(1,2) U(1,3) C(2) blobs[OF manifest(1)] C(3) _ manifest(1,2) _ manifest(4-6)
            store_write_frame[OF L(1) manifest(8)] that(2)]) (use that(1) C(4) manifest in simp_all)
    have "store_extends E p U enc s1 s'"
      by (rule manifest_write_extends[OF L(1) assms(2) U(2) manifest(8)]) (use new in simp)
    with up new manifest(9) store_write_read[OF L(1)] manifest(8) show ?thesis
      by (cases r2) (auto intro: store_extends_trans)
  qed simp_all
  then show "store_extends E p U enc s s'" "data \<noteq> [] \<Longrightarrow> is_ok r \<Longrightarrow> available E p enc s' data" by blast+
qed

lemma upload_extends:
  assumes "engine_laws E" and "inj_on (hex_of E) U" and "upload_in E U rn f lp enc"
    and "upload_file_with_device E rn f s c lp p dev rel enc = (r, s', c')"
  shows "store_extends E p U enc s s'"
proof (cases "bucket_ok E p U enc s")
  case True
  from assms(4) show ?thesis
    by (cases rule: upload_effects) (simp_all add: upload_write_extends(1)[OF assms(1-3) _ _ True])
qed (simp add: store_extends_def)

text \<open>An upload of an untracked file that succeeds makes its content available, whether it was new or not.\<close>

lemma upload_makes_available:
  assumes "engine_laws E" and "inj_on (hex_of E) U" and "upload_in E U rn f lp enc" and "bucket_ok E p U enc s"
    and "upload_file_with_device E rn f s c lp p dev rel enc = (Inr u, s', c')"
    and "sc_get f c lp = None" and "fs_read f lp = Inr data" and "data \<noteq> []"
  shows "available E p enc s' data \<and> ur_hash u = hex_of E data"
proof -
  have dU: "data \<in> U" using assms(3,7) by (simp add: upload_in_def)
  obtain cs where cf: "chunk_file (l_hash E) (l_cdc E) f lp = Inr (cs, data)"
    using chunk_data_ok[OF engine_lawsD(3)[OF assms(1)], of "for_path lp" "l_hash E" data] assms(7)
    by (auto simp: chunk_file_def)
  have ns: "sc_needs_sync (l_hash E) f c lp = Inr (Some NewFile)"
    using assms(5,6) by (auto simp: upload_file_with_device_def sc_needs_sync_def needs_sync_entry_def split: sum.splits)
  have "ur_hash u = hex_of E data"
    using assms(5) ns cf
    by (auto simp: upload_file_with_device_def upload_write_def Let_def
        split: sum.splits prod.splits option.splits SyncOutcome.splits if_splits)
  moreover have "available E p enc s' data"
    using assms(5) ns cf
  proof (cases rule: upload_chunked_cases)
    case (other x m out now vc)
    then show ?thesis using assms(4,8) dU by (auto simp: bucket_ok_def remote_check_def split: if_splits)
  next
    case (noted x st)
    then show ?thesis using assms(4,8) dU by (auto simp: bucket_ok_def)
  next
    case (wrote vc out)
    then show ?thesis using upload_write_extends(2)[OF assms(1-3) cf _ assms(4,8)] by simp
  qed simp
  ultimately show ?thesis by simp
qed

lemma push_loop_extends:
  assumes "engine_laws E" and "inj_on (hex_of E) U" and "\<And>i lp. upload_in E U (rn i) f lp enc"
  shows "push_loop E rn f root rp dev enc i ps s c n = (s', c', n') \<Longrightarrow>
    store_extends E (remote_path_prefix rp) U enc s s'"
proof (induction ps arbitrary: i s c n)
  case (Cons lp ps)
  let ?p = "remote_path_prefix rp"
  obtain r s1 c1 where up: "upload_file_with_device E (rn i) f s c lp ?p dev (Some (rel_string root lp)) enc = (r, s1, c1)"
    using prod_cases3 by blast
  note ext = upload_extends[OF assms up]
  show ?case
  proof (cases r)
    case (Inl e)
    then show ?thesis using Cons.IH Cons.prems up store_extends_trans[OF ext] by simp
  next
    case (Inr x)
    let ?w = "op_write (l_op E) s1 (index_key ?p (rel_string root lp))
                (bytes_of_str (index_text (ur_hash x) (ur_bytes x) (word_of_nat (ur_chunks x))))"
    obtain r2 s2 where w: "?w = (r2, s2)" by (cases ?w)
    have "store_extends E ?p U enc s1 s2"
      by (rule other_write_extends[OF engine_lawsD(1)[OF assms(1)] w]) simp_all
    moreover have "store_extends E ?p U enc s2 s'"
      using Cons.IH Cons.prems up Inr w by (simp add: Let_def)
    ultimately show ?thesis using ext by (blast intro: store_extends_trans)
  qed
qed simp

section \<open>Model: a fleet of devices\<close>

text \<open>
  What a device may be asked to do, with the arguments of its handler: gRPC requests, messages of the
  state stream (with the cache's iteration order, the sync mode and root) and worker tasks.
\<close>

datatype request =
    ReqPush rnd "path res" "(string \<times> bytes) res list"
  | ReqPull string string
  | ReqHydrate string
  | ReqUnsync string
  | ReqMount string string bool
  | ReqUnmount string cmd_result cmd_result
  | ReqResolve string string
  | StreamEvent "string list" string "path option" StateEvent
  | WorkerTask globber "nat \<Rightarrow> rnd" "path \<Rightarrow> dtree" SyncTask

fun run_request :: "'s libs \<Rightarrow> state_codec \<Rightarrow> service \<Rightarrow> 's daemon \<Rightarrow> request \<Rightarrow> 's daemon" where
  "run_request E J S w (ReqPush rn td stream) = snd (grpc_push E rn S td w stream)"
| "run_request E J S w (ReqPull remote local) = snd (grpc_pull E S w remote local)"
| "run_request E J S w (ReqHydrate stub) = snd (grpc_hydrate E S w stub)"
| "run_request E J S w (ReqUnsync pth) = snd (grpc_unsync J w pth)"
| "run_request E J S w (ReqMount mountpoint remote spawned) = snd (grpc_mount w mountpoint remote spawned)"
| "run_request E J S w (ReqUnmount mountpoint a b) = snd (grpc_unmount w mountpoint a b)"
| "run_request E J S w (ReqResolve pth resolution) = snd (grpc_resolve_conflict E J S w pth resolution)"
| "run_request E J S w (StreamEvent ord mode root ev) =
     snd (handle_event E J ord (sv_device S) mode root (sv_bucket S) w ev)"
| "run_request E J S w (WorkerTask G rn tree task) = snd (dispatch_task E J G rn tree w task)"

text \<open>A content among those considered, with every chunk it is cut into under that path.\<close>

definition content_in :: "'s libs \<Rightarrow> bytes set \<Rightarrow> path \<Rightarrow> bytes \<Rightarrow> bool" where
  "content_in E U lp d \<longleftrightarrow> d \<in> U \<and>
     (\<forall>cs. chunk_data (l_hash E) (l_cdc E) d (for_path lp) = Inr cs \<longrightarrow> chunk_bytes_of d ` set cs \<subseteq> U)"

text \<open>
  The requests of a run: anything but a \<^verbatim>\<open>keep_local\<close> resolution, the uploaded contents among those
  considered, and worker pushes into the bucket of the fleet.
\<close>

fun admissible :: "'s libs \<Rightarrow> string \<Rightarrow> bytes set \<Rightarrow> 's daemon \<Rightarrow> request \<Rightarrow> bool" where
  "admissible E p U w (ReqPush rn td stream) \<longleftrightarrow> good_rnd rn \<and>
     (case (push_collect [] [] stream, td) of
        (Inr (pth, data), Inr t) \<Rightarrow> content_in E U (path_join t (path_of pth)) data
      | _ \<Rightarrow> True)"
| "admissible E p U w (ReqResolve pth resolution) \<longleftrightarrow> resolution \<noteq> ''keep_local''"
| "admissible E p U w (WorkerTask G rn tree (Push i local_path remote_prefix)) \<longleftrightarrow>
     remote_prefix = p \<and> (\<forall>j. good_rnd (rn j)) \<and>
     (\<forall>lp d. fs_read (w_fs w) lp = Inr d \<longrightarrow> content_in E U lp d)"
| "admissible E p U w _ \<longleftrightarrow> True"

text \<open>
  One step: a device serves a request against the shared store, or its local state changes in any
  way at all (edits of the user, restarts, lost caches).
\<close>

type_synonym 's fleet = "'s \<times> (nat \<Rightarrow> 's daemon)"

inductive fleet_step ::
  "'s libs \<Rightarrow> state_codec \<Rightarrow> (nat \<Rightarrow> service) \<Rightarrow> string \<Rightarrow> bytes set \<Rightarrow> 's fleet \<Rightarrow> 's fleet \<Rightarrow> bool"
  for E J S p U where
    request: "admissible E p U (D i\<lparr>w_store := s\<rparr>) req \<Longrightarrow> w = run_request E J (S i) (D i\<lparr>w_store := s\<rparr>) req \<Longrightarrow>
      fleet_step E J S p U (s, D) (w_store w, D(i := w))"
  | local_change: "fleet_step E J S p U (s, D) (s, D(i := w))"

inductive_cases fleet_stepE: "fleet_step E J S p U x y"

section \<open>Every step extends the store\<close>

lemma release_operator_store [simp]: "w_store (snd (release_operator x)) = w_store (snd x)"
  by (cases x; cases "fst x") (auto simp: release_operator_def)

lemma lock_operator_store:
  "(\<And>w1. w_store w1 = w_store w \<Longrightarrow> w_store (snd (k w1)) = w_store w) \<Longrightarrow> w_store (snd (lock_operator w k)) = w_store w"
  by (simp add: lock_operator_def)

lemma engine_download_store [simp]:
  "w_store (snd (engine_download E w remote lp rp dev)) = w_store w"
  "engine_download E w remote lp rp dev = (r, w') \<Longrightarrow> w_store w' = w_store w"
  by (auto simp: engine_download_def split: prod.splits)

text \<open>Requests that only read the store.\<close>

lemma reading_requests_keep_store:
  "w_store (snd (grpc_pull E S w remote local)) = w_store w"
  "w_store (snd (grpc_hydrate E S w stub)) = w_store w"
  "w_store (snd (grpc_unsync J w pth)) = w_store w"
  "w_store (snd (grpc_mount w mp rm spawned)) = w_store w"
  "w_store (snd (grpc_unmount w mp a b)) = w_store w"
  "w_store (snd (keep_remote E S w pth)) = w_store w"
  "w_store (snd (keep_both E S w pth)) = w_store w"
  by (auto simp: grpc_pull_def grpc_hydrate_def grpc_unsync_def grpc_mount_def grpc_unmount_def keep_remote_def
      keep_both_def lock_operator_def Let_def
      split: prod.splits sum.splits cmd_result.splits bool.splits)

lemma do_auto_download_store [simp]: "w_store (snd (do_auto_download E J w dev m lp rp)) = w_store w"
  by (auto simp: do_auto_download_def lock_operator_def split: prod.splits sum.splits)

lemma handle_event_store: "w_store (snd (handle_event E J ord dev mode root rp w ev)) = w_store w"
  by (auto simp: handle_event_def handle_auto_pull_def merge_resolved_def Let_def
      split: StateEvent.splits option.splits SyncOutcome.splits Resolution.splits)

lemma upload_in_plain:
  assumes "good_rnd rn" and "\<And>d. fs_read f lp = Inr d \<Longrightarrow> content_in E U lp d"
  shows "upload_in E U rn f lp None"
proof -
  have "blobs_in E None nonces data U 0 cs" if "chunk_file (l_hash E) (l_cdc E) f lp = Inr (cs, data)" for nonces data cs
  proof -
    have "chunk_bytes_of data ` set cs \<subseteq> U"
      using that assms(2) by (auto simp: chunk_file_def content_in_def split: sum.splits)
    then show ?thesis
      by (fastforce simp: blobs_in_def upload_blob_def slice_def chunk_bytes_of_def split: if_splits)
  qed
  with assms show ?thesis
    by (auto simp: upload_in_def upload_blobs_in_def upload_key_def content_in_def)
qed

lemma push_via_upload_in:
  assumes "good_rnd rn" and "content_in E U lp data" and "fs_write f lp data = (Inr u, f')"
  shows "upload_in E U rn f' lp None"
  by (rule upload_in_plain[OF assms(1)])
    (use fs_write_content[OF assms(3)] assms(2) in \<open>auto simp: fs_read_def split: if_splits option.splits\<close>)

lemma grpc_push_extends:
  assumes "engine_laws E" and "inj_on (hex_of E) U" and "sv_bucket S = p"
    and "admissible E p U w (ReqPush rn td stream)"
  shows "store_extends E p U None (w_store w) (w_store (snd (grpc_push E rn S td w stream)))"
proof -
  have via: "store_extends E p U None (w_store v) (w_store (snd (push_via E rn S v t pth data)))"
    if "good_rnd rn" "content_in E U (path_join t (path_of pth)) data" for v t pth data
  proof -
    note ext = upload_extends[OF assms(1,2) push_via_upload_in[OF that]]
    show ?thesis by (auto simp: push_via_def Let_def assms(3) split: prod.splits sum.splits dest: ext)
  qed
  show ?thesis
  proof (cases "\<exists>pth data t. push_collect [] [] stream = Inr (pth, data) \<and> td = Inr t \<and> pth \<noteq> [] \<and> \<not> w_oplock w \<and> w_operator w")
    case True
    then obtain pth data t where ops: "push_collect [] [] stream = Inr (pth, data)" "td = Inr t" "pth \<noteq> []"
      "\<not> w_oplock w" "w_operator w" by blast
    with assms(4) via[of t pth data "w\<lparr>w_oplock := True, w_fs := make_tempdir (w_fs w) t\<rparr>"] show ?thesis
      by (simp add: grpc_push_def lock_operator_def case_prod_beta)
  next
    case False
    then have "w_store (snd (grpc_push E rn S td w stream)) = w_store w"
      by (auto simp: grpc_push_def lock_operator_def split: sum.splits prod.splits)
    then show ?thesis by simp
  qed
qed

lemma dispatch_task_extends:
  assumes "engine_laws E" and "inj_on (hex_of E) U" and "remote_path_prefix p = p"
    and "admissible E p U w (WorkerTask G rn tree task)"
  shows "store_extends E p U None (w_store w) (w_store (snd (dispatch_task E J G rn tree w task)))"
proof (cases task)
  case (Push i lp rp)
  then have rp: "rp = p" and up: "upload_in E U (rn j) (w_fs w) q None" for j q
    using assms(4) by (auto intro!: upload_in_plain)
  note ext = upload_extends[OF assms(1,2) up] and loop = push_loop_extends[OF assms(1,2) up, where rp = p, unfolded assms(3)]
  have tree: "store_extends E p U None (w_store w) s'"
    if "push_tree E J G rn (w_fs w) t (w_store w) (w_cache w) root p = (r, f', s', c')" for t root r f' s' c'
    using that
    by (auto simp: push_tree_def push_tree_with_device_def split: sum.splits prod.splits dest: loop)
  show ?thesis
    by (auto simp: dispatch_task_def Push rp upload_file_def Let_def split: sum.splits prod.splits dest: ext tree)
next
  case (Pull i m rp lp)
  then show ?thesis by (simp add: dispatch_task_def split: prod.splits)
next
  case (Unsync i lp)
  then show ?thesis by (simp add: dispatch_task_def Let_def split: prod.splits)
qed

lemma run_request_extends:
  assumes "engine_laws E" and "inj_on (hex_of E) U" and "sv_bucket S = p" and "remote_path_prefix p = p"
    and "admissible E p U w req"
  shows "store_extends E p U None (w_store w) (w_store (run_request E J S w req))"
proof (cases req)
  case (ReqPush rn td stream)
  then show ?thesis using grpc_push_extends[OF assms(1-3)] assms(5) by simp
next
  case (WorkerTask G rn tree task)
  then show ?thesis using dispatch_task_extends[OF assms(1,2,4)] assms(5) by simp
next
  case (ReqResolve pth resolution)
  then show ?thesis using assms(5) by (simp add: grpc_resolve_conflict_def reading_requests_keep_store)
qed (simp_all add: reading_requests_keep_store handle_event_store)

lemma fleet_step_extends:
  assumes "engine_laws E" and "inj_on (hex_of E) U" and "\<And>i. sv_bucket (S i) = p" and "remote_path_prefix p = p"
    and "fleet_step E J S p U x y"
  shows "store_extends E p U None (fst x) (fst y)"
  using assms(5)
proof (cases rule: fleet_step.cases)
  case (request D i s req w)
  from run_request_extends[OF assms(1,2,3,4) request(3)] request show ?thesis by simp
qed simp

lemma fleet_run_extends:
  assumes "engine_laws E" and "inj_on (hex_of E) U" and "\<And>i. sv_bucket (S i) = p" and "remote_path_prefix p = p"
    and "(fleet_step E J S p U)\<^sup>*\<^sup>* x y"
  shows "store_extends E p U None (fst x) (fst y)"
  using assms(5) by induction (auto intro: store_extends_trans dest: fleet_step_extends[OF assms(1-4)])

text \<open>
  C4: what the fleet has stored stays. Along every run (requests, stream events and worker tasks of
  all devices interleaved, failing ones included, and arbitrary local changes in between) the bucket
  stays sound, and every content that could be downloaded at some point can still be downloaded,
  provided the contents handled in the run have no hash collision.
\<close>

theorem fleet_contents_persist:
  assumes "engine_laws E" and "inj_on (hex_of E) U" and "\<And>i. sv_bucket (S i) = p" and "remote_path_prefix p = p"
    and "bucket_ok E p U None s" and "(fleet_step E J S p U)\<^sup>*\<^sup>* (s, D) (s', D')"
  shows "bucket_ok E p U None s' \<and> (\<forall>d. d \<in> U \<and> d \<noteq> [] \<and> available E p None s d \<longrightarrow> available E p None s' d)"
  using fleet_run_extends[OF assms(1-4,6)] assms(5) by (simp add: store_extends_def)

section \<open>A pushed file reaches every device\<close>

text \<open>A stream without transport errors: the first path named in it, and all data in order.\<close>

lemma push_collect_messages:
  "push_collect p d (map Inr ms) =
     Inr (if p \<noteq> [] then p else (case find (\<lambda>q. q \<noteq> []) (map fst ms) of None \<Rightarrow> [] | Some q \<Rightarrow> q), d @ concat (map snd ms))"
  by (induction ms arbitrary: p d) auto

lemma push_makes_available:
  assumes "engine_laws E" and "inj_on (hex_of E) U" and "bucket_ok E (sv_bucket S) U None (w_store w)"
    and "admissible E (sv_bucket S) U w (ReqPush rn (Inr td) stream)"
    and "push_collect [] [] stream = Inr (pth, data)" and "data \<noteq> []"
    and "\<And>f. canon f = canon (w_fs w) \<Longrightarrow> sc_get f (w_cache w) (path_join td (path_of pth)) = None"
    and "grpc_push E rn S (Inr td) w stream = (Reply pr, w')" and "pp_error pr = None"
  shows "available E (sv_bucket S) None (w_store w') data \<and> pp_chunk_hash pr = hex_of E data"
proof -
  let ?lp = "path_join td (path_of pth)"
  obtain w1 w2 where via: "push_via E rn S w1 td pth data = (Reply pr, w2)"
    and w1: "w_store w1 = w_store w" "w_cache w1 = w_cache w" "canon (w_fs w1) = canon (w_fs w)"
    and w': "w_store w' = w_store w2"
    using grpc_push_ReplyE[OF assms(8,5)] by metis
  obtain f2 u s' c' where up: "upload_file_with_device E rn f2 (w_store w) (w_cache w) ?lp (sv_bucket S) (sv_device S)
       (Some pth) None = (Inr u, s', c')"
    and f2: "map_option f_data (files f2 ?lp) = Some data" "canon f2 = canon (w_fs w)"
    and w2: "pp_chunk_hash pr = ur_hash u" "w_store w2 = s'"
    using push_via_OkE[OF via assms(9)] unfolding w1 by metis
  have untracked: "sc_get f2 (w_cache w) ?lp = None" by (rule assms(7)[OF f2(2)])
  have rd: "fs_read f2 ?lp = Inr data"
    using upload_untracked[OF up untracked] f2(1) by auto
  have "upload_in E U rn f2 ?lp None"
    by (rule upload_in_plain) (use assms(4,5) rd in auto)
  from upload_makes_available[OF assms(1,2) this assms(3) up untracked rd assms(6)] w' w2 show ?thesis by simp
qed

lemma available_pulled:
  assumes "available E (sv_bucket S) None (w_store w) d" and "w_operator w" and "\<not> w_oplock w"
    and "writable (w_fs w) (path_of q)" and "\<not> fault (w_fs w) OpStat (path_of q)"
  shows "\<exists>pl w'. grpc_pull E S w (manifest_key (sv_bucket S) (hex_of E d)) q = (Reply pl, w') \<and>
           pl_error pl = None \<and> map_option f_data (files (w_fs w') (path_of q)) = Some d"
proof -
  let ?w = "w\<lparr>w_oplock := True\<rparr>" and ?m = "manifest_key (sv_bucket S) (hex_of E d)"
  obtain m where "fetch_verified E (w_store ?w) ?m (sv_bucket S) None = Inr (m, d)"
    using assms(1) by (auto simp: available_def)
  from engine_download_writes[OF this, of "path_of q" "sv_device S"] assms(2-5) show ?thesis
    by (auto simp: grpc_pull_def lock_operator_def release_operator_def)
qed

text \<open>
  C6: a pushed file reaches the fleet. From a sound bucket, after any run, a push of a non-empty file
  from an untracked path that reports no error names the hash of all streamed bytes (whether the
  content was new or already stored); and after any further run, every device whose storage operator
  is configured and whose operator mutex is free restores exactly those bytes by a pull of the
  reported manifest to any writable place. A run has no \<^verbatim>\<open>keep_local\<close> resolution, which would destroy
  manifests, and a device that an automatic pull has wedged does not have its mutex free.
\<close>

theorem pushed_file_reaches_fleet:
  assumes "engine_laws E" and "inj_on (hex_of E) U" and "\<And>i. sv_bucket (S i) = p" and "remote_path_prefix p = p"
    and "bucket_ok E p U None s0" and "(fleet_step E J S p U)\<^sup>*\<^sup>* (s0, D0) (s, D)"
    and "admissible E p U (D i\<lparr>w_store := s\<rparr>) (ReqPush rn (Inr td) stream)"
    and "stream = map Inr msgs" and "find (\<lambda>q. q \<noteq> []) (map fst msgs) = Some pth"
    and "data = concat (map snd msgs)" and "data \<noteq> []"
    and "\<And>f. canon f = canon (w_fs (D i)) \<Longrightarrow> sc_get f (w_cache (D i)) (path_join td (path_of pth)) = None"
    and "grpc_push E rn (S i) (Inr td) (D i\<lparr>w_store := s\<rparr>) stream = (Reply pr, w)" and "pp_error pr = None"
    and "(fleet_step E J S p U)\<^sup>*\<^sup>* (w_store w, D(i := w)) (s', D')"
    and "w_operator (D' j)" and "\<not> w_oplock (D' j)"
    and "writable (w_fs (D' j)) (path_of q)" and "\<not> fault (w_fs (D' j)) OpStat (path_of q)"
  shows "pp_chunk_hash pr = hex_of E data \<and>
         (\<exists>pl w'. grpc_pull E (S j) (D' j\<lparr>w_store := s'\<rparr>) (manifest_key p (pp_chunk_hash pr)) q = (Reply pl, w') \<and>
            pl_error pl = None \<and> map_option f_data (files (w_fs w') (path_of q)) = Some data)"
proof -
  note run = fleet_run_extends[OF assms(1-4)]
  have coll: "push_collect [] [] stream = Inr (pth, data)"
    using push_collect_messages[of "[]" "[]" msgs] assms(8-10) by simp
  have ok: "bucket_ok E p U None s" using run[OF assms(6)] assms(5) by (simp add: store_extends_def)
  have av: "available E p None (w_store w) data \<and> pp_chunk_hash pr = hex_of E data"
    using push_makes_available[OF assms(1,2) _ _ coll assms(11) _ assms(13,14), unfolded assms(3)] ok assms(7,12) by simp
  have "bucket_ok E p U None (w_store w)"
    using grpc_push_extends[OF assms(1,2,3,7), of i] assms(13) ok by (simp add: store_extends_def)
  moreover have "data \<in> U" using assms(7) coll by (simp add: content_in_def)
  ultimately have "available E p None s' data"
    using run[OF assms(15)] av assms(11) by (simp add: store_extends_def)
  then have "\<exists>pl w'. grpc_pull E (S j) (D' j\<lparr>w_store := s'\<rparr>) (manifest_key p (hex_of E data)) q = (Reply pl, w') \<and>
      pl_error pl = None \<and> map_option f_data (files (w_fs w') (path_of q)) = Some data"
    using available_pulled[of E "S j" "D' j\<lparr>w_store := s'\<rparr>" data q] assms(3,16-19) by simp
  with av show ?thesis by simp
qed

section \<open>A concrete fleet\<close>

text \<open>
  Two devices on an empty bucket: the first pushes two bytes, the second then serves an unmount and
  pulls them.
\<close>

definition demo_fleet :: "nat \<Rightarrow> (string \<Rightarrow> bytes option) daemon" where
  "demo_fleet i = push_daemon"

definition demo_services :: "nat \<Rightarrow> service" where
  "demo_services i = demo_service\<lparr>sv_device := if i = 0 then ''d1'' else ''d2''\<rparr>"

lemma demo_fleet_facts:
  "sv_bucket (demo_services i) = ''p''" "demo_services 0 = demo_service" "remote_path_prefix ''p'' = ''p''"
  "demo_fleet i\<lparr>w_store := empty_store\<rparr> = push_daemon" "push_collect [] [] push_stream = Inr (''n'', [1, 2])"
  "bucket_ok (demo_libs m) ''p'' U None empty_store"
  using empty_store_ok(1)[of m "''p''" U]
  by (simp_all add: demo_services_def demo_service_def demo_fleet_def push_daemon_def demo_daemon_def push_stream_def
      remote_path_prefix_def trim_end_matches_def bucket_ok_def mem_operator_def)

lemma push_messages: "push_stream = map Inr [(''n'', [1]), ([], [2])]"
  by (simp add: push_stream_def)

lemma demo_push_admissible:
  "admissible (demo_libs m) ''p'' {[1, 2]} w (ReqPush demo_rnd (Inr (path_of ''/t'')) push_stream)"
proof -
  have "chunk_data toy_hasher whole_cdc [1, 2] (for_path (path_of ''/t/n'')) = Inr [demo_chunk]"
    using push_tmp_fs_facts(4) by (auto simp: chunk_file_def split: sum.splits)
  then show ?thesis
    by (simp add: demo_fleet_facts(5) demo_rnd_good push_tmp_fs_facts(1) content_in_def)
      (simp add: demo_chunk_def chunk_bytes_of_def)
qed

lemma one_file_writable: "writable one_file (path_of ''/b'')" "\<not> fault one_file OpStat (path_of ''/b'')"
  by code_simp+

theorem fleet_contents_persist_witness:
  "bucket_ok (demo_libs pushed_manifest) ''p'' {[1, 2]} None
     (w_store (run_request (demo_libs pushed_manifest) tiny_codec demo_service push_daemon
        (ReqPush demo_rnd (Inr (path_of ''/t'')) push_stream)))" (is "bucket_ok ?E _ ?U _ (w_store ?w)")
proof -
  have "fleet_step ?E tiny_codec demo_services ''p'' ?U (empty_store, demo_fleet) (w_store ?w, demo_fleet(0 := ?w))"
    by (rule fleet_step.request[OF demo_push_admissible]) (simp add: demo_fleet_facts)
  from fleet_contents_persist[OF demo_laws _ demo_fleet_facts(1,3,6) r_into_rtranclp, OF _ this] show ?thesis
    by simp
qed

theorem pushed_file_reaches_fleet_witness:
  "\<exists>pr w pl w'. grpc_push (demo_libs pushed_manifest) demo_rnd (demo_services 0) (Inr (path_of ''/t'')) push_daemon push_stream =
       (Reply pr, w) \<and>
     grpc_pull (demo_libs pushed_manifest) (demo_services 1) (push_daemon\<lparr>w_store := w_store w\<rparr>)
       (manifest_key ''p'' (pp_chunk_hash pr)) ''/b'' = (Reply pl, w') \<and>
     map_option f_data (files (w_fs w') (path_of ''/b'')) = Some [1, 2]"
proof -
  let ?E = "demo_libs pushed_manifest" and ?U = "{[1, 2 :: u8]}"
  obtain pr w where push: "grpc_push ?E demo_rnd (demo_services 0) (Inr (path_of ''/t'')) push_daemon push_stream = (Reply pr, w)"
    "pp_error pr = None"
    using push_demo_reply unfolding demo_fleet_facts(2) by metis
  let ?req = "ReqUnmount ''/m'' (Exited True []) (NotStarted [])"
  let ?v = "run_request ?E tiny_codec (demo_services 1) (push_daemon\<lparr>w_store := w_store w\<rparr>) ?req"
  let ?D = "demo_fleet(0 := w, 1 := ?v)"
  have "fleet_step ?E tiny_codec demo_services ''p'' ?U (w_store w, demo_fleet(0 := w)) (w_store ?v, ?D)"
    by (rule fleet_step.request[where req = ?req]) (simp_all add: demo_fleet_def)
  then have "fleet_step ?E tiny_codec demo_services ''p'' ?U (w_store w, demo_fleet(0 := w)) (w_store w, ?D)"
    by (simp add: grpc_unmount_def)
  note run = r_into_rtranclp[of "fleet_step ?E tiny_codec demo_services ''p'' ?U", OF this]
  have D: "w_operator (?D 1)" "\<not> w_oplock (?D 1)" "writable (w_fs (?D 1)) (path_of ''/b'')"
    "\<not> fault (w_fs (?D 1)) OpStat (path_of ''/b'')"
    "?D 1\<lparr>w_store := w_store w\<rparr> = push_daemon\<lparr>w_store := w_store w\<rparr>"
    by (simp_all add: grpc_unmount_def push_daemon_def demo_daemon_def one_file_writable)
  have c: "w_cache push_daemon = sample_cache" by (simp add: push_daemon_def)
  have "(\<exists>pl w'. grpc_pull ?E (demo_services 1) (?D 1\<lparr>w_store := w_store w\<rparr>) (manifest_key ''p'' (pp_chunk_hash pr)) ''/b'' =
        (Reply pl, w') \<and> pl_error pl = None \<and> map_option f_data (files (w_fs w') (path_of ''/b'')) = Some [1, 2])"
    by (rule pushed_file_reaches_fleet[where i = 0 and U = ?U and td = "path_of ''/t''" and stream = push_stream and
          D = demo_fleet and data = "[1, 2]" and w = w and s = empty_store and rn = demo_rnd,
          OF demo_laws _ demo_fleet_facts(1,3,6) rtranclp.rtrancl_refl demo_push_admissible push_messages _ _ _ _ _
            push(2) run D(1-4), THEN conjunct2])
      (use push(1) c in \<open>simp_all add: demo_fleet_facts(4)[unfolded demo_fleet_def] demo_fleet_def[of 0] push_untracked\<close>)
  with push(1) D(5) show ?thesis by metis
qed

end
