(* ===== verification/Upload_Race.thy ===== *)
theory Upload_Race
  imports Fleet
begin

text \<open>
  Uploads that run at the same time (\<^verbatim>\<open>crates/tcfs-sync/src/engine.rs\<close>, the chunk loop and the manifest
  of an upload). Daemons, workers and command lines on different machines share a bucket without any
  lock, so the storage operations of their uploads interleave: between the test whether a chunk exists
  and the write of it, another device may write the same chunk. Here an upload is a process that makes
  one storage operation at a time; a system is any number of processes on one store.
\<close>

section \<open>Model: an upload, one storage operation at a time\<close>

text \<open>What an upload works on once the file is chunked and its key is chosen.\<close>

record upload_job =
  jb_key :: "(FileKey \<times> bytes) option"
  jb_nonces :: "nat \<Rightarrow> bytes"
  jb_data :: bytes
  jb_chunks :: "Chunk list"
  jb_manifest :: "string list \<Rightarrow> SyncManifest res"

definition upload_job_of ::
  "'s libs \<Rightarrow> rnd \<Rightarrow> fs \<Rightarrow> string \<Rightarrow> string option \<Rightarrow> EncryptionContext option \<Rightarrow> VectorClock \<Rightarrow> Chunk list \<Rightarrow> bytes \<Rightarrow>
   upload_job res" where
  "upload_job_of E rn f device_id rel enc vc cs data =
     (case upload_key E rn enc (hex_of E data) of
        Inl e \<Rightarrow> Inl e
      | Inr key \<Rightarrow>
          Ok \<lparr>jb_key = key, jb_nonces = r_nonce rn, jb_data = data, jb_chunks = cs,
              jb_manifest = (\<lambda>hs.
                case wrapped_key E rn enc key of
                  Inl e \<Rightarrow> Inl e
                | Inr wk \<Rightarrow>
                    Ok \<lparr>version = 2, file_hash = hex_of E data, file_size = u64_len data, chunks = hs,
                        m_vclock = (if device_id \<noteq> [] then tick vc device_id else vc), written_by = device_id,
                        written_at = fs_now f, rel_path = rel, encrypted_file_key = wk\<rparr>)\<rparr>)"

datatype upload_pc =
    ChunkCheck nat "string list"
  | ChunkWrite nat "string list" bytes string
  | ManifestWrite "string list"
  | Uploaded bool

fun upload_op :: "'s libs \<Rightarrow> string \<Rightarrow> upload_job \<Rightarrow> upload_pc \<times> 's \<Rightarrow> upload_pc \<times> 's" where
  "upload_op E p jb (ChunkCheck i hs, s) =
     (if length (jb_chunks jb) \<le> i then (ManifestWrite hs, s)
      else (case upload_blob E (jb_key jb) (jb_nonces jb) (jb_data jb) i (jb_chunks jb ! i) of
              Inl e \<Rightarrow> (Uploaded False, s)
            | Inr (b, h) \<Rightarrow>
                if exists_or_false (l_op E) s (chunk_key p h) then (ChunkCheck (Suc i) (hs @ [h]), s)
                else (ChunkWrite i hs b h, s)))"
| "upload_op E p jb (ChunkWrite i hs b h, s) =
     (case op_write (l_op E) s (chunk_key p h) b of
        (Inl e, s') \<Rightarrow> (Uploaded False, s')
      | (Inr _, s') \<Rightarrow> (ChunkCheck (Suc i) (hs @ [h]), s'))"
| "upload_op E p jb (ManifestWrite hs, s) =
     (case jb_manifest jb hs of
        Inl e \<Rightarrow> (Uploaded False, s)
      | Inr m \<Rightarrow>
          (case to_bytes (l_mf E) m of
             Inl e \<Rightarrow> (Uploaded False, s)
           | Inr mb \<Rightarrow>
               (case op_write (l_op E) s (manifest_key p (hex_of E (jb_data jb))) mb of
                  (r, s') \<Rightarrow> (Uploaded (is_ok r), s'))))"
| "upload_op E p jb (Uploaded ok, s) = (Uploaded ok, s)"

inductive race_step ::
  "'s libs \<Rightarrow> string \<Rightarrow> (nat \<Rightarrow> upload_job) \<Rightarrow> 's \<times> (nat \<Rightarrow> upload_pc) \<Rightarrow> 's \<times> (nat \<Rightarrow> upload_pc) \<Rightarrow> bool"
  for E p jobs where
    turn: "upload_op E p (jobs i) (pcs i, s) = (pc, s') \<Longrightarrow> race_step E p jobs (s, pcs) (s', pcs(i := pc))"

inductive_cases race_stepE: "race_step E p jobs x y"

text \<open>A run under a schedule that says whose turn it is.\<close>

fun race_sched ::
  "'s libs \<Rightarrow> string \<Rightarrow> (nat \<Rightarrow> upload_job) \<Rightarrow> nat list \<Rightarrow> 's \<times> (nat \<Rightarrow> upload_pc) \<Rightarrow> 's \<times> (nat \<Rightarrow> upload_pc)" where
  "race_sched E p jobs [] x = x"
| "race_sched E p jobs (i # is) (s, pcs) =
     (case upload_op E p (jobs i) (pcs i, s) of (pc, s') \<Rightarrow> race_sched E p jobs is (s', pcs(i := pc)))"

lemma race_sched_run: "(race_step E p jobs)\<^sup>*\<^sup>* x (race_sched E p jobs is x)"
proof (induction "is" arbitrary: x)
  case (Cons i "is")
  obtain s pcs where x: "x = (s, pcs)" by fastforce
  obtain pc s' where op: "upload_op E p (jobs i) (pcs i, s) = (pc, s')" by fastforce
  show ?case
    using converse_rtranclp_into_rtranclp[OF race_step.turn[of E p jobs i pcs s pc s', OF op] Cons.IH] by (simp add: x op)
qed simp

section \<open>A process alone is the engine's loop\<close>

lemma upload_op_alone:
  assumes "upload_chunks E (jb_key jb) (jb_nonces jb) (jb_data jb) p s i cs = (r, s')" and "cs = drop i (jb_chunks jb)"
  shows "\<exists>n. (upload_op E p jb ^^ n) (ChunkCheck i hs, s) =
           (case r of Inl e \<Rightarrow> (Uploaded False, s') | Inr hs' \<Rightarrow> (ManifestWrite (hs @ hs'), s'))"
  using assms
proof (induction cs arbitrary: i s r hs)
  case Nil
  then show ?case by (intro exI[of _ 1]) auto
next
  case (Cons c cs)
  let ?U = "upload_op E p jb"
  have i: "i < length (jb_chunks jb)" "jb_chunks jb ! i = c" "cs = drop (Suc i) (jb_chunks jb)"
    using Cons.prems(2) by (metis drop_eq_Nil not_le_imp_less list.distinct(1),
      metis nth_via_drop, metis drop_Suc list.sel(3) tl_drop)
  from Cons.prems(1) show ?case
  proof (cases rule: upload_chunks_Cons_cases)
    case (fail e)
    then show ?thesis using i by (intro exI[of _ 1]) simp
  next
    case (put_fail e b h)
    then have "(?U ^^ 2) (ChunkCheck i hs, s) = (Uploaded False, s')"
      using i by (auto simp: numeral_2_eq_2 put_chunk_def split: if_splits)
    then show ?thesis using put_fail(1) by auto
  next
    case (rest b h s1 u r1)
    have "\<exists>m. (?U ^^ m) (ChunkCheck i hs, s) = (ChunkCheck (Suc i) (hs @ [h]), s1)"
    proof (cases "exists_or_false (l_op E) s (chunk_key p h)")
      case True
      then show ?thesis using rest i by (intro exI[of _ 1]) (auto simp: put_chunk_def)
    next
      case False
      then show ?thesis using rest i by (intro exI[of _ 2]) (auto simp: numeral_2_eq_2 put_chunk_def)
    qed
    then obtain m where m: "(?U ^^ m) (ChunkCheck i hs, s) = (ChunkCheck (Suc i) (hs @ [h]), s1)" by blast
    obtain n where n: "(?U ^^ n) (ChunkCheck (Suc i) (hs @ [h]), s1) =
        (case r1 of Inl e \<Rightarrow> (Uploaded False, s') | Inr hs' \<Rightarrow> (ManifestWrite ((hs @ [h]) @ hs'), s'))"
      using Cons.IH[OF rest(3) i(3)] by blast
    have "(?U ^^ (n + m)) (ChunkCheck i hs, s) =
        (case r1 of Inl e \<Rightarrow> (Uploaded False, s') | Inr hs' \<Rightarrow> (ManifestWrite ((hs @ [h]) @ hs'), s'))"
      by (simp only: funpow_add comp_apply m n)
    then show ?thesis using rest(4) by (auto split: sum.splits)
  qed
qed

lemma upload_job_manifest:
  assumes "upload_job_of E rn f dev rel enc vc cs data = Inr jb"
  shows "jb_manifest jb hs =
    (case wrapped_key E rn enc (jb_key jb) of
       Inl e \<Rightarrow> Inl e
     | Inr wk \<Rightarrow>
         Ok \<lparr>version = 2, file_hash = hex_of E data, file_size = u64_len data, chunks = hs,
             m_vclock = (if dev \<noteq> [] then tick vc dev else vc), written_by = dev, written_at = fs_now f, rel_path = rel,
             encrypted_file_key = wk\<rparr>)"
  using assms by (auto simp: upload_job_of_def split: sum.splits)

lemma upload_job_fields:
  assumes "upload_job_of E rn f dev rel enc vc cs data = Inr jb"
  shows "upload_key E rn enc (hex_of E data) = Inr (jb_key jb)" "jb_nonces jb = r_nonce rn" "jb_data jb = data"
    "jb_chunks jb = cs"
  using assms by (auto simp: upload_job_of_def split: sum.splits)

lemma manifest_alone:
  assumes "upload_write E rn f s c lp p dev rel enc cs data (hex_of E data) vc out = (r, s', c')"
    and "upload_job_of E rn f dev rel enc vc cs data = Inr jb"
    and "upload_chunks E (jb_key jb) (r_nonce rn) data p s 0 cs = (Inr hs, s1)"
  shows "\<exists>ok. upload_op E p jb (ManifestWrite hs, s1) = (Uploaded ok, s') \<and> (is_ok r \<longrightarrow> ok)"
proof -
  note jb = upload_job_fields[OF assms(2)]
  show ?thesis
  proof (cases "wrapped_key E rn enc (jb_key jb)")
    case (Inl e)
    then have "r = Inl e" "s' = s1"
      using assms(1,3) jb(1) by (simp_all add: upload_write_def)
    then show ?thesis using Inl upload_job_manifest[OF assms(2)] by (intro exI[of _ False]) simp
  next
    case (Inr wk)
    let ?m = "\<lparr>version = 2, file_hash = hex_of E data, file_size = u64_len data, chunks = hs,
      m_vclock = (if dev \<noteq> [] then tick vc dev else vc), written_by = dev, written_at = fs_now f, rel_path = rel,
      encrypted_file_key = wk\<rparr>"
    have m: "jb_manifest jb hs = Inr ?m" using upload_job_manifest[OF assms(2)] Inr by simp
    note wr = assms(1)[unfolded upload_write_def Let_def jb(1) sum.case assms(3) prod.case Inr]
    show ?thesis
    proof (cases "to_bytes (l_mf E) ?m")
      case (Inl e)
      with wr have "r = Inl e" "s' = s1" by simp_all
      then show ?thesis using m Inl by (intro exI[of _ False]) simp
    next
      case (Inr mb)
      obtain w s2 where w: "op_write (l_op E) s1 (manifest_key p (hex_of E data)) mb = (w, s2)" by fastforce
      with wr Inr have "s' = s2 \<and> (is_ok r \<longrightarrow> is_ok w)" by (auto split: sum.splits prod.splits)
      then show ?thesis using m Inr w jb(3) by simp
    qed
  qed
qed

text \<open>
  Without other processes in between, an upload leaves exactly the store that \<open>upload_write\<close> leaves, and
  it succeeds where \<open>upload_write\<close> does (which may still fail afterwards, recording the local state).
\<close>

lemma upload_write_alone:
  assumes "upload_write E rn f s c lp p dev rel enc cs data (hex_of E data) vc out = (r, s', c')"
    and "upload_job_of E rn f dev rel enc vc cs data = Inr jb"
  shows "\<exists>n ok. (upload_op E p jb ^^ n) (ChunkCheck 0 [], s) = (Uploaded ok, s') \<and> (is_ok r \<longrightarrow> ok)"
proof -
  let ?U = "upload_op E p jb"
  note jb = upload_job_fields[OF assms(2)]
  obtain x s1 where up: "upload_chunks E (jb_key jb) (r_nonce rn) data p s 0 cs = (x, s1)" by fastforce
  obtain n where n: "(?U ^^ n) (ChunkCheck 0 [], s) =
      (case x of Inl e \<Rightarrow> (Uploaded False, s1) | Inr hs \<Rightarrow> (ManifestWrite hs, s1))"
    using upload_op_alone[of E jb p s 0 cs x s1 "[]", unfolded jb append_Nil drop_0, OF up refl] by blast
  show ?thesis
  proof (cases x)
    case (Inl e)
    then show ?thesis using assms(1) jb up n by (intro exI[of _ n] exI[of _ False]) (auto simp: upload_write_def)
  next
    case (Inr hs)
    then have "(?U ^^ Suc n) (ChunkCheck 0 [], s) = ?U (ManifestWrite hs, s1)" using n by simp
    moreover have "\<exists>ok. ?U (ManifestWrite hs, s1) = (Uploaded ok, s') \<and> (is_ok r \<longrightarrow> ok)"
      using manifest_alone[OF assms] up Inr by simp
    ultimately show ?thesis by metis
  qed
qed

text \<open>Every turn brings a process closer to its end: it takes at most two turns for a chunk, and two more.\<close>

fun turns_left :: "upload_job \<Rightarrow> upload_pc \<Rightarrow> nat" where
  "turns_left jb (ChunkCheck i hs) = 2 * (length (jb_chunks jb) - i) + 2"
| "turns_left jb (ChunkWrite i hs b h) = 2 * (length (jb_chunks jb) - i) + 1"
| "turns_left jb (ManifestWrite hs) = 1"
| "turns_left jb (Uploaded ok) = 0"

lemma upload_op_progress:
  assumes "upload_op E p jb (pc, s) = (pc', s')" and "turns_left jb pc \<noteq> 0"
    and "\<And>i hs b h. pc = ChunkWrite i hs b h \<Longrightarrow> i < length (jb_chunks jb)"
  shows "turns_left jb pc' < turns_left jb pc"
  using assms by (cases pc) (auto split: if_splits sum.splits prod.splits)

section \<open>What every process may rely on\<close>

text \<open>The blobs of the first chunks are in the store, under the hashes collected so far.\<close>

definition stored :: "'s libs \<Rightarrow> string \<Rightarrow> upload_job \<Rightarrow> 's \<Rightarrow> nat \<Rightarrow> string list \<Rightarrow> bool" where
  "stored E p jb s i hs \<longleftrightarrow> length hs = i \<and> i \<le> length (jb_chunks jb) \<and>
     (\<forall>j < i. \<exists>b. upload_blob E (jb_key jb) (jb_nonces jb) (jb_data jb) j (jb_chunks jb ! j) = Inr (b, hs ! j) \<and>
                  op_read (l_op E) s (chunk_key p (hs ! j)) = Inr b)"

fun pc_ok :: "'s libs \<Rightarrow> string \<Rightarrow> EncryptionContext option \<Rightarrow> upload_job \<Rightarrow> 's \<Rightarrow> upload_pc \<Rightarrow> bool" where
  "pc_ok E p enc jb s (ChunkCheck i hs) \<longleftrightarrow> stored E p jb s i hs"
| "pc_ok E p enc jb s (ChunkWrite i hs b h) \<longleftrightarrow> stored E p jb s i hs \<and> i < length (jb_chunks jb) \<and>
     upload_blob E (jb_key jb) (jb_nonces jb) (jb_data jb) i (jb_chunks jb ! i) = Inr (b, h)"
| "pc_ok E p enc jb s (ManifestWrite hs) \<longleftrightarrow> stored E p jb s (length (jb_chunks jb)) hs"
| "pc_ok E p enc jb s (Uploaded ok) \<longleftrightarrow> (ok \<and> jb_data jb \<noteq> [] \<longrightarrow> available E p enc s (jb_data jb))"

text \<open>A job as the engine makes it: chunks that cover the data, and a manifest that leads to them.\<close>

definition job_ok :: "'s libs \<Rightarrow> bytes set \<Rightarrow> EncryptionContext option \<Rightarrow> upload_job \<Rightarrow> bool" where
  "job_ok E U enc jb \<longleftrightarrow>
     list_all (tagged E (jb_data jb)) (jb_chunks jb) \<and>
     concat (map (chunk_bytes_of (jb_data jb)) (jb_chunks jb)) = jb_data jb \<and>
     (\<forall>i. length (jb_nonces jb i) = NONCE_SIZE) \<and> jb_data jb \<in> U \<and>
     blobs_in E (jb_key jb) (jb_nonces jb) (jb_data jb) U 0 (jb_chunks jb) \<and>
     (\<forall>hs m remote. jb_manifest jb hs = Inr m \<longrightarrow> file_hash m = hex_of E (jb_data jb) \<and> chunks m = hs \<and>
        download_key E enc remote m = Inr (jb_key jb))"

text \<open>What the engine uploads is such a job: some file it chunks, with proper random numbers.\<close>

definition engine_job :: "'s libs \<Rightarrow> bytes set \<Rightarrow> EncryptionContext option \<Rightarrow> upload_job \<Rightarrow> bool" where
  "engine_job E U enc jb \<longleftrightarrow>
     (\<exists>rn f lp dev rel vc cs data. good_rnd rn \<and> chunk_file (l_hash E) (l_cdc E) f lp = Inr (cs, data) \<and>
        upload_job_of E rn f dev rel enc vc cs data = Inr jb) \<and>
     jb_data jb \<in> U \<and> blobs_in E (jb_key jb) (jb_nonces jb) (jb_data jb) U 0 (jb_chunks jb)"

lemma engine_job_ok:
  assumes "engine_laws E" and "engine_job E U enc jb"
  shows "job_ok E U enc jb"
proof -
  note L = engine_lawsD[OF assms(1)]
  obtain rn f lp dev rel vc cs data where rn: "good_rnd rn"
    and cf: "chunk_file (l_hash E) (l_cdc E) f lp = Inr (cs, data)"
    and of: "upload_job_of E rn f dev rel enc vc cs data = Inr jb"
    using assms(2) by (auto simp: engine_job_def)
  note jb = upload_job_fields[OF of]
  have "file_hash m = hex_of E data \<and> chunks m = hs \<and> download_key E enc remote m = Inr (jb_key jb)"
    if m: "jb_manifest jb hs = Inr m" for hs m remote
  proof -
    have "file_hash m = hex_of E data" "chunks m = hs" "wrapped_key E rn enc (jb_key jb) = Inr (encrypted_file_key m)"
      using m upload_job_manifest[OF of] by (auto split: sum.splits)
    with jb(1) show ?thesis using download_key_of_upload[OF L(5,6) rn, of enc m] by simp
  qed
  with assms(2) chunk_file_ok[OF L(3) cf] rn jb show ?thesis
    by (simp add: job_ok_def engine_job_def good_rnd_def)
qed

lemma job_blob:
  assumes "job_ok E U enc jb" and "i < length (jb_chunks jb)"
    and "upload_blob E (jb_key jb) (jb_nonces jb) (jb_data jb) i (jb_chunks jb ! i) = Inr (b, h)"
  shows "hex_of E b = h" "b \<in> U"
  using assms upload_blob_hash[of E "jb_data jb" "jb_chunks jb ! i"]
  by (auto simp: job_ok_def list_all_length blobs_in_def)

lemma stored_fetch:
  assumes "aead_laws (l_aead E)" and "job_ok E U enc jb" and "stored E p jb s (length (jb_chunks jb)) hs"
  shows "fetch_chunks E (jb_key jb) s p 0 hs = Inr (jb_data jb)"
proof -
  let ?cs = "jb_chunks jb" and ?d = "jb_data jb"
  have J: "length hs = length ?cs" "concat (map (chunk_bytes_of ?d) ?cs) = ?d"
    using assms(2,3) by (simp_all add: job_ok_def stored_def)
  have "fetch_chunks E (jb_key jb) s p i (drop i hs) = Inr (concat (map (chunk_bytes_of ?d) (drop i ?cs)))"
    if "i \<le> length ?cs" for i
    using that
  proof (induction i rule: inc_induct)
    case base
    then show ?case by (simp add: J(1))
  next
    case (step i)
    obtain b where b: "upload_blob E (jb_key jb) (jb_nonces jb) ?d i (?cs ! i) = Inr (b, hs ! i)"
      "op_read (l_op E) s (chunk_key p (hs ! i)) = Inr b"
      using assms(3) step.hyps by (auto simp: stored_def)
    have "tagged E ?d (?cs ! i)" "length (jb_nonces jb i) = NONCE_SIZE"
      using assms(2) step.hyps by (auto simp: job_ok_def list_all_length)
    note dec = upload_blob_decrypts[OF assms(1) this(2,1) b(1)]
    have "drop i hs = hs ! i # drop (Suc i) hs" "drop i ?cs = ?cs ! i # drop (Suc i) ?cs"
      using step.hyps J(1) by (simp_all add: Cons_nth_drop_Suc)
    then show ?case using step.IH b dec job_blob(1)[OF assms(2) _ b(1)] step.hyps by simp
  qed
  from this[of 0] J(2) show ?thesis by simp
qed

text \<open>A chunk write, however late, keeps every chunk that can be read.\<close>

lemma write_chunk_extends:
  assumes "store_laws (l_op E)" and "inj_on (hex_of E) U" and "hex_of E b = h" and "b \<in> U"
    and "op_write (l_op E) s (chunk_key p h) b = (r, s')"
  shows "store_extends E p U enc s s'"
    and "cas_in E p U s \<Longrightarrow> op_read (l_op E) s (chunk_key p g) = Inr d \<Longrightarrow> op_read (l_op E) s' (chunk_key p g) = Inr d"
proof -
  show keep: "op_read (l_op E) s' (chunk_key p g) = Inr d"
    if cas: "cas_in E p U s" and rd: "op_read (l_op E) s (chunk_key p g) = Inr d" for g d
  proof (cases "g = h")
    case True
    then have "b = d" using cas_readD[OF cas rd] assms(2-4) by (auto dest: inj_onD)
    with True store_write_atomic[OF assms(1,5)] rd show ?thesis by auto
  qed (use store_write_frame[OF assms(1,5), of "chunk_key p g"] rd in simp)
  show "store_extends E p U enc s s'"
    by (rule chunk_writes_extend)
      (use keep cas_in_write_chunk[OF assms(1) _ assms(3-5)] store_write_frame[OF assms(1,5)]
         store_write_frame_exists[OF assms(1,5)] in simp_all)
qed

lemma stored_mono:
  assumes "stored E p jb s i hs"
    and "\<And>g b. op_read (l_op E) s (chunk_key p g) = Inr b \<Longrightarrow> op_read (l_op E) s' (chunk_key p g) = Inr b"
  shows "stored E p jb s' i hs"
  using assms unfolding stored_def by blast

lemma stored_snoc:
  assumes "stored E p jb s i hs" and "i < length (jb_chunks jb)"
    and "upload_blob E (jb_key jb) (jb_nonces jb) (jb_data jb) i (jb_chunks jb ! i) = Inr (b, h)"
    and "op_read (l_op E) s (chunk_key p h) = Inr b"
  shows "stored E p jb s (Suc i) (hs @ [h])"
  using assms by (auto simp: stored_def nth_append less_Suc_eq)

text \<open>The manifest of a job whose blobs are all stored makes its content available.\<close>

lemma manifest_step:
  assumes "engine_laws E" and "inj_on (hex_of E) U" and "job_ok E U enc jb"
    and "stored E p jb s (length (jb_chunks jb)) hs" and "jb_manifest jb hs = Inr m" and "to_bytes (l_mf E) m = Inr mb"
    and "op_write (l_op E) s (manifest_key p (hex_of E (jb_data jb))) mb = (r, s')"
  shows "store_extends E p U enc s s'" and "is_ok r \<Longrightarrow> jb_data jb \<noteq> [] \<Longrightarrow> available E p enc s' (jb_data jb)"
    and "op_read (l_op E) s' (chunk_key p g) = op_read (l_op E) s (chunk_key p g)"
proof -
  note L = engine_lawsD[OF assms(1)]
  show fr: "op_read (l_op E) s' (chunk_key p g) = op_read (l_op E) s (chunk_key p g)" for g
    by (rule store_write_frame[OF L(1) assms(7)]) simp
  have "stored E p jb s' (length (jb_chunks jb)) hs" by (rule stored_mono[OF assms(4)]) (simp add: fr)
  note fetch = stored_fetch[OF L(5) assms(3) this]
  have "jb_chunks jb = [] \<Longrightarrow> jb_data jb = []" "length hs = length (jb_chunks jb)"
    using assms(3,4) by (auto simp: job_ok_def stored_def)
  then have new: "available E p enc s' (jb_data jb)"
    if "jb_data jb \<noteq> []" "op_read (l_op E) s' (manifest_key p (hex_of E (jb_data jb))) = Inr mb"
    using that assms(3,5) fetch to_bytes_from_bytes[OF L(4) assms(6)]
    by (auto simp: available_def fetch_verified_def chunk_hashes_def job_ok_def)
  have "jb_data jb \<in> U" using assms(3) by (simp add: job_ok_def)
  then show "store_extends E p U enc s s'"
    by (rule manifest_write_extends[OF L(1) assms(2) _ assms(7)]) (rule new)
  show "is_ok r \<Longrightarrow> jb_data jb \<noteq> [] \<Longrightarrow> available E p enc s' (jb_data jb)"
    using new store_write_read[OF L(1)] assms(7) by (cases r) auto
qed

lemma upload_op_safe:
  assumes "engine_laws E" and "inj_on (hex_of E) U" and "job_ok E U enc jb" and "bucket_ok E p U enc s"
    and "pc_ok E p enc jb s pc" and "upload_op E p jb (pc, s) = (pc', s')"
  shows "store_extends E p U enc s s'" and "pc_ok E p enc jb s' pc'"
    and "op_read (l_op E) s (chunk_key p g) = Inr d \<Longrightarrow> op_read (l_op E) s' (chunk_key p g) = Inr d"
proof -
  note L = engine_lawsD[OF assms(1)]
  have cas: "cas_in E p U s" using assms(4) by (simp add: bucket_ok_def)
  have "store_extends E p U enc s s' \<and> pc_ok E p enc jb s' pc' \<and>
    (\<forall>g d. op_read (l_op E) s (chunk_key p g) = Inr d \<longrightarrow> op_read (l_op E) s' (chunk_key p g) = Inr d)"
  proof (cases pc)
    case (ChunkCheck i hs)
    have "op_read (l_op E) s (chunk_key p h) = Inr b"
      if "i < length (jb_chunks jb)" "upload_blob E (jb_key jb) (jb_nonces jb) (jb_data jb) i (jb_chunks jb ! i) = Inr (b, h)"
        "exists_or_false (l_op E) s (chunk_key p h)" for b h
      using put_chunk_read[OF L(1) cas assms(2) job_blob[OF assms(3) that(1,2)]] that(3) by (simp add: put_chunk_def)
    moreover have st: "stored E p jb s i hs" using assms(5) ChunkCheck by simp
    moreover have "i \<le> length (jb_chunks jb)" using st by (simp add: stored_def)
    ultimately show ?thesis
      using ChunkCheck assms(6) stored_snoc[OF st] by (auto split: if_splits sum.splits)
  next
    case (ChunkWrite i hs b h)
    obtain r s1 where w: "op_write (l_op E) s (chunk_key p h) b = (r, s1)" by fastforce
    have ok: "stored E p jb s i hs" "i < length (jb_chunks jb)"
      "upload_blob E (jb_key jb) (jb_nonces jb) (jb_data jb) i (jb_chunks jb ! i) = Inr (b, h)"
      using assms(5) ChunkWrite by simp_all
    note ext = write_chunk_extends[OF L(1) assms(2) job_blob[OF assms(3) ok(2,3)] w]
    note st = stored_mono[OF ok(1) ext(2)[OF cas]]
    show ?thesis
      using assms(6) ChunkWrite w ext cas st stored_snoc[OF st ok(2,3)] store_write_read[OF L(1)]
      by (cases r) auto
  next
    case (ManifestWrite hs)
    then show ?thesis
      using assms(5,6) manifest_step[OF assms(1-3)] by (auto split: sum.splits prod.splits)
  next
    case (Uploaded ok)
    then show ?thesis using assms(5,6) by auto
  qed
  then show "store_extends E p U enc s s'" "pc_ok E p enc jb s' pc'"
    "op_read (l_op E) s (chunk_key p g) = Inr d \<Longrightarrow> op_read (l_op E) s' (chunk_key p g) = Inr d" by blast+
qed

lemma pc_ok_mono:
  assumes "pc_ok E p enc jb s pc" and "job_ok E U enc jb" and "bucket_ok E p U enc s" and "store_extends E p U enc s s'"
    and "\<And>g b. op_read (l_op E) s (chunk_key p g) = Inr b \<Longrightarrow> op_read (l_op E) s' (chunk_key p g) = Inr b"
  shows "pc_ok E p enc jb s' pc"
  using assms stored_mono[OF _ assms(5)] by (cases pc) (auto simp: store_extends_def job_ok_def)

definition race_inv ::
  "'s libs \<Rightarrow> string \<Rightarrow> bytes set \<Rightarrow> EncryptionContext option \<Rightarrow> (nat \<Rightarrow> upload_job) \<Rightarrow> 's \<times> (nat \<Rightarrow> upload_pc) \<Rightarrow> bool" where
  "race_inv E p U enc jobs x \<longleftrightarrow> bucket_ok E p U enc (fst x) \<and> (\<forall>i. pc_ok E p enc (jobs i) (fst x) (snd x i))"

lemma race_step_inv:
  assumes "engine_laws E" and "inj_on (hex_of E) U" and "\<And>i. job_ok E U enc (jobs i)"
    and "race_step E p jobs x y" and "race_inv E p U enc jobs x"
  shows "race_inv E p U enc jobs y \<and> store_extends E p U enc (fst x) (fst y)"
  using assms(4)
proof (cases rule: race_step.cases)
  case (turn i pcs s pc s')
  have inv: "bucket_ok E p U enc s" "\<And>j. pc_ok E p enc (jobs j) s (pcs j)"
    using assms(5) turn by (simp_all add: race_inv_def)
  note safe = upload_op_safe[OF assms(1-3) inv turn(3)]
  have "pc_ok E p enc (jobs j) s' ((pcs(i := pc)) j)" for j
    using safe(2) pc_ok_mono[OF inv(2) assms(3) inv(1) safe(1,3)] by simp
  with safe(1) inv(1) turn show ?thesis by (simp add: race_inv_def store_extends_def)
qed

lemma race_run_inv:
  assumes "engine_laws E" and "inj_on (hex_of E) U" and "\<And>i. job_ok E U enc (jobs i)"
    and "(race_step E p jobs)\<^sup>*\<^sup>* x y" and "race_inv E p U enc jobs x"
  shows "race_inv E p U enc jobs y \<and> store_extends E p U enc (fst x) (fst y)"
  using assms(4,5)
  by induction (auto dest: race_step_inv[OF assms(1-3)] intro: store_extends_trans)

text \<open>
  C5: uploads need no lock. Let any number of uploads to one prefix, plain or encrypted, interleave
  at the level of single storage operations, failing ones included. At every moment the bucket is sound
  and still has everything it had; and as soon as an upload of a non-empty file reports success its
  content can be downloaded, and stays so, whatever the other uploads do (contents without hash
  collision).
\<close>

theorem concurrent_uploads_safe:
  assumes "engine_laws E" and "inj_on (hex_of E) U" and "\<And>i. engine_job E U enc (jobs i)" and "bucket_ok E p U enc s0"
    and "(race_step E p jobs)\<^sup>*\<^sup>* (s0, \<lambda>_. ChunkCheck 0 []) (s, pcs)"
  shows "bucket_ok E p U enc s \<and>
         (\<forall>i. pcs i = Uploaded True \<and> jb_data (jobs i) \<noteq> [] \<longrightarrow> available E p enc s (jb_data (jobs i))) \<and>
         (\<forall>d. d \<in> U \<and> d \<noteq> [] \<and> available E p enc s0 d \<longrightarrow> available E p enc s d)"
proof -
  have "race_inv E p U enc jobs (s0, \<lambda>_. ChunkCheck 0 [])"
    using assms(4) by (simp add: race_inv_def stored_def)
  from race_run_inv[OF assms(1,2) engine_job_ok[OF assms(1,3)] assms(5) this] have inv: "race_inv E p U enc jobs (s, pcs)" and ext: "store_extends E p U enc s0 s"
    by simp_all
  have "available E p enc s (jb_data (jobs i))" if "pcs i = Uploaded True" "jb_data (jobs i) \<noteq> []" for i
    using inv that by (auto simp: race_inv_def dest!: spec[of _ i])
  with inv ext assms(4) show ?thesis by (auto simp: race_inv_def store_extends_def)
qed

text \<open>Two devices upload the same file: both find the chunk missing, both write it, and the first one finishes.\<close>

definition demo_job :: upload_job where
  "demo_job = \<lparr>jb_key = None, jb_nonces = r_nonce demo_rnd, jb_data = [1, 2], jb_chunks = [demo_chunk],
     jb_manifest = (\<lambda>hs. Ok (pushed_manifest\<lparr>chunks := hs\<rparr>))\<rparr>"

lemma demo_job_made: "engine_job (demo_libs m) {[1, 2]} None demo_job"
proof -
  have "upload_job_of (demo_libs m) demo_rnd push_tmp_fs ''d1'' (Some ''n'') None vc_new [demo_chunk] [1, 2] = Inr demo_job"
    using push_tmp_fs_facts(6)
    by (simp add: upload_job_of_def demo_job_def upload_key_def wrapped_key_def pushed_manifest_def fun_eq_iff u64_len_def)
  moreover have "chunk_file (l_hash (demo_libs m)) (l_cdc (demo_libs m)) push_tmp_fs (path_of ''/t/n'') = Inr ([demo_chunk], [1, 2])"
    using push_tmp_fs_facts(4) by simp
  ultimately show ?thesis
    using demo_rnd_good unfolding engine_job_def
    by (intro conjI) (blast, simp_all add: demo_job_def demo_chunk_def blobs_in_def upload_blob_def slice_def)
qed

theorem concurrent_uploads_safe_witness:
  "snd (race_sched (demo_libs pushed_manifest) ''p'' (\<lambda>_. demo_job) [0, 1, 0, 1, 0, 0] (empty_store, \<lambda>_. ChunkCheck 0 [])) 0 =
     Uploaded True \<and>
   available (demo_libs pushed_manifest) ''p'' None
     (fst (race_sched (demo_libs pushed_manifest) ''p'' (\<lambda>_. demo_job) [0, 1, 0, 1, 0, 0] (empty_store, \<lambda>_. ChunkCheck 0 []))) [1, 2]"
proof -
  let ?x = "race_sched (demo_libs pushed_manifest) ''p'' (\<lambda>_. demo_job) [0, 1, 0, 1, 0, 0] (empty_store, \<lambda>_. ChunkCheck 0 [])"
  have fin: "snd ?x 0 = Uploaded True"
    by (simp add: demo_job_def demo_chunk_def upload_blob_def slice_def exists_or_false_def mem_operator_def
        pushed_manifest_def one_manifest_codec_def to_bytes_def demo_hex_def hash_bytes_def hash_to_hex_def)
  have "(race_step (demo_libs pushed_manifest) ''p'' (\<lambda>_. demo_job))\<^sup>*\<^sup>* (empty_store, \<lambda>_. ChunkCheck 0 []) (fst ?x, snd ?x)"
    by (simp only: prod.collapse race_sched_run)
  from concurrent_uploads_safe[OF demo_laws _ demo_job_made demo_fleet_facts(6) this]
  have "jb_data demo_job \<noteq> [] \<longrightarrow> available (demo_libs pushed_manifest) ''p'' None (fst ?x) (jb_data demo_job)"
    using fin by blast
  moreover have "jb_data demo_job = [1, 2]" by (simp add: demo_job_def)
  ultimately show ?thesis using fin by (metis list.distinct(1))
qed

end
