(* ===== verification/File_Provider.thy ===== *)
theory File_Provider
  imports Push_Tree Storage_Operator
begin

text \<open>
  The C interface of the macOS and iOS file provider, \<^verbatim>\<open>crates/tcfs-file-provider/src/lib.rs\<close>:
  creating a provider, enumerating, fetching and uploading. A C string argument is its bytes, or
  \<open>None\<close> for a null pointer; a panic inside a call is caught and reported as an internal error.
  Who owns the memory of the results is the subject of \<^verbatim>\<open>Provider_Memory\<close>.
\<close>

section \<open>Model\<close>

datatype TcfsError = TcfsErrorNone | TcfsErrorInvalidArg | TcfsErrorStorage | TcfsErrorNotFound | TcfsErrorInternal

record TcfsFileItem =
  ti_item_id :: string
  ti_filename :: string
  ti_file_size :: u64
  ti_modified_timestamp :: int
  ti_is_directory :: bool
  ti_content_hash :: string

record 's TcfsProvider =
  pv_operator :: "'s operator"
  pv_remote_prefix :: string

type_synonym c_str = "bytes option"

definition c_arg :: "c_str \<Rightarrow> string option" where
  "c_arg x = Option.bind x from_utf8"

text \<open>The error code of a failed call.\<close>

definition ffi_code :: "err \<Rightarrow> TcfsError" where
  "ffi_code e = (case e of EPanic _ \<Rightarrow> TcfsErrorInternal | _ \<Rightarrow> TcfsErrorStorage)"

text \<open>\<open>parse\<close> is \<^verbatim>\<open>serde_json::from_str\<close>, with what indexing the value yields; \<open>rt_ok\<close> that the runtime starts.\<close>

definition tcfs_provider_new ::
  "(string \<Rightarrow> jobject option) \<Rightarrow> bool \<Rightarrow> 's op_builder \<Rightarrow> c_str \<Rightarrow> 's TcfsProvider option" where
  "tcfs_provider_new parse rt_ok mk config_json =
     (case Option.bind (c_arg config_json) parse of
        None \<Rightarrow> None
      | Some config \<Rightarrow>
          if \<not> rt_ok then None
          else (case build_operator mk
                       \<lparr>oc_endpoint = unwrap_or [] (j_str (config ''s3_endpoint'')), oc_region = ''us-east-1'',
                        oc_bucket = unwrap_or ''tcfs'' (j_str (config ''s3_bucket'')),
                        oc_access_key_id = unwrap_or [] (j_str (config ''s3_access'')),
                        oc_secret_access_key = unwrap_or [] (j_str (config ''s3_secret''))\<rparr> of
                  Inl _ \<Rightarrow> None
                | Inr opr \<Rightarrow> Some \<lparr>pv_operator = opr,
                                   pv_remote_prefix = unwrap_or ''default'' (j_str (config ''remote_prefix''))\<rparr>))"

definition to_c_string :: "string \<Rightarrow> string" where
  "to_c_string s = (if CHR 0x00 \<in> set s then [] else s)"

definition pv_base :: "'s TcfsProvider \<Rightarrow> string" where
  "pv_base P = trim_end_matches slash (pv_remote_prefix P)"

subsection \<open>Enumeration\<close>

fun enum_items :: "(string \<Rightarrow> u64) \<Rightarrow> string \<Rightarrow> string list \<Rightarrow> TcfsFileItem list" where
  "enum_items len pre [] = []"
| "enum_items len pre (ep # eps) =
     (let name = trim_start_matches slash (unwrap_or ep (strip_prefix pre ep))
      in if name = [] then enum_items len pre eps
         else \<lparr>ti_item_id = to_c_string ep, ti_filename = to_c_string (trim_end_matches slash name),
               ti_file_size = len ep, ti_modified_timestamp = 0, ti_is_directory = ends_with [slash] name,
               ti_content_hash = to_c_string []\<rparr> # enum_items len pre eps)"

text \<open>\<open>outs\<close>: both output pointers are valid; \<open>len\<close>: the content length OpenDAL reports for a listed entry.\<close>

definition tcfs_provider_enumerate ::
  "(string \<Rightarrow> u64) \<Rightarrow> 's \<Rightarrow> 's TcfsProvider option \<Rightarrow> c_str \<Rightarrow> bool \<Rightarrow> TcfsError \<times> TcfsFileItem list option" where
  "tcfs_provider_enumerate len s provider pth outs =
     (case (provider, c_arg pth, outs) of
        (Some P, Some rel, True) \<Rightarrow>
          (let pre = index_key (pv_base P) (trim_start_matches slash rel)
           in case op_list (pv_operator P) s pre of
                Inl _ \<Rightarrow> (TcfsErrorStorage, None)
              | Inr eps \<Rightarrow> (TcfsErrorNone, Some (enum_items len pre eps)))
      | _ \<Rightarrow> (TcfsErrorInvalidArg, None))"

subsection \<open>Fetching\<close>

definition item_hash :: "string \<Rightarrow> string" where
  "item_hash text =
     foldl (\<lambda>h l. case strip_prefix ''manifest_hash='' l of Some v \<Rightarrow> v | None \<Rightarrow> h) [] (str_lines text)"

definition pv_hex :: "hasher \<Rightarrow> bytes \<Rightarrow> string" where
  "pv_hex H d = hash_to_hex H (hash_bytes H d)"

fun pv_assemble :: "hasher \<Rightarrow> 's TcfsProvider \<Rightarrow> 's \<Rightarrow> string list \<Rightarrow> bytes res" where
  "pv_assemble H P s [] = Ok []"
| "pv_assemble H P s (h # hs) =
     (case op_read (pv_operator P) s (chunk_key (pv_base P) h) of
        Inl e \<Rightarrow> Inl e
      | Inr d \<Rightarrow>
          if pv_hex H d \<noteq> h then Err (EChunkIntegrity h h (pv_hex H d))
          else (case pv_assemble H P s hs of Inl e \<Rightarrow> Inl e | Inr r \<Rightarrow> Ok (d @ r)))"

definition pv_fetch :: "hasher \<Rightarrow> manifest_codec \<Rightarrow> 's TcfsProvider \<Rightarrow> 's \<Rightarrow> string \<Rightarrow> bytes res" where
  "pv_fetch H M P s item =
     (case op_read (pv_operator P) s item of
        Inl e \<Rightarrow> Inl e
      | Inr d \<Rightarrow>
          (let h = item_hash (from_utf8_lossy d)
           in if h = [] then Err (EMissing ''manifest_hash'')
              else (case op_read (pv_operator P) s (manifest_key (pv_base P) h) of
                      Inl e \<Rightarrow> Inl e
                    | Inr mb \<Rightarrow>
                        (case from_bytes M mb of
                           Inl e \<Rightarrow> Inl e
                         | Inr m \<Rightarrow> pv_assemble H P s (chunk_hashes m)))))"

definition tcfs_provider_fetch ::
  "hasher \<Rightarrow> manifest_codec \<Rightarrow> fs \<Rightarrow> 's \<Rightarrow> 's TcfsProvider option \<Rightarrow> c_str \<Rightarrow> c_str \<Rightarrow> TcfsError \<times> fs" where
  "tcfs_provider_fetch H M f s provider item_id dest_path =
     (case (provider, c_arg item_id, c_arg dest_path) of
        (Some P, Some item, Some dest) \<Rightarrow>
          (case pv_fetch H M P s item of
             Inl e \<Rightarrow> (ffi_code e, f)
           | Inr d \<Rightarrow>
               (case fs_write f (path_of dest) d of
                  (Inl e, f') \<Rightarrow> (ffi_code e, f')
                | (Inr _, f') \<Rightarrow> (TcfsErrorNone, f')))
      | _ \<Rightarrow> (TcfsErrorInvalidArg, f))"

subsection \<open>Uploading\<close>

fun pv_put_chunks :: "hasher \<Rightarrow> 's TcfsProvider \<Rightarrow> bytes \<Rightarrow> 's \<Rightarrow> Chunk list \<Rightarrow> string list res \<times> 's" where
  "pv_put_chunks H P data s [] = (Ok [], s)"
| "pv_put_chunks H P data s (c # cs) =
     (case slice data (ch_offset c) (ch_length c) of
        Inl e \<Rightarrow> (Inl e, s)
      | Inr cd \<Rightarrow>
          (let h = hash_to_hex H (ch_hash c)
           in case op_write (pv_operator P) s (chunk_key (pv_base P) h) cd of
                (Inl e, s') \<Rightarrow> (Inl e, s')
              | (Inr _, s') \<Rightarrow>
                  (case pv_put_chunks H P data s' cs of
                     (Inl e, s'') \<Rightarrow> (Inl e, s'')
                   | (Inr hs, s'') \<Rightarrow> (Ok (h # hs), s''))))"

definition pv_manifest :: "hasher \<Rightarrow> bytes \<Rightarrow> string list \<Rightarrow> string \<Rightarrow> SyncManifest" where
  "pv_manifest H data hs remote =
     \<lparr>version = 2, file_hash = pv_hex H data, file_size = u64_len data, chunks = hs, m_vclock = vc_new,
      written_by = [], written_at = 0, rel_path = Some remote, encrypted_file_key = None\<rparr>"

definition pv_upload ::
  "hasher \<Rightarrow> cdc \<Rightarrow> manifest_codec \<Rightarrow> 's TcfsProvider \<Rightarrow> fs \<Rightarrow> 's \<Rightarrow> string \<Rightarrow> string \<Rightarrow> unit res \<times> 's" where
  "pv_upload H C M P f s local remote =
     (case fs_read f (path_of local) of
        Inl e \<Rightarrow> (Inl e, s)
      | Inr data \<Rightarrow>
          (case chunk_data H C data SMALL of
             Inl e \<Rightarrow> (Inl e, s)
           | Inr cs \<Rightarrow>
               (case pv_put_chunks H P data s cs of
                  (Inl e, s') \<Rightarrow> (Inl e, s')
                | (Inr hs, s') \<Rightarrow>
                    (case to_bytes M (pv_manifest H data hs remote) of
                       Inl e \<Rightarrow> (Inl e, s')
                     | Inr mb \<Rightarrow>
                         (case op_write (pv_operator P) s' (manifest_key (pv_base P) (pv_hex H data)) mb of
                            (Inl e, s'') \<Rightarrow> (Inl e, s'')
                          | (Inr _, s'') \<Rightarrow>
                              op_write (pv_operator P) s'' (index_key (pv_base P) (trim_start_matches slash remote))
                                (bytes_of_str (index_text (pv_hex H data) (u64_len data) (u64_len cs))))))))"

definition tcfs_provider_upload ::
  "hasher \<Rightarrow> cdc \<Rightarrow> manifest_codec \<Rightarrow> fs \<Rightarrow> 's \<Rightarrow> 's TcfsProvider option \<Rightarrow> c_str \<Rightarrow> c_str \<Rightarrow> TcfsError \<times> 's" where
  "tcfs_provider_upload H C M f s provider local_path remote_rel =
     (case (provider, c_arg local_path, c_arg remote_rel) of
        (Some P, Some local, Some remote) \<Rightarrow>
          (case pv_upload H C M P f s local remote of
             (Inl e, s') \<Rightarrow> (ffi_code e, s')
           | (Inr _, s') \<Rightarrow> (TcfsErrorNone, s'))
      | _ \<Rightarrow> (TcfsErrorInvalidArg, s))"


section \<open>The chunk loops\<close>

lemma pv_hex_of: "pv_hex (l_hash E) d = hex_of E d"
  by (simp add: pv_hex_def hex_of_def)

lemma res_map_Inr_iff:
  "(case x of Inl e \<Rightarrow> Inl e | Inr r \<Rightarrow> Inr (g r)) = Inr y \<longleftrightarrow> (\<exists>r. x = Inr r \<and> y = g r)"
  by (cases x) auto

text \<open>
  Three components assemble a file from its chunks: the engine, the file provider and Cloud Files.
  Without a key they promise the same: every chunk is read from the store and has the hash it is
  named by, and the content is their concatenation. The contract determines the result.
\<close>

locale verified_assembly =
  fixes assemble :: "string list \<Rightarrow> bytes res" and load :: "string \<Rightarrow> bytes res" and hex :: "bytes \<Rightarrow> string"
  assumes assemble_Nil: "assemble [] = Inr []"
    and assemble_Cons: "assemble (h # hs) = Inr d \<longleftrightarrow>
          (\<exists>b r. load h = Inr b \<and> hex b = h \<and> assemble hs = Inr r \<and> d = b @ r)"
begin

lemma assemble_iff:
  "assemble hs = Inr d \<longleftrightarrow> (\<exists>bs. list_all2 (\<lambda>h b. load h = Inr b \<and> hex b = h) hs bs \<and> d = concat bs)"
proof (induction hs arbitrary: d)
  case Nil
  then show ?case by (auto simp: assemble_Nil)
next
  case (Cons h hs)
  show ?case
  proof
    assume "assemble (h # hs) = Inr d"
    then obtain b bs where "load h = Inr b" "hex b = h" "list_all2 (\<lambda>h b. load h = Inr b \<and> hex b = h) hs bs" "d = b @ concat bs"
      by (auto simp: assemble_Cons Cons.IH)
    then show "\<exists>bs. list_all2 (\<lambda>h b. load h = Inr b \<and> hex b = h) (h # hs) bs \<and> d = concat bs"
      by (intro exI[of _ "b # bs"]) simp
  qed (auto simp: list_all2_Cons1 assemble_Cons Cons.IH)
qed

lemma assemble_append:
  "assemble (hs @ hs') = Inr d \<longleftrightarrow> (\<exists>a b. assemble hs = Inr a \<and> assemble hs' = Inr b \<and> d = a @ b)"
  by (induction hs arbitrary: d) (auto simp: assemble_Nil assemble_Cons)

end

lemma verified_assembly_unique:
  assumes "verified_assembly f load hex" and "verified_assembly g load hex"
  shows "f hs = Inr d \<longleftrightarrow> g hs = Inr d"
  using verified_assembly.assemble_iff[OF assms(1)] verified_assembly.assemble_iff[OF assms(2)] by simp

lemma fetch_chunks_plain_index: "fetch_chunks E None s p i hs = Inr d \<longleftrightarrow> fetch_chunks E None s p j hs = Inr d"
proof (induction hs arbitrary: i j d)
  case (Cons h hs)
  show ?case
    by (cases "op_read (l_op E) s (chunk_key p h)") (simp_all add: res_map_Inr_iff Cons.IH[of "Suc i" _ "Suc j"])
qed simp

interpretation engine_assembly: verified_assembly "fetch_chunks E None s p i" "\<lambda>h. op_read (l_op E) s (chunk_key p h)" "hex_of E"
  for E s p i
proof
  fix h hs d
  show "fetch_chunks E None s p i (h # hs) = Inr d \<longleftrightarrow>
      (\<exists>b r. op_read (l_op E) s (chunk_key p h) = Inr b \<and> hex_of E b = h \<and> fetch_chunks E None s p i hs = Inr r \<and> d = b @ r)"
    using fetch_chunks_plain_index[of E s p "Suc i" hs _ i]
    by (cases "op_read (l_op E) s (chunk_key p h)") (auto simp: res_map_Inr_iff)
qed simp

interpretation provider_assembly: verified_assembly "pv_assemble H P s"
  "\<lambda>h. op_read (pv_operator P) s (chunk_key (pv_base P) h)" "pv_hex H"
  for H P s
proof
  fix h hs d
  show "pv_assemble H P s (h # hs) = Inr d \<longleftrightarrow>
      (\<exists>b r. op_read (pv_operator P) s (chunk_key (pv_base P) h) = Inr b \<and> pv_hex H b = h \<and> pv_assemble H P s hs = Inr r \<and> d = b @ r)"
    by (cases "op_read (pv_operator P) s (chunk_key (pv_base P) h)") (auto simp: res_map_Inr_iff)
qed simp

lemma pv_assemble_fetch_chunks:
  assumes "pv_operator P = l_op E"
  shows "pv_assemble (l_hash E) P s hs = Inr d \<longleftrightarrow> fetch_chunks E None s (pv_base P) i hs = Inr d"
proof -
  have hex: "pv_hex (l_hash E) = hex_of E" by (simp add: pv_hex_of fun_eq_iff)
  show ?thesis
    by (rule verified_assembly_unique[OF provider_assembly.verified_assembly_axioms[of "l_hash E" P s, unfolded hex assms]
          engine_assembly.verified_assembly_axioms])
qed

lemma pv_put_chunks_Cons_cases:
  assumes "pv_put_chunks H P data s (c # cs) = (r, s')" and "ch_offset c + ch_length c \<le> length data"
  obtains (fail) e where "r = Inl e"
      "op_write (pv_operator P) s (chunk_key (pv_base P) (hash_to_hex H (ch_hash c))) (chunk_bytes_of data c) = (Inl e, s')"
  | (rest) u s1 r1 where
      "op_write (pv_operator P) s (chunk_key (pv_base P) (hash_to_hex H (ch_hash c))) (chunk_bytes_of data c) = (Inr u, s1)"
      "pv_put_chunks H P data s1 cs = (r1, s')"
      "r = (case r1 of Inl e \<Rightarrow> Inl e | Inr hs \<Rightarrow> Inr (hash_to_hex H (ch_hash c) # hs))"
  using assms by (auto simp: chunk_bytes_of_def Let_def split: sum.splits prod.splits)

lemma pv_put_chunks_keeps:
  assumes "store_laws (l_op E)" and "pv_operator P = l_op E" and "inj_on (hex_of E) U"
    and "d \<in> U" and "hex_of E d = g"
  shows "pv_put_chunks (l_hash E) P data s cs = (r, s') \<Longrightarrow> list_all (tagged E data) cs \<Longrightarrow>
    \<forall>c \<in> set cs. chunk_bytes_of data c \<in> U \<Longrightarrow>
    op_read (l_op E) s (chunk_key (pv_base P) g) = Inr d \<Longrightarrow> op_read (l_op E) s' (chunk_key (pv_base P) g) = Inr d"
proof (induction cs arbitrary: s r)
  case (Cons c cs)
  have t: "tagged E data c" and c: "chunk_bytes_of data c \<in> U" using Cons.prems by simp_all
  have h: "hash_to_hex (l_hash E) (ch_hash c) = hex_of E (chunk_bytes_of data c)"
    using t by (simp add: tagged_def hex_of_def)
  have keep: "op_read (l_op E) s1 (chunk_key (pv_base P) g) = Inr d"
    if "op_write (l_op E) s (chunk_key (pv_base P) (hash_to_hex (l_hash E) (ch_hash c))) (chunk_bytes_of data c) = (r1, s1)"
    for r1 s1
  proof (cases "hash_to_hex (l_hash E) (ch_hash c) = g")
    case True
    then have "chunk_bytes_of data c = d" using h assms(3-5) c by (auto dest: inj_onD)
    with store_write_atomic[OF assms(1) that] True Cons.prems(4) show ?thesis by auto
  qed (use store_write_frame[OF assms(1) that, of "chunk_key (pv_base P) g"] Cons.prems(4) in simp)
  from Cons.prems(1) t[unfolded tagged_def, THEN conjunct1] show ?case
  proof (cases rule: pv_put_chunks_Cons_cases)
    case (rest u s1 r1)
    with keep Cons.IH Cons.prems show ?thesis by (simp add: assms(2))
  qed (use keep in \<open>simp add: assms(2)\<close>)
qed simp

lemma pv_put_then_assemble:
  assumes "store_laws (l_op E)" and "pv_operator P = l_op E" and "inj_on (hex_of E) U"
  shows "pv_put_chunks (l_hash E) P data s cs = (Inr hs, s') \<Longrightarrow> list_all (tagged E data) cs \<Longrightarrow>
    \<forall>c \<in> set cs. chunk_bytes_of data c \<in> U \<Longrightarrow>
    pv_assemble (l_hash E) P s' hs = Inr (concat (map (chunk_bytes_of data) cs)) \<and> length hs = length cs"
proof (induction cs arbitrary: s hs)
  case (Cons c cs)
  have t: "tagged E data c" using Cons.prems by simp
  let ?h = "hash_to_hex (l_hash E) (ch_hash c)"
  have h: "?h = hex_of E (chunk_bytes_of data c)"
    using t by (simp add: tagged_def hex_of_def)
  from Cons.prems(1) t[unfolded tagged_def, THEN conjunct1] show ?case
  proof (cases rule: pv_put_chunks_Cons_cases)
    case (rest u s1 r1)
    then obtain hs1 where hs: "hs = ?h # hs1" "r1 = Inr hs1" by (auto split: sum.splits)
    have "op_read (l_op E) s1 (chunk_key (pv_base P) ?h) = Inr (chunk_bytes_of data c)"
      using store_write_read[OF assms(1)] rest(1) by (simp add: assms(2))
    then have "op_read (l_op E) s' (chunk_key (pv_base P) ?h) = Inr (chunk_bytes_of data c)"
      using pv_put_chunks_keeps[OF assms _ h[symmetric] rest(2)] Cons.prems by simp
    with Cons.IH[of s1 hs1] rest(2) hs h Cons.prems show ?thesis
      by (simp add: assms(2) pv_hex_of)
  qed simp
qed simp

section \<open>Fetching what was uploaded\<close>

lemma item_hash_index_text:
  assumes "plain_line h"
  shows "item_hash (index_text h sz n) = h"
  by (simp add: item_hash_def str_lines_index[OF assms] kv_def)

lemma index_object_hash:
  assumes "list_all hex_digit h"
  shows "item_hash (from_utf8_lossy (bytes_of_str (index_text h sz n))) = h"
  using from_utf8_lossy_valid[OF from_utf8_ascii[OF index_text_ascii[OF assms]]]
  by (simp add: item_hash_index_text hex_plain[OF assms])

lemma hex_of_nonempty: "hasher_laws (l_hash E) \<Longrightarrow> hex_of E d \<noteq> []"
  using hasher_hex_length[of "l_hash E" d]
  by (auto simp: hex_of_def hash_to_hex_def hash_bytes_def)

text \<open>A fetch through an index object of the engine's format follows the manifest it names.\<close>

lemma pv_fetch_indexed:
  assumes "hasher_laws (l_hash E)" and "pv_operator P = l_op E"
    and "op_read (l_op E) s item = Inr (bytes_of_str (index_text (hex_of E d) sz n))"
    and "op_read (l_op E) s (manifest_key (pv_base P) (hex_of E d)) = Inr mb"
    and "from_bytes (l_mf E) mb = Inr m"
  shows "pv_fetch (l_hash E) (l_mf E) P s item = pv_assemble (l_hash E) P s (chunks m)"
  using assms hex_of_digits[OF assms(1), of d] hex_of_nonempty[OF assms(1), of d]
  by (simp add: pv_fetch_def index_object_hash chunk_hashes_def)

lemma pv_fetch_writes:
  assumes "pv_fetch (l_hash E) (l_mf E) P s item = Inr d" and "fst (fs_write g (path_of q) d) = Inr ()"
    and "c_arg ib = Some item" and "c_arg qb = Some q"
  shows "\<exists>g'. tcfs_provider_fetch (l_hash E) (l_mf E) g s (Some P) ib qb = (TcfsErrorNone, g') \<and>
           map_option f_data (files g' (path_of q)) = Some d"
proof -
  obtain g' where w: "fs_write g (path_of q) d = (Inr (), g')"
    using assms(2) by (cases "fs_write g (path_of q) d") auto
  with assms(1,3,4) fs_write_content[OF w] show ?thesis
    by (simp add: tcfs_provider_fetch_def)
qed

text \<open>The state of the store after a successful upload.\<close>

lemma pv_upload_stored:
  assumes "engine_laws E" and "pv_operator P = l_op E" and "inj_on (hex_of E) {d. sublist d data}"
    and "fs_read f (path_of lp) = Inr data"
    and "pv_upload (l_hash E) (l_cdc E) (l_mf E) P f s lp rel = (Inr u, s')"
  obtains hs mb n where "op_read (l_op E) s' (index_key (pv_base P) (trim_start_matches slash rel)) =
      Inr (bytes_of_str (index_text (hex_of E data) (u64_len data) n))"
    "op_read (l_op E) s' (manifest_key (pv_base P) (hex_of E data)) = Inr mb"
    "from_bytes (l_mf E) mb = Inr (pv_manifest (l_hash E) data hs rel)"
    "fetch_chunks E None s' (pv_base P) 0 hs = Inr data" "hs = [] \<longleftrightarrow> data = []"
proof -
  note L = engine_lawsD[OF assms(1)]
  obtain cuts where cd: "chunk_data (l_hash E) (l_cdc E) data SMALL = Inr (mk_chunks (l_hash E) data cuts)"
    and cov: "covers 0 cuts (length data)"
    using chunk_data_ok[OF L(3) for_path_sizes(1), of "l_hash E" data] by blast
  define cs where "cs = mk_chunks (l_hash E) data cuts"
  have tg: "list_all (tagged E data) cs"
    unfolding cs_def list_all_iff tagged_def using mk_chunks_slices[OF cov] by blast
  have cat: "concat (map (chunk_bytes_of data) cs) = data" "cs = [] \<longleftrightarrow> data = []"
    using concat_mk_chunks[OF cov, of "l_hash E"] mk_chunks_Nil_iff[OF cov, of "l_hash E"] cs_def by simp_all
  have sub: "\<forall>c \<in> set cs. chunk_bytes_of data c \<in> {d. sublist d data}"
    by (auto simp: chunk_bytes_of_def intro: sublist_order.order.trans[OF sublist_take sublist_drop])
  obtain hs s1 mb s2 where up: "pv_put_chunks (l_hash E) P data s cs = (Inr hs, s1)"
    and mb: "to_bytes (l_mf E) (pv_manifest (l_hash E) data hs rel) = Inr mb"
    and wm: "op_write (l_op E) s1 (manifest_key (pv_base P) (hex_of E data)) mb = (Inr (), s2)"
    and wi: "op_write (l_op E) s2 (index_key (pv_base P) (trim_start_matches slash rel))
        (bytes_of_str (index_text (hex_of E data) (u64_len data) (u64_len cs))) = (Inr u, s')"
    using assms(2,4,5) cd
    by (auto simp: pv_upload_def cs_def pv_hex_of split: sum.splits prod.splits)
  have asm: "pv_assemble (l_hash E) P s1 hs = Inr data" "length hs = length cs"
    using pv_put_then_assemble[OF L(1) assms(2,3) up tg sub] cat(1) by simp_all
  have "fetch_chunks E None s1 (pv_base P) 0 hs = Inr data"
    using asm(1) pv_assemble_fetch_chunks[OF assms(2)] by blast
  moreover have "op_read (l_op E) s' (chunk_key (pv_base P) h) = op_read (l_op E) s1 (chunk_key (pv_base P) h)" for h
    using store_write_frame[OF L(1) wi] store_write_frame[OF L(1) wm] by simp
  ultimately have "fetch_chunks E None s' (pv_base P) 0 hs = Inr data"
    using fetch_chunks_cong[of E s' "pv_base P" s1] by simp
  moreover have "op_read (l_op E) s' (manifest_key (pv_base P) (hex_of E data)) = Inr mb"
    using store_write_frame[OF L(1) wi] store_write_read[OF L(1) wm] by simp
  moreover have "hs = [] \<longleftrightarrow> data = []" using asm(2) cat(2) by auto
  ultimately show thesis
    using that[OF store_write_read[OF L(1) wi] _ to_bytes_from_bytes[OF L(4) mb]] by simp
qed

text \<open>
  C25: a file uploaded through the file provider, an empty one included, is fetched by the provider
  to any place that can be written as exactly the bytes uploaded, and unless it is empty the sync
  engine can download it too, if no two parts of the file have the same hash.
\<close>

theorem file_provider_round_trip:
  assumes "engine_laws E" and "pv_operator P = l_op E" and "inj_on (hex_of E) {d. sublist d data}"
    and "c_arg lb = Some lp" and "c_arg rb = Some rel" and "fs_read f (path_of lp) = Inr data"
    and "tcfs_provider_upload (l_hash E) (l_cdc E) (l_mf E) f s (Some P) lb rb = (TcfsErrorNone, s')"
    and "c_arg ib = Some (index_key (pv_base P) (trim_start_matches slash rel))" and "c_arg qb = Some q"
    and "fst (fs_write g (path_of q) data) = Inr ()"
  shows "(\<exists>g'. tcfs_provider_fetch (l_hash E) (l_mf E) g s' (Some P) ib qb = (TcfsErrorNone, g') \<and>
            map_option f_data (files g' (path_of q)) = Some data) \<and>
         (data \<noteq> [] \<longrightarrow> (\<exists>m. fetch_verified E s' (manifest_key (pv_base P) (hex_of E data)) (pv_base P) enc = Inr (m, data)))"
proof -
  obtain u where "pv_upload (l_hash E) (l_cdc E) (l_mf E) P f s lp rel = (Inr u, s')"
    using assms(4,5,7)
    by (auto simp: tcfs_provider_upload_def ffi_code_def split: prod.splits sum.splits err.splits)
  then obtain hs mb n where ix: "op_read (l_op E) s' (index_key (pv_base P) (trim_start_matches slash rel)) =
      Inr (bytes_of_str (index_text (hex_of E data) (u64_len data) n))"
    and mb: "op_read (l_op E) s' (manifest_key (pv_base P) (hex_of E data)) = Inr mb"
    and m: "from_bytes (l_mf E) mb = Inr (pv_manifest (l_hash E) data hs rel)"
    and fc: "fetch_chunks E None s' (pv_base P) 0 hs = Inr data" and hs: "hs = [] \<longleftrightarrow> data = []"
    using pv_upload_stored[OF assms(1-3,6)] by metis
  have "pv_assemble (l_hash E) P s' hs = Inr data"
    using fc pv_assemble_fetch_chunks[OF assms(2)] by blast
  then have "pv_fetch (l_hash E) (l_mf E) P s' (index_key (pv_base P) (trim_start_matches slash rel)) = Inr data"
    using pv_fetch_indexed[OF engine_lawsD(2)[OF assms(1)] assms(2) ix mb m] by (simp add: pv_manifest_def)
  then have "\<exists>g'. tcfs_provider_fetch (l_hash E) (l_mf E) g s' (Some P) ib qb = (TcfsErrorNone, g') \<and>
      map_option f_data (files g' (path_of q)) = Some data"
    by (rule pv_fetch_writes[OF _ assms(10,8,9)])
  moreover have "fetch_verified E s' (manifest_key (pv_base P) (hex_of E data)) (pv_base P) enc =
      Inr (pv_manifest (l_hash E) data hs rel, data)" if "data \<noteq> []"
    using mb m fc hs that
    by (simp add: fetch_verified_def chunk_hashes_def pv_manifest_def download_key_def pv_hex_of)
  ultimately show ?thesis by blast
qed

section \<open>Encrypted files\<close>

text \<open>Without the key the same chunks assemble to the ciphertexts, 40 bytes longer each.\<close>

lemma fetch_chunks_without_key:
  assumes "aead_laws (l_aead E)"
  shows "fetch_chunks E (Some (fk, fid)) s p i hs = Inr d \<Longrightarrow>
    \<exists>ct. fetch_chunks E None s p j hs = Inr ct \<and> length ct = length d + 40 * length hs"
proof (induction hs arbitrary: i j d)
  case (Cons h hs)
  from Cons.prems obtain b pt r where b: "op_read (l_op E) s (chunk_key p h) = Inr b" "hex_of E b = h"
    and pt: "decrypt_chunk (l_aead E) fk (word_of_nat i) fid b = Inr pt"
    and r: "fetch_chunks E (Some (fk, fid)) s p (Suc i) hs = Inr r" "d = pt @ r"
    by (auto split: sum.splits if_splits)
  have "length b = length pt + 40"
    using decrypt_chunk_length[OF assms pt] .
  moreover obtain ct where "fetch_chunks E None s p (Suc j) hs = Inr ct" "length ct = length r + 40 * length hs"
    using Cons.IH[OF r(1)] by blast
  ultimately show ?case using b r(2) by simp
qed simp

text \<open>
  The file provider does not decrypt. For a file the engine can download with its key, a fetch
  through the file provider reports success and writes the ciphertexts: 40 bytes more for every
  chunk than the file has.
\<close>

theorem file_provider_serves_ciphertext:
  assumes "engine_laws E" and "pv_operator P = l_op E" and "l_crypto E"
    and "fetch_verified E s (manifest_key (pv_base P) (hex_of E d)) (pv_base P) (Some ctx) = Inr (m, data)"
    and "encrypted_file_key m \<noteq> None"
    and "op_read (l_op E) s item = Inr (bytes_of_str (index_text (hex_of E d) sz n))"
    and "c_arg ib = Some item" and "c_arg qb = Some q"
    and "\<forall>x. fst (fs_write g (path_of q) x) = Inr ()"
  shows "\<exists>g' ct. tcfs_provider_fetch (l_hash E) (l_mf E) g s (Some P) ib qb = (TcfsErrorNone, g') \<and>
           map_option f_data (files g' (path_of q)) = Some ct \<and>
           length ct = length data + 40 * length (chunks m) \<and> ct \<noteq> data"
proof -
  obtain mb key where mb: "op_read (l_op E) s (manifest_key (pv_base P) (hex_of E d)) = Inr mb"
    "from_bytes (l_mf E) mb = Inr m" and ne: "chunks m \<noteq> []"
    and key: "download_key E (Some ctx) (manifest_key (pv_base P) (hex_of E d)) m = Inr key"
    and fc: "fetch_chunks E key s (pv_base P) 0 (chunks m) = Inr data"
    using fetch_verified_Ok[OF assms(4)] by metis
  obtain fk fid where "key = Some (fk, fid)"
    using key assms(3,5) by (auto simp: download_key_def split: option.splits sum.splits)
  then obtain ct where ct: "fetch_chunks E None s (pv_base P) 0 (chunks m) = Inr ct"
    "length ct = length data + 40 * length (chunks m)"
    using fc fetch_chunks_without_key[OF engine_lawsD(5)[OF assms(1)]] by blast
  have "pv_fetch (l_hash E) (l_mf E) P s item = Inr ct"
    using pv_fetch_indexed[OF engine_lawsD(2)[OF assms(1)] assms(2,6) mb]
      ct(1) pv_assemble_fetch_chunks[OF assms(2)] by metis
  then obtain g' where "tcfs_provider_fetch (l_hash E) (l_mf E) g s (Some P) ib qb = (TcfsErrorNone, g')"
    "map_option f_data (files g' (path_of q)) = Some ct"
    using pv_fetch_writes[OF _ spec[OF assms(9)] assms(7,8), of E P s ct] by blast
  moreover have "ct \<noteq> data" using ct(2) ne by auto
  ultimately show ?thesis using ct(2) by blast
qed

section \<open>Concrete runs\<close>

definition demo_provider :: "(string \<Rightarrow> bytes option) TcfsProvider" where
  "demo_provider = \<lparr>pv_operator = mem_operator, pv_remote_prefix = ''p/''\<rparr>"

lemma demo_provider_simps [simp]: "pv_operator demo_provider = mem_operator" "pv_base demo_provider = ''p''"
  by (simp_all add: demo_provider_def pv_base_def trim_end_matches_def)

lemma c_arg_ascii [simp]: "ascii_str s \<Longrightarrow> c_arg (Some (bytes_of_str s)) = Some s"
  by (simp add: c_arg_def)

definition provider_manifest :: SyncManifest where
  "provider_manifest = pv_manifest toy_hasher [1, 2] [demo_hex [1, 2]] ''a''"

lemma demo_hex_inj: "inj_on (hex_of (demo_libs m)) {d. sublist d [1, 2]}"
proof (rule inj_onI)
  fix a b :: bytes
  assume ab: "a \<in> {d. sublist d [1, 2]}" "b \<in> {d. sublist d [1, 2]}"
    and eq: "hex_of (demo_libs m) a = hex_of (demo_libs m) b"
  have "h_hash toy_hasher a = h_hash toy_hasher b"
    using eq hasher_hex_inj[OF toy_hasher_laws] by (simp add: demo_hex_def)
  moreover have "length a \<le> 31" "length b \<le> 31"
    using ab by (auto dest!: sublist_length_le)
  ultimately show "a = b" by (simp add: toy_hash_inj)
qed

lemma demo_provider_upload:
  "fst (tcfs_provider_upload toy_hasher whole_cdc (one_manifest_codec provider_manifest) one_file empty_store
     (Some demo_provider) (Some (bytes_of_str ''/a'')) (Some (bytes_of_str ''a''))) = TcfsErrorNone"
proof -
  have small_max: "unat (max_size SMALL) = 16384" by (simp add: SMALL_def)
  have "chunk_data toy_hasher whole_cdc [1, 2] SMALL = Inr [demo_chunk]"
    using whole_cdc_short[OF for_path_sizes(1), of "[1, 2]"] small_max by (simp add: chunk_data_def demo_chunk_def hash_bytes_def)
  moreover have "hash_to_hex toy_hasher (ch_hash demo_chunk) = demo_hex [1, 2]"
    by (simp add: demo_chunk_def demo_hex_def hash_to_hex_def)
  ultimately show ?thesis
    using demo_read
    by (simp add: tcfs_provider_upload_def pv_upload_def ascii_str_def demo_chunk_def mem_operator_def
        to_bytes_def one_manifest_codec_def provider_manifest_def Let_def)
qed

theorem file_provider_round_trip_witness:
  "\<exists>s' g'. tcfs_provider_upload toy_hasher whole_cdc (one_manifest_codec provider_manifest) one_file empty_store
       (Some demo_provider) (Some (bytes_of_str ''/a'')) (Some (bytes_of_str ''a'')) = (TcfsErrorNone, s') \<and>
     tcfs_provider_fetch toy_hasher (one_manifest_codec provider_manifest) one_file s' (Some demo_provider)
       (Some (bytes_of_str ''p/index/a'')) (Some (bytes_of_str ''/b'')) = (TcfsErrorNone, g') \<and>
     map_option f_data (files g' (path_of ''/b'')) = Some [1, 2]"
proof -
  let ?E = "demo_libs provider_manifest"
  let ?up = "tcfs_provider_upload toy_hasher whole_cdc (one_manifest_codec provider_manifest) one_file empty_store
       (Some demo_provider) (Some (bytes_of_str ''/a'')) (Some (bytes_of_str ''a''))"
  obtain s' where up: "?up = (TcfsErrorNone, s')"
    using demo_provider_upload by (cases ?up) simp
  have w: "fst (fs_write one_file (path_of ''/b'') [1, 2]) = Inr ()" by code_simp
  have "c_arg (Some (bytes_of_str ''p/index/a'')) =
      Some (index_key (pv_base demo_provider) (trim_start_matches slash ''a''))"
    by (simp add: index_key_def trim_start_matches_def ascii_str_def)
  from file_provider_round_trip[OF demo_laws _ demo_hex_inj _ _ demo_read _ this _ w,
      of provider_manifest "Some (bytes_of_str ''/a'')" "Some (bytes_of_str ''a'')" empty_store s'
         "Some (bytes_of_str ''/b'')"] up
  show ?thesis by (simp add: ascii_str_def)
qed

definition sealed_store :: "string \<Rightarrow> bytes option" where
  "sealed_store =
     empty_store(manifest_key ''p'' (demo_hex [1, 2]) \<mapsto> bytes_of_str ''{m}'',
       chunk_key ''p'' (demo_hex demo_blob) \<mapsto> demo_blob,
       ''p/index/a'' \<mapsto> bytes_of_str (index_text (demo_hex [1, 2]) 2 1))"

lemma sealed_store_reads:
  "sealed_store (manifest_key ''p'' (demo_hex [1, 2])) = Some (bytes_of_str ''{m}'')"
  "sealed_store (chunk_key ''p'' (demo_hex demo_blob)) = Some demo_blob"
  "sealed_store ''p/index/a'' = Some (bytes_of_str (index_text (demo_hex [1, 2]) 2 1))"
  by (simp_all add: sealed_store_def) (simp_all add: manifest_key_def chunk_key_def)

lemma sealed_store_fetch:
  "fetch_verified (demo_libs demo_manifest) sealed_store (manifest_key ''p'' (demo_hex [1, 2])) ''p'' demo_enc =
     Inr (demo_manifest, [1, 2])"
proof -
  let ?E = "demo_libs demo_manifest" and ?k = "Some (generate_file_key (replicate 32 5), h_hash toy_hasher [1, 2])"
  have m: "file_hash demo_manifest = demo_hex [1, 2]" "chunks demo_manifest = [demo_hex demo_blob]"
    by (simp_all add: demo_manifest_def)
  have "download_key ?E demo_enc r demo_manifest = Inr ?k" for r
    by (rule download_key_of_upload[OF engine_lawsD(5,6)[OF demo_laws] demo_rnd_good])
      (simp_all only: m demo_upload_key demo_wrapped_key)
  moreover have "decrypt_chunk toy_aead (generate_file_key (replicate 32 5)) 0 (h_hash toy_hasher [1, 2]) demo_blob = Inr [1, 2]"
    by (rule decrypt_encrypt_chunk[OF toy_aead_laws, of zero_nonce])
      (simp_all add: toy_encrypt_chunk demo_blob_def zero_nonce_def crypto_sizes)
  moreover have "from_bytes (one_manifest_codec demo_manifest) (bytes_of_str ''{m}'') = Inr demo_manifest"
    by (simp add: from_bytes_def one_manifest_codec_def ascii_str_def)
  ultimately show ?thesis
    by (simp add: fetch_verified_def mem_operator_def sealed_store_reads chunk_hashes_def m)
qed

theorem file_provider_serves_ciphertext_witness:
  "\<exists>g' ct. tcfs_provider_fetch toy_hasher (one_manifest_codec demo_manifest) one_file sealed_store (Some demo_provider)
       (Some (bytes_of_str ''p/index/a'')) (Some (bytes_of_str ''/b'')) = (TcfsErrorNone, g') \<and>
     map_option f_data (files g' (path_of ''/b'')) = Some ct \<and> length ct = 42"
proof -
  have w: "\<forall>x. fst (fs_write one_file (path_of ''/b'') x) = Inr ()"
    by (simp add: fs_write_def one_file_def path_of_def path_parent_def split_on.simps starts_with_def)
  have f: "fetch_verified (demo_libs demo_manifest) sealed_store
      (manifest_key (pv_base demo_provider) (hex_of (demo_libs demo_manifest) [1, 2])) (pv_base demo_provider)
      (Some \<lparr>master_key = zero_master\<rparr>) = Inr (demo_manifest, [1, 2])"
    using sealed_store_fetch by (simp add: demo_enc_def)
  have "op_read (l_op (demo_libs demo_manifest)) sealed_store ''p/index/a'' =
      Inr (bytes_of_str (index_text (hex_of (demo_libs demo_manifest) [1, 2]) 2 1))"
    by (simp add: mem_operator_def sealed_store_reads)
  note run = file_provider_serves_ciphertext[OF demo_laws _ _ f _ this _ _ w,
      of "Some (bytes_of_str ''p/index/a'')" "Some (bytes_of_str ''/b'')"]
  have m: "encrypted_file_key demo_manifest \<noteq> None" "length (chunks demo_manifest) = 1"
    by (simp_all add: demo_manifest_def)
  obtain g' ct where "tcfs_provider_fetch toy_hasher (one_manifest_codec demo_manifest) one_file sealed_store
      (Some demo_provider) (Some (bytes_of_str ''p/index/a'')) (Some (bytes_of_str ''/b'')) = (TcfsErrorNone, g')"
    "map_option f_data (files g' (path_of ''/b'')) = Some ct" "length ct = length [1, 2 :: u8] + 40 * 1"
    using run m by (auto simp: ascii_str_def)
  then show ?thesis by auto
qed

end
