(* ===== verification/Cloud_Files.thy ===== *)
theory Cloud_Files
  imports File_Provider
begin

text \<open>
  The Windows Cloud Files provider (\<^verbatim>\<open>crates/tcfs-cloudfilter\<close>): registering a sync root
  (\<^verbatim>\<open>provider.rs\<close>), placeholders for the remote index (\<^verbatim>\<open>placeholder.rs\<close>) and hydration on demand
  (\<^verbatim>\<open>hydration.rs\<close>). The calls into the Windows API are not there yet: what remains of registering,
  creating, converting and dehydrating is modelled as it is.
\<close>

section \<open>Model\<close>

record PlaceholderInfo =
  ph_relative_path :: path
  ph_file_size :: u64
  ph_modified :: u64
  ph_content_hash :: string
  ph_manifest_path :: string
  ph_is_directory :: bool

text \<open>\<^verbatim>\<open>SyncRootConnection::connect\<close>, \<^verbatim>\<open>disconnect\<close>, \<^verbatim>\<open>unregister\<close> and \<^verbatim>\<open>is_sync_root\<close>.\<close>

definition sync_root_connect :: "fs \<Rightarrow> path \<Rightarrow> unit res \<times> fs" where
  "sync_root_connect f root = fs_create_dir_all f root"

definition sync_root_disconnect :: "fs \<Rightarrow> unit res \<times> fs" where
  "sync_root_disconnect f = (Ok (), f)"

definition sync_root_unregister :: "fs \<Rightarrow> path \<Rightarrow> unit res \<times> fs" where
  "sync_root_unregister f root = (Ok (), f)"

definition is_sync_root :: "fs \<Rightarrow> path \<Rightarrow> bool" where
  "is_sync_root f root = False"

definition create_placeholder :: "fs \<Rightarrow> path \<Rightarrow> PlaceholderInfo \<Rightarrow> unit res \<times> fs" where
  "create_placeholder f root info = fs_ensure_parent f (path_join root (ph_relative_path info))"

definition dehydrate :: "fs \<Rightarrow> path \<Rightarrow> unit res \<times> fs" where
  "dehydrate f p = (Ok (), f)"

definition convert_to_placeholder :: "fs \<Rightarrow> path \<Rightarrow> PlaceholderInfo \<Rightarrow> unit res \<times> fs" where
  "convert_to_placeholder f p info = (Ok (), f)"

text \<open>The fields of an index entry; a later line of the same name wins, an unreadable size counts as 0.\<close>

definition entry_field :: "string \<times> u64 \<Rightarrow> string \<Rightarrow> string \<times> u64" where
  "entry_field acc l =
     (case strip_prefix ''manifest_hash='' l of
        Some v \<Rightarrow> (v, snd acc)
      | None \<Rightarrow> (case strip_prefix ''size='' l of
                   Some v \<Rightarrow> (fst acc, unwrap_or 0 (parse_u64 v))
                 | None \<Rightarrow> acc))"

definition entry_fields :: "string \<Rightarrow> string \<times> u64" where
  "entry_fields text = foldl entry_field ([], 0) (str_lines text)"

definition placeholder_for :: "string \<Rightarrow> u64 \<Rightarrow> string \<Rightarrow> string \<times> u64 \<Rightarrow> PlaceholderInfo" where
  "placeholder_for rprefix now rel flds =
     \<lparr>ph_relative_path = path_of rel, ph_file_size = snd flds, ph_modified = now, ph_content_hash = fst flds,
      ph_manifest_path = manifest_key (trim_end_matches slash rprefix) (fst flds), ph_is_directory = False\<rparr>"

text \<open>The loop over the listed entries; it also returns the placeholders it asked for.\<close>

fun populate_loop ::
  "'s operator \<Rightarrow> 's \<Rightarrow> string \<Rightarrow> string \<Rightarrow> path \<Rightarrow> fs \<Rightarrow> string list \<Rightarrow> PlaceholderInfo list res \<times> fs" where
  "populate_loop opr s rprefix pre root f [] = (Ok [], f)"
| "populate_loop opr s rprefix pre root f (ep # eps) =
     (let rel = unwrap_or ep (strip_prefix pre ep)
      in if rel = [] \<or> ends_with [slash] rel then populate_loop opr s rprefix pre root f eps
         else (case op_read opr s ep of
                 Inl _ \<Rightarrow> populate_loop opr s rprefix pre root f eps
               | Inr d \<Rightarrow>
                   (let flds = entry_fields (from_utf8_lossy d)
                    in if fst flds = [] then populate_loop opr s rprefix pre root f eps
                       else (let info = placeholder_for rprefix (fs_now f) rel flds
                             in case create_placeholder f root info of
                                  (Inl e, f') \<Rightarrow> (Inl e, f')
                                | (Inr _, f') \<Rightarrow>
                                    (case populate_loop opr s rprefix pre root f' eps of
                                       (Inl e, f'') \<Rightarrow> (Inl e, f'')
                                     | (Inr is, f'') \<Rightarrow> (Ok (info # is), f''))))))"

definition populate_root ::
  "'s operator \<Rightarrow> 's \<Rightarrow> fs \<Rightarrow> path \<Rightarrow> string \<Rightarrow> PlaceholderInfo list res \<times> fs" where
  "populate_root opr s f root rprefix =
     (let pre = trim_end_matches slash rprefix @ ''/index/''
      in case op_list opr s pre of
           Inl e \<Rightarrow> (Inl e, f)
         | Inr eps \<Rightarrow> populate_loop opr s rprefix pre root f eps)"

fun cf_assemble :: "hasher \<Rightarrow> 's operator \<Rightarrow> 's \<Rightarrow> string \<Rightarrow> string list \<Rightarrow> bytes res" where
  "cf_assemble H opr s p [] = Ok []"
| "cf_assemble H opr s p (h # hs) =
     (case op_read opr s (chunk_key p h) of
        Inl e \<Rightarrow> Inl e
      | Inr d \<Rightarrow>
          (let actual = hash_to_hex H (hash_bytes H d)
           in if actual \<noteq> h then Err (EChunkIntegrity (chunk_key p h) h actual)
              else (case cf_assemble H opr s p hs of Inl e \<Rightarrow> Inl e | Inr r \<Rightarrow> Ok (d @ r))))"

definition handle_fetch_data ::
  "hasher \<Rightarrow> manifest_codec \<Rightarrow> 's operator \<Rightarrow> 's \<Rightarrow> string \<Rightarrow> bytes \<Rightarrow> bytes res" where
  "handle_fetch_data H M opr s rprefix file_identity =
     (let p = trim_end_matches slash rprefix; mp = manifest_key p (from_utf8_lossy file_identity)
      in case op_read opr s mp of
           Inl e \<Rightarrow> Inl e
         | Inr mb \<Rightarrow>
             (case from_bytes M mb of
                Inl e \<Rightarrow> Inl e
              | Inr m \<Rightarrow>
                  if chunk_hashes m = [] then Err (EEmptyManifest mp)
                  else (case cf_assemble H opr s p (chunk_hashes m) of
                          Inl e \<Rightarrow> Inl e
                        | Inr d \<Rightarrow>
                            (let actual = hash_to_hex H (hash_bytes H d)
                             in if file_hash m \<noteq> [] \<and> actual \<noteq> file_hash m
                                then Err (EFileIntegrity mp (file_hash m) actual) else Ok d))))"

definition handle_cancel_fetch :: "bytes \<Rightarrow> unit res" where
  "handle_cancel_fetch file_identity = Ok ()"

section \<open>Hydration\<close>

interpretation cloud_assembly: verified_assembly "cf_assemble H opr s p" "\<lambda>h. op_read opr s (chunk_key p h)"
  "\<lambda>d. hash_to_hex H (hash_bytes H d)"
  for H opr s p
proof
  fix h hs d
  show "cf_assemble H opr s p (h # hs) = Inr d \<longleftrightarrow>
      (\<exists>b r. op_read opr s (chunk_key p h) = Inr b \<and> hash_to_hex H (hash_bytes H b) = h \<and> cf_assemble H opr s p hs = Inr r \<and> d = b @ r)"
    by (cases "op_read opr s (chunk_key p h)") (auto simp: res_map_Inr_iff Let_def)
qed simp

lemma cf_assemble_fetch_chunks:
  "cf_assemble (l_hash E) (l_op E) s p hs = Inr d \<longleftrightarrow> fetch_chunks E None s p i hs = Inr d"
proof -
  have hex: "(\<lambda>d. hash_to_hex (l_hash E) (hash_bytes (l_hash E) d)) = hex_of E" by (simp add: hex_of_def fun_eq_iff)
  show ?thesis
    by (rule verified_assembly_unique[OF cloud_assembly.verified_assembly_axioms[of "l_hash E" "l_op E" s p, unfolded hex]
          engine_assembly.verified_assembly_axioms])
qed

lemma fetch_without_key:
  assumes "download_key E enc remote m = Inr None" and "op_read (l_op E) s remote = Inr mb"
    and "from_bytes (l_mf E) mb = Inr m"
  shows "fetch_verified E s remote p enc = Inr (m, d) \<longleftrightarrow>
    chunk_hashes m \<noteq> [] \<and> fetch_chunks E None s p 0 (chunk_hashes m) = Inr d \<and> hex_of E d = file_hash m"
  using assms by (auto simp: fetch_verified_def split: sum.splits)

lemma handle_fetch_data_iff:
  assumes "op_read (l_op E) s (manifest_key (trim_end_matches slash rp) (from_utf8_lossy ident)) = Inr mb"
    and "from_bytes (l_mf E) mb = Inr m"
  shows "handle_fetch_data (l_hash E) (l_mf E) (l_op E) s rp ident = Inr d \<longleftrightarrow>
    chunk_hashes m \<noteq> [] \<and> fetch_chunks E None s (trim_end_matches slash rp) 0 (chunk_hashes m) = Inr d \<and>
    (file_hash m = [] \<or> hex_of E d = file_hash m)"
  using assms cf_assemble_fetch_chunks[of E s "trim_end_matches slash rp" "chunk_hashes m" d 0]
  by (cases "cf_assemble (l_hash E) (l_op E) s (trim_end_matches slash rp) (chunk_hashes m)")
    (auto simp: handle_fetch_data_def Let_def hex_of_def)

text \<open>
  C34: hydration through Cloud Files agrees with a download by the engine. For a manifest that states
  the hash of its file (unlike the old text format) and has no file key, both return the same content
  or none. For an encrypted
  file the engine can decrypt, hydration fails rather than return ciphertext, unless the stored
  ciphertext has the hash of the plaintext.
\<close>

theorem cloud_hydration_matches_engine:
  assumes "aead_laws (l_aead E)" and "p = trim_end_matches slash rp" and "h = from_utf8_lossy ident"
    and "op_read (l_op E) s (manifest_key p h) = Inr mb" and "from_bytes (l_mf E) mb = Inr m" and "file_hash m \<noteq> []"
  shows "(encrypted_file_key m = None \<longrightarrow>
            (handle_fetch_data (l_hash E) (l_mf E) (l_op E) s rp ident = Inr d \<longleftrightarrow>
             fetch_verified E s (manifest_key p h) p enc = Inr (m, d))) \<and>
         (l_crypto E \<and> encrypted_file_key m \<noteq> None \<and> fetch_verified E s (manifest_key p h) p enc = Inr (m, d) \<and>
          (\<forall>ct. fetch_chunks E None s p 0 (chunks m) = Inr ct \<and> ct \<noteq> d \<longrightarrow> hex_of E ct \<noteq> hex_of E d) \<longrightarrow>
            (\<exists>e. handle_fetch_data (l_hash E) (l_mf E) (l_op E) s rp ident = Inl e))"
proof (intro conjI impI)
  note hf = handle_fetch_data_iff[of E s rp ident mb m, folded assms(2,3), OF assms(4,5)]
  show "handle_fetch_data (l_hash E) (l_mf E) (l_op E) s rp ident = Inr d \<longleftrightarrow>
      fetch_verified E s (manifest_key p h) p enc = Inr (m, d)" if "encrypted_file_key m = None"
  proof -
    have "download_key E enc (manifest_key p h) m = Inr None" using that by (simp add: download_key_def)
    from fetch_without_key[OF this assms(4,5)] show ?thesis using hf assms(6) by auto
  qed
  assume enc: "l_crypto E \<and> encrypted_file_key m \<noteq> None \<and> fetch_verified E s (manifest_key p h) p enc = Inr (m, d) \<and>
    (\<forall>ct. fetch_chunks E None s p 0 (chunks m) = Inr ct \<and> ct \<noteq> d \<longrightarrow> hex_of E ct \<noteq> hex_of E d)"
  then obtain key where key: "download_key E enc (manifest_key p h) m = Inr key"
    and fc: "fetch_chunks E key s p 0 (chunks m) = Inr d" and fh: "hex_of E d = file_hash m" and ne: "chunks m \<noteq> []"
    using assms(4,5) by (auto elim!: fetch_verified_Ok)
  from key enc obtain fk fid where "key = Some (fk, fid)"
    by (auto simp: download_key_def split: option.splits sum.splits)
  with fc obtain ct where ct: "fetch_chunks E None s p 0 (chunks m) = Inr ct" "length ct = length d + 40 * length (chunks m)"
    using fetch_chunks_without_key[OF assms(1)] by blast
  with ne have "ct \<noteq> d" by auto
  with ct(1) enc fh have "handle_fetch_data (l_hash E) (l_mf E) (l_op E) s rp ident \<noteq> Inr x" for x
    using hf[of x] assms(6) by (auto simp: chunk_hashes_def)
  then show "\<exists>e. handle_fetch_data (l_hash E) (l_mf E) (l_op E) s rp ident = Inl e"
    by (cases "handle_fetch_data (l_hash E) (l_mf E) (l_op E) s rp ident") auto
qed

text \<open>Unlike the engine, hydration accepts a manifest that states no hash, as the old text format does.\<close>

lemma cloud_hydrates_v1:
  assumes "op_read (l_op E) s (manifest_key (trim_end_matches slash rp) (from_utf8_lossy ident)) = Inr mb"
    and "from_bytes (l_mf E) mb = Inr m" and "file_hash m = []" and "chunks m \<noteq> []"
    and "fetch_chunks E None s (trim_end_matches slash rp) 0 (chunks m) = Inr d"
  shows "handle_fetch_data (l_hash E) (l_mf E) (l_op E) s rp ident = Inr d"
  using handle_fetch_data_iff[OF assms(1,2)] assms(3-5) by (simp add: chunk_hashes_def)

section \<open>Placeholders\<close>

text \<open>
  As it stands, populating a sync root creates directories only: no file appears, and the reported
  placeholders are not there.
\<close>

lemma populate_loop_files: "populate_loop opr s rp pre root f eps = (r, f') \<Longrightarrow> files f' = files f"
proof (induction eps arbitrary: f r)
  case (Cons ep eps)
  have cp: "files (snd (create_placeholder g root i)) = files g" for g i
    by (simp add: create_placeholder_def io_simps)
  from Cons.prems show ?case
    by (auto simp: Let_def split: if_splits sum.splits prod.splits dest!: Cons.IH) (metis cp snd_conv)+
qed simp

lemma populate_root_files:
  assumes "populate_root opr s f root rp = (r, f')"
  shows "files f' = files f"
  using assms populate_loop_files by (auto simp: populate_root_def Let_def split: sum.splits)

section \<open>A concrete run\<close>

theorem cloud_hydration_matches_engine_witness:
  "fetch_verified (demo_libs demo_manifest) sealed_store (manifest_key ''p'' (demo_hex [1, 2])) ''p'' demo_enc =
     Inr (demo_manifest, [1, 2]) \<and>
   (\<exists>e. handle_fetch_data toy_hasher (one_manifest_codec demo_manifest) mem_operator sealed_store ''p/''
          (bytes_of_str (demo_hex [1, 2])) = Inl e)"
proof
  let ?E = "demo_libs demo_manifest"
  show fv: "fetch_verified ?E sealed_store (manifest_key ''p'' (demo_hex [1, 2])) ''p'' demo_enc = Inr (demo_manifest, [1, 2])"
    by (rule sealed_store_fetch)
  have m: "chunks demo_manifest = [demo_hex demo_blob]" "encrypted_file_key demo_manifest \<noteq> None"
    and fh: "file_hash demo_manifest \<noteq> []"
    by (simp_all add: demo_manifest_def) code_simp
  have "fetch_chunks ?E None sealed_store ''p'' 0 (chunks demo_manifest) = Inr demo_blob"
    by (simp add: m mem_operator_def sealed_store_reads)
  moreover have "demo_hex demo_blob \<noteq> demo_hex [1, 2]"
    by code_simp
  moreover have "from_utf8_lossy (bytes_of_str (demo_hex [1, 2])) = demo_hex [1, 2]"
  proof (intro from_utf8_lossy_valid from_utf8_ascii)
    show "ascii_str (demo_hex [1, 2])" unfolding ascii_str_def by code_simp
  qed
  moreover have "trim_end_matches slash ''p/'' = ''p''" by code_simp
  ultimately show "\<exists>e. handle_fetch_data toy_hasher (one_manifest_codec demo_manifest) mem_operator sealed_store ''p/''
      (bytes_of_str (demo_hex [1, 2])) = Inl e"
    using cloud_hydration_matches_engine[OF engine_lawsD(5)[OF demo_laws[of demo_manifest]], of "''p''" "''p/''" "demo_hex [1, 2]"
        "bytes_of_str (demo_hex [1, 2])" sealed_store "bytes_of_str ''{m}''" demo_manifest "[1, 2]" demo_enc] m fh fv
    by (auto simp: mem_operator_def sealed_store_reads from_bytes_def one_manifest_codec_def ascii_str_def)
qed

end
