(* ===== verification/Provider_Memory.thy ===== *)
theory Provider_Memory
  imports File_Provider
begin

text \<open>
  Ownership of memory across the C interface of the file provider
  (\<^verbatim>\<open>crates/tcfs-file-provider/src/lib.rs\<close>): what an enumeration hands over to the caller, and the
  functions that take it back. The heap maps addresses to the blocks that are allocated; the null
  pointer is 0 and the allocator is a parameter that returns an unused address. Undefined behaviour
  (freeing what is not allocated, or as the wrong kind or length) is \<open>None\<close>.
\<close>

section \<open>Model\<close>

type_synonym addr = nat

record RawItem =
  ri_item_id :: addr
  ri_filename :: addr
  ri_file_size :: u64
  ri_modified_timestamp :: int
  ri_is_directory :: bool
  ri_content_hash :: addr

datatype block = CStringBlock string | ItemsBlock "RawItem list" | ProviderBlock

type_synonym heap = "addr \<rightharpoonup> block"

definition allocator_laws :: "(heap \<Rightarrow> addr) \<Rightarrow> bool" where
  "allocator_laws fresh \<longleftrightarrow> (\<forall>h. finite (dom h) \<longrightarrow> fresh h \<notin> dom h \<and> fresh h \<noteq> 0)"

definition heap_alloc :: "(heap \<Rightarrow> addr) \<Rightarrow> heap \<Rightarrow> block \<Rightarrow> addr \<times> heap" where
  "heap_alloc fresh h b = (fresh h, h(fresh h \<mapsto> b))"

definition c_string_raw :: "(heap \<Rightarrow> addr) \<Rightarrow> heap \<Rightarrow> string \<Rightarrow> addr \<times> heap" where
  "c_string_raw fresh h s = heap_alloc fresh h (CStringBlock s)"

text \<open>The loop over the listed entries: three strings for every item.\<close>

fun raw_items :: "(heap \<Rightarrow> addr) \<Rightarrow> heap \<Rightarrow> TcfsFileItem list \<Rightarrow> RawItem list \<times> heap" where
  "raw_items fresh h [] = ([], h)"
| "raw_items fresh h (x # xs) =
     (case c_string_raw fresh h (ti_item_id x) of
        (i, h1) \<Rightarrow>
          (case c_string_raw fresh h1 (ti_filename x) of
             (n, h2) \<Rightarrow>
               (case c_string_raw fresh h2 (ti_content_hash x) of
                  (c, h3) \<Rightarrow>
                    (case raw_items fresh h3 xs of
                       (rs, h4) \<Rightarrow>
                         (\<lparr>ri_item_id = i, ri_filename = n, ri_file_size = ti_file_size x,
                           ri_modified_timestamp = ti_modified_timestamp x, ri_is_directory = ti_is_directory x,
                           ri_content_hash = c\<rparr> # rs, h4)))))"

text \<open>
  \<^verbatim>\<open>Box::into_raw\<close> of the boxed slice; an empty slice is not allocated and its pointer dangles, at
  some address \<open>dangling\<close> that is not null. The second result is what the call stores through its
  output pointers.
\<close>

definition enumerate_raw ::
  "(heap \<Rightarrow> addr) \<Rightarrow> addr \<Rightarrow> (string \<Rightarrow> u64) \<Rightarrow> heap \<Rightarrow> 's \<Rightarrow> 's TcfsProvider option \<Rightarrow> c_str \<Rightarrow> bool \<Rightarrow>
   TcfsError \<times> (addr \<times> nat) option \<times> heap" where
  "enumerate_raw fresh dangling len h s provider pth outs =
     (case tcfs_provider_enumerate len s provider pth outs of
        (e, None) \<Rightarrow> (e, None, h)
      | (e, Some items) \<Rightarrow>
          (case raw_items fresh h items of
             (rs, h1) \<Rightarrow>
               if rs = [] then (e, Some (dangling, 0), h1)
               else (case heap_alloc fresh h1 (ItemsBlock rs) of
                       (p, h2) \<Rightarrow> (e, Some (p, length rs), h2))))"

text \<open>\<^verbatim>\<open>Box::into_raw\<close> of the provider, or null.\<close>

definition provider_new_raw ::
  "(heap \<Rightarrow> addr) \<Rightarrow> heap \<Rightarrow> (string \<Rightarrow> jobject option) \<Rightarrow> bool \<Rightarrow> 's op_builder \<Rightarrow> c_str \<Rightarrow> addr \<times> heap" where
  "provider_new_raw fresh h parse rt_ok mk config_json =
     (case tcfs_provider_new parse rt_ok mk config_json of
        None \<Rightarrow> (0, h)
      | Some P \<Rightarrow> heap_alloc fresh h ProviderBlock)"

definition free_c_string :: "heap \<Rightarrow> addr \<Rightarrow> heap option" where
  "free_c_string h p =
     (if p = 0 then Some h
      else (case h p of Some (CStringBlock s) \<Rightarrow> Some (h(p := None)) | _ \<Rightarrow> None))"

definition tcfs_string_free :: "heap \<Rightarrow> addr \<Rightarrow> heap option" where
  "tcfs_string_free h s = free_c_string h s"

definition tcfs_provider_free :: "heap \<Rightarrow> addr \<Rightarrow> heap option" where
  "tcfs_provider_free h p =
     (if p = 0 then Some h else (case h p of Some ProviderBlock \<Rightarrow> Some (h(p := None)) | _ \<Rightarrow> None))"

fun free_items :: "heap \<Rightarrow> RawItem list \<Rightarrow> heap option" where
  "free_items h [] = Some h"
| "free_items h (r # rs) =
     (case free_c_string h (ri_item_id r) of
        None \<Rightarrow> None
      | Some h1 \<Rightarrow>
          (case free_c_string h1 (ri_filename r) of
             None \<Rightarrow> None
           | Some h2 \<Rightarrow>
               (case free_c_string h2 (ri_content_hash r) of
                  None \<Rightarrow> None
                | Some h3 \<Rightarrow> free_items h3 rs)))"

definition tcfs_file_items_free :: "heap \<Rightarrow> addr \<Rightarrow> nat \<Rightarrow> heap option" where
  "tcfs_file_items_free h items count =
     (if items = 0 \<or> count = 0 then Some h
      else (case h items of
              Some (ItemsBlock rs) \<Rightarrow>
                if length rs \<noteq> count then None
                else (case free_items h rs of None \<Rightarrow> None | Some h1 \<Rightarrow> Some (h1(items := None)))
            | _ \<Rightarrow> None))"

section \<open>Ownership\<close>

definition strings_of :: "RawItem \<Rightarrow> addr list" where
  "strings_of r = [ri_item_id r, ri_filename r, ri_content_hash r]"

text \<open>What a list of items owns: distinct strings, each allocated with the text it stands for.\<close>

definition owns :: "heap \<Rightarrow> RawItem list \<Rightarrow> TcfsFileItem list \<Rightarrow> bool" where
  "owns h rs xs \<longleftrightarrow> distinct (concat (map strings_of rs)) \<and> 0 \<notin> set (concat (map strings_of rs)) \<and>
     list_all2 (\<lambda>r x. h (ri_item_id r) = Some (CStringBlock (ti_item_id x)) \<and>
                      h (ri_filename r) = Some (CStringBlock (ti_filename x)) \<and>
                      h (ri_content_hash r) = Some (CStringBlock (ti_content_hash x)) \<and>
                      ri_file_size r = ti_file_size x \<and> ri_is_directory r = ti_is_directory x) rs xs"

lemma heap_allocE:
  assumes "allocator_laws fresh" and "finite (dom h)" and "heap_alloc fresh h b = (p, h')"
  shows "p \<notin> dom h" "p \<noteq> 0" "h' = h(p \<mapsto> b)" "finite (dom h')"
  using assms by (auto simp: heap_alloc_def allocator_laws_def)

lemma raw_items_owns:
  assumes "allocator_laws fresh"
  shows "finite (dom h) \<Longrightarrow> raw_items fresh h xs = (rs, h') \<Longrightarrow>
    finite (dom h') \<and> h \<subseteq>\<^sub>m h' \<and> dom h' = dom h \<union> set (concat (map strings_of rs)) \<and>
    dom h \<inter> set (concat (map strings_of rs)) = {} \<and> owns h' rs xs"
proof (induction xs arbitrary: h rs h')
  case Nil
  then show ?case by (simp add: owns_def)
next
  case (Cons x xs)
  obtain i h1 where 1: "heap_alloc fresh h (CStringBlock (ti_item_id x)) = (i, h1)" by fastforce
  obtain n h2 where 2: "heap_alloc fresh h1 (CStringBlock (ti_filename x)) = (n, h2)" by fastforce
  obtain c h3 where 3: "heap_alloc fresh h2 (CStringBlock (ti_content_hash x)) = (c, h3)" by fastforce
  obtain ts h4 where 4: "raw_items fresh h3 xs = (ts, h4)" by fastforce
  note a = heap_allocE[OF assms Cons.prems(1) 1]
  note b = heap_allocE[OF assms a(4) 2]
  note d = heap_allocE[OF assms b(4) 3]
  note ih = Cons.IH[OF d(4) 4]
  have rs: "rs = \<lparr>ri_item_id = i, ri_filename = n, ri_file_size = ti_file_size x,
      ri_modified_timestamp = ti_modified_timestamp x, ri_is_directory = ti_is_directory x, ri_content_hash = c\<rparr> # ts"
    and h': "h' = h4"
    using Cons.prems(2) 1 2 3 4 by (simp_all add: c_string_raw_def)
  have keep: "h3 q = Some v \<Longrightarrow> h4 q = Some v" for q v using ih by (auto simp: map_le_def dom_def)
  have new: "i \<noteq> n" "i \<noteq> c" "n \<noteq> c" "n \<notin> dom h" "c \<notin> dom h" using a b d by auto
  have "h3 i = Some (CStringBlock (ti_item_id x))" "h3 n = Some (CStringBlock (ti_filename x))"
    "h3 c = Some (CStringBlock (ti_content_hash x))"
    using new by (auto simp: a(3) b(3) d(3))
  then have str: "h4 i = Some (CStringBlock (ti_item_id x))" "h4 n = Some (CStringBlock (ti_filename x))"
    "h4 c = Some (CStringBlock (ti_content_hash x))" "i \<in> dom h3" "n \<in> dom h3" "c \<in> dom h3"
    using keep by auto
  have dom3: "dom h3 = insert i (insert n (insert c (dom h)))" by (auto simp: a(3) b(3) d(3))
  have "h \<subseteq>\<^sub>m h3" using a(1) new by (auto simp: map_le_def a(3) b(3) d(3))
  then have le: "h \<subseteq>\<^sub>m h4" using ih map_le_trans by blast
  have "owns h' rs (x # xs)"
    using ih str new a(2) b(2) d(2) by (auto simp: owns_def rs h' strings_of_def)
  then show ?case
    using ih le dom3 a(1) new by (auto simp: rs h' strings_of_def)
qed

fun free_all :: "heap \<Rightarrow> addr list \<Rightarrow> heap option" where
  "free_all h [] = Some h"
| "free_all h (p # ps) = (case free_c_string h p of None \<Rightarrow> None | Some h1 \<Rightarrow> free_all h1 ps)"

lemma free_items_all: "free_items h rs = free_all h (concat (map strings_of rs))"
  by (induction rs arbitrary: h) (auto simp: strings_of_def split: option.split)

lemma free_all_restrict:
  assumes "distinct ps" and "0 \<notin> set ps" and "\<And>p. p \<in> set ps \<Longrightarrow> \<exists>s. h p = Some (CStringBlock s)"
  shows "free_all h ps = Some (h |` (- set ps))"
  using assms
proof (induction ps arbitrary: h)
  case (Cons p ps)
  obtain s where s: "h p = Some (CStringBlock s)" using Cons.prems(3) by auto
  have "free_all (h(p := None)) ps = Some (h(p := None) |` (- set ps))"
    by (rule Cons.IH) (use Cons.prems in auto)
  moreover have "h(p := None) |` (- set ps) = h |` (- set (p # ps))"
    by (auto simp: restrict_map_def)
  ultimately show ?case using s Cons.prems(2) by (simp add: free_c_string_def)
qed (simp add: restrict_map_def)

lemma owns_update:
  assumes "owns h rs xs" and "p \<notin> dom h"
  shows "owns (h(p \<mapsto> b)) rs xs"
proof -
  have "(h(p \<mapsto> b)) q = Some v" if "h q = Some v" for q v using that assms(2) by auto
  with assms(1) show ?thesis
    unfolding owns_def by (auto simp del: fun_upd_apply elim!: list_all2_mono)
qed

lemma owns_strings:
  assumes "owns h rs xs" and "p \<in> set (concat (map strings_of rs))"
  shows "\<exists>s. h p = Some (CStringBlock s)"
proof -
  obtain r where "r \<in> set rs" "p \<in> set (strings_of r)" using assms(2) by auto
  moreover obtain k where "k < length rs" "r = rs ! k" using calculation(1) by (auto simp: in_set_conv_nth)
  ultimately show ?thesis
    using assms(1) by (auto simp: owns_def strings_of_def dest!: list_all2_nthD[where p = k])
qed

text \<open>Freeing an array together with its strings takes away exactly what its creation added.\<close>

lemma items_free_restores:
  assumes "owns h1 rs items" and "h \<subseteq>\<^sub>m h1" and "dom h1 = dom h \<union> set (concat (map strings_of rs))"
    and "dom h \<inter> set (concat (map strings_of rs)) = {}" and "rs \<noteq> []" and "p \<notin> dom h1" and "p \<noteq> 0"
  shows "tcfs_file_items_free (h1(p \<mapsto> ItemsBlock rs)) p (length rs) = Some h"
proof -
  let ?ps = "concat (map strings_of rs)" and ?h = "h1(p \<mapsto> ItemsBlock rs)"
  note own = owns_update[OF assms(1,6), of "ItemsBlock rs"]
  have "free_items ?h rs = Some (?h |` (- set ?ps))"
    unfolding free_items_all
    by (rule free_all_restrict) (use own owns_strings[OF own] in \<open>auto simp: owns_def\<close>)
  moreover have "(?h |` (- set ?ps))(p := None) = h"
  proof
    fix q
    have out: "q \<notin> set ?ps \<Longrightarrow> h q = None \<Longrightarrow> h1 q = None" using assms(3) by (metis UnE domIff)
    show "((?h |` (- set ?ps))(p := None)) q = h q"
    proof (cases "h q")
      case None
      then show ?thesis using out by (auto simp: restrict_map_def)
    next
      case (Some v)
      then have "q \<in> dom h" by auto
      then have "h1 q = Some v" "q \<notin> set ?ps" "q \<noteq> p" using assms(2-4,6) Some by (auto simp: map_le_def)
      then show ?thesis using Some by (simp add: restrict_map_def)
    qed
  qed
  ultimately show ?thesis using assms(5,7) by (simp add: tcfs_file_items_free_def)
qed

text \<open>
  C26: memory handed out by an enumeration is given back exactly. However the call ends, everything
  allocated before stays as it was; when it fails nothing is allocated; when it succeeds the caller owns an
  array with one entry per listed item whose strings hold the item's texts, and giving the returned
  pointer and count to \<^verbatim>\<open>tcfs_file_items_free\<close> frees each block once and restores the heap: no
  leak, no double free.
\<close>

theorem enumerated_items_freed_exactly:
  assumes "allocator_laws fresh" and "finite (dom h)"
    and "enumerate_raw fresh dangling len h s provider pth outs = (e, out, h')"
  shows "h \<subseteq>\<^sub>m h' \<and>
     (case out of
        None \<Rightarrow> h' = h \<and> e \<noteq> TcfsErrorNone
      | Some (p, n) \<Rightarrow>
          tcfs_file_items_free h' p n = Some h \<and> e = TcfsErrorNone \<and>
          (\<exists>items. tcfs_provider_enumerate len s provider pth outs = (e, Some items) \<and> n = length items \<and>
             (n \<noteq> 0 \<longrightarrow> (\<exists>rs. h' p = Some (ItemsBlock rs) \<and> owns h' rs items))))"
proof (cases "snd (tcfs_provider_enumerate len s provider pth outs)")
  case None
  then show ?thesis
    using assms(3) by (auto simp: enumerate_raw_def tcfs_provider_enumerate_def Let_def
        split: prod.splits option.splits bool.splits sum.splits)
next
  case (Some items)
  then have en: "tcfs_provider_enumerate len s provider pth outs = (TcfsErrorNone, Some items)"
    by (auto simp: tcfs_provider_enumerate_def Let_def split: prod.splits option.splits bool.splits sum.splits)
  obtain rs h1 where ri: "raw_items fresh h items = (rs, h1)" by fastforce
  note o = raw_items_owns[OF assms(1,2) ri]
  have len: "length rs = length items" using o by (auto simp: owns_def dest: list_all2_lengthD)
  show ?thesis
  proof (cases "rs = []")
    case True
    then have "h1 = h" "items = []" using ri len by auto
    with True assms(3) en ri show ?thesis by (auto simp: enumerate_raw_def tcfs_file_items_free_def)
  next
    case False
    obtain p h2 where al: "heap_alloc fresh h1 (ItemsBlock rs) = (p, h2)" by fastforce
    note a = heap_allocE[OF assms(1) _ al]
    have h2: "h2 = h1(p \<mapsto> ItemsBlock rs)" and p: "p \<notin> dom h1" "p \<noteq> 0" using a o by auto
    have out: "e = TcfsErrorNone" "out = Some (p, length rs)" "h' = h2"
      using assms(3) en ri al False by (auto simp: enumerate_raw_def)
    have own: "owns h2 rs items" unfolding h2 by (rule owns_update) (use o p in auto)
    have "tcfs_file_items_free h2 p (length rs) = Some h"
      unfolding h2 by (rule items_free_restores) (use o p False in blast)+
    moreover have "h \<subseteq>\<^sub>m h2" using o p unfolding h2 by (auto simp: map_le_def)
    ultimately show ?thesis using out en len own h2 by auto
  qed
qed

lemma provider_freed_exactly:
  assumes "allocator_laws fresh" and "finite (dom h)" and "provider_new_raw fresh h parse rt_ok mk cfg = (p, h')"
  shows "tcfs_provider_free h' p = Some h"
  using assms heap_allocE(1-3)[OF assms(1,2), of ProviderBlock p h']
  by (auto simp: provider_new_raw_def tcfs_provider_free_def split: option.splits)

text \<open>
  The comment on \<^verbatim>\<open>item_id\<close> tells the caller to free that string itself; a caller that does so and
  then frees the array frees the string twice.
\<close>

lemma item_id_freed_twice:
  assumes "h p = Some (ItemsBlock (r # rs))" and "p \<noteq> 0" and "ri_item_id r \<noteq> 0" and "ri_item_id r \<noteq> p"
    and "tcfs_string_free h (ri_item_id r) = Some h1"
  shows "tcfs_file_items_free h1 p (length (r # rs)) = None"
proof -
  have "h1 = h(ri_item_id r := None)"
    using assms(3,5) by (auto simp: tcfs_string_free_def free_c_string_def split: option.splits block.splits)
  with assms show ?thesis by (simp add: tcfs_file_items_free_def free_c_string_def)
qed

section \<open>A concrete enumeration\<close>

definition first_free :: "heap \<Rightarrow> addr" where
  "first_free h = Suc (Max (insert 0 (dom h)))"

lemma first_free_laws: "allocator_laws first_free"
proof -
  have "first_free h \<notin> dom h" if "finite (dom h)" for h
  proof
    assume "first_free h \<in> dom h"
    then have "first_free h \<le> Max (insert 0 (dom h))" using that by (intro Max_ge) auto
    then show False by (simp add: first_free_def)
  qed
  then show ?thesis by (auto simp: allocator_laws_def first_free_def)
qed

definition listing_provider :: "unit TcfsProvider" where
  "listing_provider =
     \<lparr>pv_operator = \<lparr>op_read = (\<lambda>_ _. Err (EMissing ''object'')), op_write = (\<lambda>s _ _. (Ok (), s)), op_exists = (\<lambda>_ _. Ok False),
                     op_list = (\<lambda>_ _. Ok [''p/index/a''])\<rparr>, pv_remote_prefix = ''p''\<rparr>"

theorem enumerated_items_freed_exactly_witness:
  "\<exists>p n h'. enumerate_raw first_free 8 (\<lambda>_. 3) Map.empty () (Some listing_provider) (Some []) True = (TcfsErrorNone, Some (p, n), h') \<and>
     n = 1 \<and> tcfs_file_items_free h' p n = Some Map.empty"
proof -
  obtain e out h' where run: "enumerate_raw first_free 8 (\<lambda>_. 3) Map.empty () (Some listing_provider) (Some []) True = (e, out, h')"
    using prod_cases3 by blast
  have en: "tcfs_provider_enumerate (\<lambda>_. 3) () (Some listing_provider) (Some []) True =
      (TcfsErrorNone, Some [\<lparr>ti_item_id = ''p/index/a'', ti_filename = ''a'', ti_file_size = 3, ti_modified_timestamp = 0,
         ti_is_directory = False, ti_content_hash = []\<rparr>])"
    by code_simp
  note R = enumerated_items_freed_exactly[OF first_free_laws _ run]
  obtain p n where "out = Some (p, n)"
    using run en by (auto simp: enumerate_raw_def split: prod.splits if_splits)
  with R en run show ?thesis by auto
qed

end
