(* ===== verification/Daemon_Start.thy ===== *)
theory Daemon_Start
  imports Nats_Client Storage_Operator
begin

text \<open>
  The life of a daemon (\<^verbatim>\<open>crates/tcfsd/src/daemon.rs\<close>, \<^verbatim>\<open>run\<close>) from start-up to graceful shutdown, the
  requests that only report (\<^verbatim>\<open>status\<close>, \<^verbatim>\<open>credential_status\<close> and \<^verbatim>\<open>watch\<close> of \<^verbatim>\<open>grpc.rs\<close>), the
  readiness probe (\<^verbatim>\<open>metrics.rs\<close>) and the notifications that trigger a credential reload
  (\<^verbatim>\<open>cred_store.rs\<close>). What start-up calls outside the repository is collected in a record; binding
  the socket creates its file.
\<close>

section \<open>Model: the service object\<close>

record 's TcfsDaemonImpl =
  ti_service :: service
  ti_world :: "'s daemon"
  ti_operator :: "'s operator option"
  ti_creds :: "CredStore option"
  ti_storage_ok :: bool
  ti_endpoint :: string
  ti_name :: string
  ti_conflict_mode :: string
  ti_nats_ok :: bool
  ti_sync_loop :: bool

definition impl_new ::
  "CredStore option \<Rightarrow> TcfsConfig \<Rightarrow> bool \<Rightarrow> StateCache \<Rightarrow> 's operator option \<Rightarrow> string \<Rightarrow> string \<Rightarrow> fs \<Rightarrow> 's \<Rightarrow>
   's TcfsDaemonImpl" where
  "impl_new creds cfg ok st opr dev name f s =
     \<lparr>ti_service = \<lparr>sv_bucket = sg_bucket (cf_storage cfg), sv_device = dev\<rparr>,
      ti_world = \<lparr>w_fs = f, w_store = s, w_cache = st, w_operator = (opr \<noteq> None), w_oplock = False,
                  w_nats = None, w_events = [], w_mounts = []\<rparr>,
      ti_operator = opr, ti_creds = creds, ti_storage_ok = ok, ti_endpoint = sg_endpoint (cf_storage cfg),
      ti_name = name, ti_conflict_mode = sy_conflict_mode (cf_sync cfg), ti_nats_ok = False, ti_sync_loop = False\<rparr>"

definition set_nats :: "(StateEvent \<Rightarrow> bool) \<Rightarrow> 's TcfsDaemonImpl \<Rightarrow> 's TcfsDaemonImpl" where
  "set_nats client d = d\<lparr>ti_nats_ok := True, ti_world := (ti_world d)\<lparr>w_nats := Some client\<rparr>\<rparr>"

record StatusResponse =
  rs_version :: string
  rs_storage_endpoint :: string
  rs_storage_ok :: bool
  rs_nats_ok :: bool
  rs_active_mounts :: u32
  rs_uptime_secs :: u64
  rs_device_id :: string
  rs_device_name :: string
  rs_conflict_mode :: string

definition grpc_status :: "string \<Rightarrow> u64 \<Rightarrow> 's TcfsDaemonImpl \<Rightarrow> StatusResponse" where
  "grpc_status pkg_version elapsed d =
     \<lparr>rs_version = pkg_version, rs_storage_endpoint = ti_endpoint d, rs_storage_ok = ti_storage_ok d,
      rs_nats_ok = ti_nats_ok d, rs_active_mounts = word_of_nat (length (w_mounts (ti_world d))),
      rs_uptime_secs = elapsed, rs_device_id = sv_device (ti_service d), rs_device_name = ti_name d,
      rs_conflict_mode = ti_conflict_mode d\<rparr>"

record CredentialStatusResponse =
  rc_loaded :: bool
  rc_source :: string
  rc_loaded_at :: u64
  rc_needs_reload :: bool

definition grpc_credential_status :: "CredStore option \<Rightarrow> CredentialStatusResponse" where
  "grpc_credential_status store =
     (case store of
        Some cs \<Rightarrow> \<lparr>rc_loaded = True, rc_source = cs_source cs, rc_loaded_at = 0, rc_needs_reload = False\<rparr>
      | None \<Rightarrow> \<lparr>rc_loaded = False, rc_source = ''none'', rc_loaded_at = 0, rc_needs_reload = True\<rparr>)"

section \<open>Model: watching\<close>

datatype notify_kind = NCreate | NModify | NRemove | NAccess | NOther | NAny

fun watch_type :: "notify_kind \<Rightarrow> string option" where
  "watch_type NCreate = Some ''created''"
| "watch_type NModify = Some ''modified''"
| "watch_type NRemove = Some ''deleted''"
| "watch_type NAccess = None"
| "watch_type NOther = None"
| "watch_type NAny = None"

record WatchEvent =
  we_path :: string
  we_event_type :: string
  we_timestamp :: u64

text \<open>One notification, with the time it is handled; an error carries its message.\<close>

definition watch_event :: "u64 \<times> (string + notify_kind \<times> path list) \<Rightarrow> WatchEvent option" where
  "watch_event x =
     (case x of
        (now, Inl msg) \<Rightarrow> Some \<lparr>we_path = [], we_event_type = ''error: '' @ msg, we_timestamp = 0\<rparr>
      | (now, Inr (k, ps)) \<Rightarrow>
          map_option (\<lambda>ty. \<lparr>we_path = (case ps of [] \<Rightarrow> [] | p # _ \<Rightarrow> path_str p), we_event_type = ty,
                            we_timestamp = now\<rparr>) (watch_type k))"

fun watch_all :: "fs \<Rightarrow> (string \<Rightarrow> bool) \<Rightarrow> string list \<Rightarrow> unit res" where
  "watch_all f watchable [] = Ok ()"
| "watch_all f watchable (p # ps) =
     (if \<not> fs_exists f (path_of p) then Err (EMissing p)
      else if \<not> watchable p then Err (EIo ''watch'' p)
      else watch_all f watchable ps)"

definition grpc_watch ::
  "fs \<Rightarrow> (string \<Rightarrow> bool) \<Rightarrow> string list \<Rightarrow> (u64 \<times> (string + notify_kind \<times> path list)) list \<Rightarrow> WatchEvent list outcome" where
  "grpc_watch f watchable ps evs =
     (if ps = [] then Refuse (EMissing ''path'')
      else (case watch_all f watchable ps of
              Inl e \<Rightarrow> Refuse e
            | Inr _ \<Rightarrow> Reply (List.map_filter watch_event evs)))"

text \<open>The file watcher of the credentials queues a reload for a change; the reload task then reloads once.\<close>

definition queues_reload :: "string + notify_kind \<Rightarrow> bool" where
  "queues_reload x = (case x of Inl _ \<Rightarrow> False | Inr k \<Rightarrow> k = NModify \<or> k = NCreate)"

definition watch_credentials ::
  "sops_libs \<Rightarrow> environment \<Rightarrow> jobject res \<Rightarrow> fs \<Rightarrow> TcfsConfig \<Rightarrow> (string + notify_kind) list \<Rightarrow> 's TcfsDaemonImpl \<Rightarrow>
   's TcfsDaemonImpl" where
  "watch_credentials L env juggler f cfg burst d =
     (if list_ex queues_reload burst
      then d\<lparr>ti_creds := reload_credentials L env juggler f (cf_secrets cfg) (cf_storage cfg) (ti_creds d)\<rparr>
      else d)"

section \<open>Model: the readiness probe\<close>

definition readyz :: "'s operator option \<Rightarrow> 's daemon \<Rightarrow> (nat \<times> string) outcome \<times> 's daemon" where
  "readyz opr w =
     release_operator (lock_operator w (\<lambda>w1.
       case opr of
         None \<Rightarrow> (Reply (503, ''no storage operator''), w1)
       | Some x \<Rightarrow> (case check_health x (w_store w1) of
                      Inr _ \<Rightarrow> (Reply (200, ''ready''), w1)
                    | Inl _ \<Rightarrow> (Reply (503, ''storage unreachable''), w1))))"

section \<open>Model: start-up and shutdown\<close>

record 's boot =
  bt_build :: "'s op_builder"
  bt_state :: state_codec
  bt_reg :: reg_codec
  bt_hash :: hasher
  bt_sops :: sops_libs
  bt_env :: environment
  bt_juggler :: "jobject res"
  bt_host :: "string option"
  bt_uuid :: string
  bt_nats :: jetstream
  bt_msgs :: msg_codec

definition device_name :: "'s boot \<Rightarrow> TcfsConfig \<Rightarrow> string" where
  "device_name B cfg = unwrap_or (default_device_name (bt_host B)) (sy_device_name (cf_sync cfg))"

definition registry_path :: "'s boot \<Rightarrow> TcfsConfig \<Rightarrow> path" where
  "registry_path B cfg = unwrap_or (default_registry_path (bt_env B)) (sy_device_identity (cf_sync cfg))"

definition open_state :: "state_codec \<Rightarrow> fs \<Rightarrow> path \<Rightarrow> StateCache res" where
  "open_state J f state_db =
     (case sc_open J f state_db of
        Inr c \<Rightarrow> Ok c
      | Inl _ \<Rightarrow> (case sc_open J f (path_of ''/tmp/tcfsd-state.db.json'') of
                    Inr c \<Rightarrow> Ok c
                  | Inl _ \<Rightarrow> Err (EPanic ''fallback state cache'')))"

definition nats_target :: "environment \<Rightarrow> TcfsConfig \<Rightarrow> string option" where
  "nats_target env cfg =
     (let url = sy_nats_url (cf_sync cfg)
      in if url \<noteq> ''nats://localhost:4222'' \<or> env ''TCFS_NATS_URL'' \<noteq> None
         then Some (unwrap_or url (env ''TCFS_NATS_URL'')) else None)"

definition connect_fleet :: "'s boot \<Rightarrow> TcfsConfig \<Rightarrow> 's TcfsDaemonImpl \<Rightarrow> 's TcfsDaemonImpl" where
  "connect_fleet B cfg d =
     (case nats_target (bt_env B) cfg of
        None \<Rightarrow> d
      | Some url \<Rightarrow>
          if \<not> is_ok (nats_connect (bt_nats B) url) \<or> \<not> is_ok (ensure_streams (bt_nats B)) then d
          else (let client = (\<lambda>ev. is_ok (publish_event (bt_nats B) (bt_msgs B) ev));
                    dev = sv_device (ti_service d);
                    online = DeviceOnline dev 0 (fs_now (w_fs (ti_world d)));
                    w = (if client online then (ti_world d)\<lparr>w_events := w_events (ti_world d) @ [online]\<rparr> else ti_world d)
                in set_nats client (d\<lparr>ti_world := w,
                     ti_sync_loop := is_ok (state_consumer (bt_nats B) (bt_msgs B) dev [])\<rparr>)))"

definition daemon_start :: "'s boot \<Rightarrow> fs \<Rightarrow> 's \<Rightarrow> TcfsConfig \<Rightarrow> 's TcfsDaemonImpl res \<times> fs" where
  "daemon_start B f s cfg =
     (case daemon_identity (bt_reg B) (bt_hash B) (bt_uuid B) f (device_name B cfg) (registry_path B cfg) of
        (dev, _, f1) \<Rightarrow>
          (let creds = (case cred_load (bt_sops B) (bt_env B) (bt_juggler B) f1 (cf_secrets cfg) (cf_storage cfg) of
                          Inr cs \<Rightarrow> Some cs | Inl _ \<Rightarrow> None)
           in case daemon_storage (bt_build B) s (cf_storage cfg) creds of
                Inl e \<Rightarrow> (Inl e, f1)
              | Inr (opr, ok) \<Rightarrow>
                  (case open_state (bt_state B) f1 (sy_state_db (cf_sync cfg)) of
                     Inl e \<Rightarrow> (Inl e, f1)
                   | Inr st \<Rightarrow>
                       (Ok (connect_fleet B cfg (impl_new creds cfg ok st opr dev (device_name B cfg) f1 s)), f1))))"

text \<open>Serving starts with a fresh socket file; one left behind by an earlier run is removed.\<close>

definition serve_socket :: "fs \<Rightarrow> path \<Rightarrow> unit res \<times> fs" where
  "serve_socket f socket =
     (case (if fs_exists f socket then fs_remove_file f socket else (Ok (), f)) of
        (Inl e, f1) \<Rightarrow> (Inl e, f1)
      | (Inr _, f1) \<Rightarrow>
          (case fs_ensure_parent f1 socket of
             (Inl e, f2) \<Rightarrow> (Inl e, f2)
           | (Inr _, f2) \<Rightarrow> fs_create_new f2 socket))"

definition daemon_shutdown :: "state_codec \<Rightarrow> service \<Rightarrow> path \<Rightarrow> 's daemon \<Rightarrow> 's daemon" where
  "daemon_shutdown J S socket w =
     (let w1 = flush_quietly J w;
          w2 = publish_state_event w1 (DeviceOffline (sv_device S) 0 (fs_now (w_fs w1)))
      in w2\<lparr>w_fs := snd (fs_remove_file (w_fs w2) socket)\<rparr>)"

section \<open>Restarting\<close>

text \<open>A cache that agrees with its file.\<close>

definition on_disk :: "state_codec \<Rightarrow> fs \<Rightarrow> StateCache \<Rightarrow> bool" where
  "on_disk J f c \<longleftrightarrow> (\<exists>c2. sc_open J f (db_path c) = Inr c2 \<and> entries c2 = entries c)"

lemma open_on_disk: "sc_open J f p = Inr c \<Longrightarrow> on_disk J f c"
  by (auto simp: on_disk_def sc_open_def split: sum.splits)

lemma sc_open_remove:
  "p \<noteq> q \<Longrightarrow> sc_open J (snd (fs_remove_file f q)) p = sc_open J f p"
  by (simp add: fs_remove_file_def sc_open_def fs_exists_def read_to_string_def fs_read_def)

lemma connect_fleet_frame [simp]:
  "ti_service (connect_fleet B cfg d) = ti_service d"
  "w_cache (ti_world (connect_fleet B cfg d)) = w_cache (ti_world d)"
  by (simp_all add: connect_fleet_def set_nats_def Let_def split: option.split)

lemma daemon_start_OkE:
  assumes "daemon_start B f s cfg = (Inr d, f1)"
  obtains i r st where
    "daemon_identity (bt_reg B) (bt_hash B) (bt_uuid B) f (device_name B cfg) (registry_path B cfg) = (i, r, f1)"
    "open_state (bt_state B) f1 (sy_state_db (cf_sync cfg)) = Inr st"
    "sv_device (ti_service d) = i" "w_cache (ti_world d) = st"
  using assms
  by (auto simp: daemon_start_def Let_def impl_new_def split: prod.splits sum.splits)

lemma flush_quietly_clean:
  assumes "state_codec_laws J" and "dirty (w_cache w) \<or> on_disk J (w_fs w) (w_cache w)"
    and "\<not> dirty (w_cache (flush_quietly J w))"
    and "\<not> fault (w_fs w) OpStat (db_path (w_cache w))" and "\<not> fault (w_fs w) OpRead (db_path (w_cache w))"
  shows "on_disk J (w_fs (flush_quietly J w)) (w_cache w)"
proof (cases "dirty (w_cache w)")
  case True
  obtain x f' c' where fl: "sc_flush J (w_fs w) (w_cache w) = (x, f', c')" using prod_cases3 by blast
  with assms(3) True obtain u where "x = Inr u"
    by (auto simp: flush_quietly_def sc_flush_def split: prod.splits sum.splits option.splits)
  with flush_then_open[OF assms(1) True _ assms(4,5)] fl show ?thesis
    by (auto simp: flush_quietly_def on_disk_def)
next
  case False
  with assms(2) show ?thesis by (simp add: flush_quietly_def sc_flush_def)
qed

lemma daemon_shutdown_fs:
  assumes "daemon_shutdown J S socket w = w'"
  shows "w_fs w' = snd (fs_remove_file (w_fs (flush_quietly J w)) socket)"
    and "w_cache w' = w_cache (flush_quietly J w)"
  using assms by (auto simp: daemon_shutdown_def Let_def)

lemma daemon_shutdown_file:
  assumes "daemon_shutdown J S socket w = w'"
    and "q \<noteq> db_path (w_cache w)" and "q \<noteq> with_extension (db_path (w_cache w)) ''tmp''" and "q \<noteq> socket"
  shows "files (w_fs w') q = files (w_fs w) q" and "fault (w_fs w') = fault (w_fs w)"
proof -
  obtain x f' c' where fl: "sc_flush J (w_fs w) (w_cache w) = (x, f', c')" using prod_cases3 by blast
  then have "w_fs w' = snd (fs_remove_file f' socket)"
    using daemon_shutdown_fs(1)[OF assms(1)] by (simp add: flush_quietly_def)
  with sc_flush_frame[OF fl assms(2,3)] sc_flush_env[OF fl] assms(4)
  show "files (w_fs w') q = files (w_fs w) q" and "fault (w_fs w') = fault (w_fs w)"
    by (simp_all add: fs_remove_file_def)
qed

text \<open>
  C33: a daemon that is shut down in order resumes where it left off. If its registry entry is
  stored and the final flush succeeded, the next start from the files it left behind finds the same
  device identifier, whatever fresh one it could draw, and a state cache with exactly the entries
  of the last run; the registry and the state file are not touched by that start.
\<close>

theorem restart_resumes:
  assumes "reg_codec_laws (bt_reg B)" and "state_codec_laws (bt_state B)"
    and "daemon_start B f s cfg = (Inr d, f1)"
    and "\<forall>op. \<not> fault f op (registry_path B cfg)"
    and "reg_load (bt_reg B) f1 (registry_path B cfg) = Inr r" and "reg_find r (device_name B cfg) = Some x"
    and "files (w_fs w) (registry_path B cfg) = files f1 (registry_path B cfg)" and "fault (w_fs w) = fault f1"
    and "db_path (w_cache w) = sy_state_db (cf_sync cfg)"
    and "dirty (w_cache w) \<or> on_disk (bt_state B) (w_fs w) (w_cache w)"
    and "\<forall>op. \<not> fault (w_fs w) op (sy_state_db (cf_sync cfg))"
    and "daemon_shutdown (bt_state B) (ti_service d) socket w = w'" and "\<not> dirty (w_cache w')"
    and "distinct [registry_path B cfg, sy_state_db (cf_sync cfg), with_extension (sy_state_db (cf_sync cfg)) ''tmp'', socket]"
    and "daemon_start (B\<lparr>bt_uuid := uuid\<rparr>) (w_fs w') s' cfg = (Inr d', f2)"
  shows "sv_device (ti_service d') = sv_device (ti_service d) \<and>
         entries (w_cache (ti_world d')) = entries (w_cache w) \<and> f2 = w_fs w'"
proof -
  let ?p = "registry_path B cfg" and ?J = "bt_state B" and ?db = "sy_state_db (cf_sync cfg)"
  have sd: "files (w_fs w') ?p = files (w_fs w) ?p" "fault (w_fs w') = fault (w_fs w)"
    using daemon_shutdown_file[OF assms(12)] assms(9,14) by auto
  have present: "files f1 ?p \<noteq> None" by (rule reg_found_file[OF assms(5,6)])
  have ld: "reg_load (bt_reg B) (w_fs w') ?p = Inr r"
    using reg_load_file[of "w_fs w'" ?p f1] sd present assms(5,7,8) by simp
  obtain i r0 where id: "daemon_identity (bt_reg B) (bt_hash B) (bt_uuid B) f (device_name B cfg) ?p = (i, r0, f1)"
    and dev: "sv_device (ti_service d) = i"
    using daemon_start_OkE[OF assms(3)] by metis
  have "di_device_id x = i"
    using daemon_identity_stored[OF assms(1) id assms(5,6)] assms(4) by blast
  then have id': "daemon_identity (bt_reg B) (bt_hash B) uuid (w_fs w') (device_name B cfg) ?p = (i, r, w_fs w')"
    using daemon_identity_found[OF ld assms(6)] by simp
  have same: "device_name (B\<lparr>bt_uuid := uuid\<rparr>) cfg = device_name B cfg" "registry_path (B\<lparr>bt_uuid := uuid\<rparr>) cfg = ?p"
    by (simp_all add: device_name_def registry_path_def)
  obtain st where d': "sv_device (ti_service d') = i" "f2 = w_fs w'"
    and st: "open_state ?J (w_fs w') ?db = Inr st" "w_cache (ti_world d') = st"
    using daemon_start_OkE[OF assms(15)] id' by (auto simp: same)
  have "on_disk ?J (w_fs (flush_quietly ?J w)) (w_cache w)"
    using flush_quietly_clean[OF assms(2,10)] assms(9,11,13) daemon_shutdown_fs(2)[OF assms(12)] by simp
  then obtain c2 where "sc_open ?J (w_fs w') ?db = Inr c2" "entries c2 = entries (w_cache w)"
    using daemon_shutdown_fs(1)[OF assms(12)] sc_open_remove[of ?db socket] assms(9,14) by (auto simp: on_disk_def)
  with st have "entries (w_cache (ti_world d')) = entries (w_cache w)" by (simp add: open_state_def)
  with d' dev show ?thesis by simp
qed

section \<open>A wedged daemon\<close>

lemma lock_held: "w_oplock w \<Longrightarrow> release_operator (lock_operator w k) = (Hangs, w)"
  by (simp add: lock_operator_def release_operator_def)

text \<open>
  C36: one automatic pull stops the daemon for good. After the first event of another device that
  calls for a download, the state sync loop is stuck with nothing downloaded, and from then on every
  push and pull request, keeping the local side of a conflict and the readiness probe wait forever
  for the operator mutex.
\<close>

theorem auto_pull_wedges_daemon:
  assumes "w_operator w" and "\<not> w_oplock w" and "d \<noteq> dev"
    and "should_pull (sc_get (w_fs w) (w_cache w) (path_join root (path_of rel))) vc blake3 dev d"
    and "fs_ensure_parent (w_fs w) (path_join root (path_of rel)) = (Inr u, f1)"
  shows "\<exists>w'. state_sync_loop E J ord dev ''auto'' (Some root) rp w
                (Inr (FileSynced d rel blake3 sz vc manifest t) # evs) = (0, w') \<and>
              files (w_fs w') = files (w_fs w) \<and> w_cache w' = w_cache w \<and>
              (\<forall>rn S td reqs. grpc_push E rn S td w' reqs = (Hangs, w')) \<and>
              (\<forall>S remote local. grpc_pull E S w' remote local = (Hangs, w')) \<and>
              (\<forall>S pth. sc_get (w_fs w') (w_cache w') (path_of pth) \<noteq> None \<longrightarrow>
                 grpc_resolve_conflict E J S w' pth ''keep_local'' = (Hangs, w')) \<and>
              (\<forall>opr. readyz opr w' = (Hangs, w'))"
proof -
  obtain w' where run: "state_sync_loop E J ord dev ''auto'' (Some root) rp w
      (Inr (FileSynced d rel blake3 sz vc manifest t) # evs) = (0, w')"
    and w': "w_oplock w'" "w_cache w' = w_cache w" "files (w_fs w') = files (w_fs w)"
    using auto_pull_deadlocks[OF assms] by blast
  have "grpc_push E rn S td w' reqs = (Hangs, w')" "grpc_pull E S w' remote local = (Hangs, w')"
    "readyz opr w' = (Hangs, w')" for rn S td reqs remote local opr
    unfolding grpc_push_def grpc_pull_def readyz_def by (rule lock_held[OF w'(1)])+
  moreover have "grpc_resolve_conflict E J S w' pth ''keep_local'' = (Hangs, w')"
    if "sc_get (w_fs w') (w_cache w') (path_of pth) \<noteq> None" for S pth
    using that lock_held[OF w'(1)] by (auto simp: grpc_resolve_conflict_def keep_local_def Let_def)
  ultimately show ?thesis using run w'(2,3) by (intro exI[of _ w']) simp
qed

section \<open>Concrete runs\<close>

theorem auto_pull_wedges_daemon_witness:
  "\<exists>w'. state_sync_loop (demo_libs demo_manifest) tiny_codec [] ''d1'' ''auto'' (Some (path_of ''/'')) ''p'' demo_daemon
          [Inr (FileSynced ''d2'' ''a'' ''bb'' 2 (tick vc_new ''d2'') ''p/manifests/bb'' 9)] = (0, w') \<and>
        readyz (Some mem_operator) w' = (Hangs, w')"
proof -
  have "fst (fs_ensure_parent one_file (path_of ''/a'')) = Inr ()" by code_simp
  then obtain f1 where "fs_ensure_parent one_file (path_of ''/a'') = (Inr (), f1)"
    by (cases "fs_ensure_parent one_file (path_of ''/a'')") auto
  with auto_pull_wedges_daemon[of demo_daemon "''d2''" "''d1''" "path_of ''/''" "''a''" "tick vc_new ''d2''" "''bb''" "()" f1
      "demo_libs demo_manifest" tiny_codec "[]" "''p''" 2 "''p/manifests/bb''" 9 "[]"]
  show ?thesis using demo_should_pull by (auto simp: demo_join demo_entry)
qed

definition demo_boot :: "(string \<Rightarrow> bytes option) boot" where
  "demo_boot = \<lparr>bt_build = (\<lambda>_. None), bt_state = tiny_codec, bt_reg = one_reg_codec first_registry,
     bt_hash = toy_hasher, bt_sops = toy_sops, bt_env = (\<lambda>_. None), bt_juggler = Inl (EMissing []),
     bt_host = Some ''laptop'', bt_uuid = ''u1'',
     bt_nats = \<lparr>js_connect = (\<lambda>_. False), js_stream = (\<lambda>_. False), js_publish = (\<lambda>_ _. False),
                js_consumer = (\<lambda>_ _. False), js_messages = (\<lambda>_. False)\<rparr>,
     bt_msgs = \<lparr>event_json = (\<lambda>_. None), event_of_json = (\<lambda>_. None), task_json = (\<lambda>_. None), task_of_json = (\<lambda>_. None)\<rparr>\<rparr>"

definition demo_config :: TcfsConfig where
  "demo_config = default_config\<lparr>cf_sync := default_sync\<lparr>sy_device_identity := Some (path_of ''/devices.json''),
     sy_state_db := path_of ''/state.json''\<rparr>\<rparr>"

lemma demo_boot_simps [simp]:
  "device_name (demo_boot\<lparr>bt_uuid := u\<rparr>) demo_config = ''laptop''" "device_name demo_boot demo_config = ''laptop''"
  "registry_path (demo_boot\<lparr>bt_uuid := u\<rparr>) demo_config = path_of ''/devices.json''"
  "registry_path demo_boot demo_config = path_of ''/devices.json''"
  "sy_state_db (cf_sync demo_config) = path_of ''/state.json''"
  "bt_state demo_boot = tiny_codec" "bt_reg demo_boot = one_reg_codec first_registry"
  by (simp_all add: device_name_def registry_path_def demo_boot_def demo_config_def default_config_def
      default_sync_def unwrap_or_def default_device_name_def)

lemma demo_start:
  assumes "daemon_identity (one_reg_codec first_registry) toy_hasher u f ''laptop'' (path_of ''/devices.json'') = (i, r, f1)"
    and "\<not> fs_exists f1 (path_of ''/state.json'')"
  shows "\<exists>d. daemon_start (demo_boot\<lparr>bt_uuid := u\<rparr>) f s demo_config = (Inr d, f1) \<and> w_fs (ti_world d) = f1 \<and>
           w_cache (ti_world d) = \<lparr>db_path = path_of ''/state.json'', entries = (\<lambda>_. None), dirty = False,
             last_nats_seq = 0, sc_device_id = []\<rparr>"
  using assms
  by (simp add: daemon_start_def demo_boot_def cred_load_def load_from_env_def demo_config_def default_config_def
      default_storage_def default_sync_def or_else_def unwrap_or_def daemon_storage_def open_state_def sc_open_def
      Let_def device_name_def registry_path_def default_device_name_def connect_fleet_def nats_target_def impl_new_def)

lemma demo_first_start:
  "\<exists>f1. daemon_identity (one_reg_codec first_registry) toy_hasher ''u1'' one_file ''laptop'' (path_of ''/devices.json'') =
          (''u1'', first_registry, f1) \<and>
        reg_load (one_reg_codec first_registry) f1 (path_of ''/devices.json'') = Inr first_registry \<and>
        \<not> fs_exists f1 (path_of ''/state.json'') \<and> files f1 (path_of ''/sock'') = None \<and> fault f1 = fault one_file"
proof -
  let ?J = "one_reg_codec first_registry" and ?p = "path_of ''/devices.json''"
  obtain f1 where save: "reg_save ?J one_file first_registry ?p = (Inr (), f1)"
    using one_file_saves by blast
  have "reg_load ?J one_file ?p = Inr reg_default"
  proof -
    have "\<not> fs_exists one_file ?p" by code_simp
    then show ?thesis by (simp add: reg_load_def)
  qed
  moreover have "reg_enroll toy_hasher ''u1'' 9 reg_default ''laptop'' (device_public_key toy_hasher ''laptop'') None =
      (''u1'', first_registry)" "reg_find reg_default ''laptop'' = None"
    by (simp_all add: first_registry_def reg_enroll_def reg_find_def reg_default_def)
  moreover have "fs_now one_file = 9" by (simp add: one_file_def)
  ultimately have di: "daemon_identity ?J toy_hasher ''u1'' one_file ''laptop'' ?p = (''u1'', first_registry, f1)"
    using save by (simp add: daemon_identity_def)
  obtain g where g: "g = snd (fs_ensure_parent one_file ?p)" "fs_write g ?p (bytes_of_str ''{r}'') = (Inr (), f1)"
    using reg_save_OkE[OF save] by (auto simp: one_reg_codec_def)
  have "files one_file (path_of ''/state.json'') = None" "files one_file (path_of ''/sock'') = None"
    "\<not> dirs (snd (fs_ensure_parent one_file ?p)) (path_of ''/state.json'')" "path_of ''/state.json'' \<noteq> ?p" "path_of ''/sock'' \<noteq> ?p"
    by code_simp+
  then have "\<not> fs_exists f1 (path_of ''/state.json'')" "files f1 (path_of ''/sock'') = None"
    using fs_write_content[OF g(2)] fs_write_env[OF g(2)] by (simp_all add: fs_exists_def g(1) io_simps)
  moreover have "reg_load ?J f1 ?p = Inr first_registry"
    using reg_load_saved[OF one_reg_codec_laws save] by simp
  ultimately show ?thesis using di reg_save_fault[OF save] by blast
qed

theorem restart_resumes_witness:
  "\<exists>d d' f1. daemon_start demo_boot one_file empty_store demo_config = (Inr d, f1) \<and>
     daemon_start (demo_boot\<lparr>bt_uuid := ''u2''\<rparr>) f1 empty_store demo_config = (Inr d', f1) \<and>
     sv_device (ti_service d') = sv_device (ti_service d)"
proof -
  let ?J = "one_reg_codec first_registry" and ?p = "path_of ''/devices.json''"
  obtain f1 where di: "daemon_identity ?J toy_hasher ''u1'' one_file ''laptop'' ?p = (''u1'', first_registry, f1)"
    and ld: "reg_load ?J f1 ?p = Inr first_registry" and ns: "\<not> fs_exists f1 (path_of ''/state.json'')"
    and sock: "files f1 (path_of ''/sock'') = None" and flt: "fault f1 = fault one_file"
    using demo_first_start by blast
  have same: "demo_boot\<lparr>bt_uuid := ''u1''\<rparr> = demo_boot" by (simp add: demo_boot_def)
  obtain d where st: "daemon_start demo_boot one_file empty_store demo_config = (Inr d, f1)"
    and w: "w_fs (ti_world d) = f1" "w_cache (ti_world d) = \<lparr>db_path = path_of ''/state.json'', entries = (\<lambda>_. None),
      dirty = False, last_nats_seq = 0, sc_device_id = []\<rparr>"
    using demo_start[OF di ns, of empty_store] unfolding same by blast
  obtain x where x: "reg_find first_registry ''laptop'' = Some x"
    by (simp add: first_registry_def reg_enroll_def reg_add_def reg_default_def reg_find_def)
  obtain d' where st': "daemon_start (demo_boot\<lparr>bt_uuid := ''u2''\<rparr>) f1 empty_store demo_config = (Inr d', f1)"
    using demo_start[OF daemon_identity_found[OF ld x] ns] by blast
  have stop: "w_fs (daemon_shutdown (bt_state demo_boot) (ti_service d) (path_of ''/sock'') (ti_world d)) = f1"
    "\<not> dirty (w_cache (daemon_shutdown (bt_state demo_boot) (ti_service d) (path_of ''/sock'') (ti_world d)))"
    using sock w by (simp_all add: daemon_shutdown_def Let_def flush_quietly_def sc_flush_def fs_remove_file_def)
  have disk: "on_disk tiny_codec f1 (w_cache (ti_world d))"
    using ns w by (simp add: on_disk_def sc_open_def)
  have "distinct [?p, path_of ''/state.json'', with_extension (path_of ''/state.json'') ''tmp'', path_of ''/sock'']"
    by code_simp
  moreover have "reg_codec_laws (bt_reg demo_boot)" "state_codec_laws (bt_state demo_boot)"
    by (simp_all add: one_reg_codec_laws tiny_codec_laws)
  ultimately have "sv_device (ti_service d') = sv_device (ti_service d)"
    using restart_resumes[of demo_boot one_file empty_store demo_config d f1 first_registry x "ti_world d" "path_of ''/sock''"
        "daemon_shutdown (bt_state demo_boot) (ti_service d) (path_of ''/sock'') (ti_world d)" "''u2''" empty_store d' f1]
      st st' ld x w disk flt stop
    by simp
  with st st' show ?thesis by blast
qed

end
