(* ===== verification/Tui_App.thy ===== *)
theory Tui_App
  imports Daemon_Start
begin

text \<open>
  The terminal interface (\<^verbatim>\<open>crates/tcfs-tui\<close>): the state of the application and its reaction to keys
  and daemon updates (\<^verbatim>\<open>app.rs\<close>), the poller with its back-off (\<^verbatim>\<open>daemon.rs\<close>), and the arguments and
  event loop of \<^verbatim>\<open>main.rs\<close>. Drawing only reads the state. Vector lengths stay far below the range
  of \<^verbatim>\<open>usize\<close>, so indices are natural numbers.
\<close>

section \<open>Model: the application\<close>

definition HISTORY_LEN :: nat where "HISTORY_LEN = 60"

datatype Tab = Dashboard | Config | Mounts | Secrets | Conflicts

definition ALL_TABS :: "Tab list" where
  "ALL_TABS = [Dashboard, Config, Mounts, Secrets, Conflicts]"

fun tab_title :: "Tab \<Rightarrow> string" where
  "tab_title Dashboard = ''Dashboard''"
| "tab_title Config = ''Config''"
| "tab_title Mounts = ''Mounts''"
| "tab_title Secrets = ''Secrets''"
| "tab_title Conflicts = ''Conflicts''"

fun tab_next :: "Tab \<Rightarrow> Tab" where
  "tab_next Dashboard = Config"
| "tab_next Config = Mounts"
| "tab_next Mounts = Secrets"
| "tab_next Secrets = Conflicts"
| "tab_next Conflicts = Dashboard"

fun tab_prev :: "Tab \<Rightarrow> Tab" where
  "tab_prev Dashboard = Conflicts"
| "tab_prev Config = Dashboard"
| "tab_prev Mounts = Config"
| "tab_prev Secrets = Mounts"
| "tab_prev Conflicts = Secrets"

record PendingConflict =
  pc_rel_path :: string
  pc_local_device :: string
  pc_remote_device :: string
  pc_local_hash :: string
  pc_remote_hash :: string
  pc_detected_at :: u64

record App =
  ap_tab :: Tab
  ap_should_quit :: bool
  ap_daemon_status :: "StatusResponse option"
  ap_cred_status :: "CredentialStatusResponse option"
  ap_config :: TcfsConfig
  ap_connected :: bool
  ap_error :: "string option"
  ap_uptime_history :: "u64 list"
  ap_conflicts :: "PendingConflict list"
  ap_conflict_selected :: nat

definition app_new :: "TcfsConfig \<Rightarrow> App" where
  "app_new cfg = \<lparr>ap_tab = Dashboard, ap_should_quit = False, ap_daemon_status = None, ap_cred_status = None,
     ap_config = cfg, ap_connected = False, ap_error = None, ap_uptime_history = [], ap_conflicts = [],
     ap_conflict_selected = 0\<rparr>"

datatype key_code = KeyChar char | KeyEsc | KeyTab | KeyBackTab | KeyDown | KeyUp | KeyOther

definition select_next :: "App \<Rightarrow> App" where
  "select_next a =
     (if ap_conflicts a \<noteq> []
      then a\<lparr>ap_conflict_selected := (ap_conflict_selected a + 1) mod length (ap_conflicts a)\<rparr> else a)"

definition select_prev :: "App \<Rightarrow> App" where
  "select_prev a =
     (if ap_conflicts a \<noteq> []
      then a\<lparr>ap_conflict_selected := (if ap_conflict_selected a = 0 then length (ap_conflicts a) - 1
                                     else ap_conflict_selected a - 1)\<rparr> else a)"

definition handle_key :: "key_code \<Rightarrow> App \<Rightarrow> App" where
  "handle_key k a =
     (if k = KeyChar CHR ''q'' \<or> k = KeyEsc then a\<lparr>ap_should_quit := True\<rparr>
      else if k = KeyTab then a\<lparr>ap_tab := tab_next (ap_tab a)\<rparr>
      else if k = KeyBackTab then a\<lparr>ap_tab := tab_prev (ap_tab a)\<rparr>
      else if k = KeyChar CHR ''1'' then a\<lparr>ap_tab := Dashboard\<rparr>
      else if k = KeyChar CHR ''2'' then a\<lparr>ap_tab := Config\<rparr>
      else if k = KeyChar CHR ''3'' then a\<lparr>ap_tab := Mounts\<rparr>
      else if k = KeyChar CHR ''4'' then a\<lparr>ap_tab := Secrets\<rparr>
      else if k = KeyChar CHR ''5'' then a\<lparr>ap_tab := Conflicts\<rparr>
      else if (k = KeyChar CHR ''j'' \<or> k = KeyDown) \<and> ap_tab a = Conflicts then select_next a
      else if (k = KeyChar CHR ''k'' \<or> k = KeyUp) \<and> ap_tab a = Conflicts then select_prev a
      else a)"

definition update_status :: "StatusResponse \<Rightarrow> App \<Rightarrow> App" where
  "update_status s a =
     (let h = (if length (ap_uptime_history a) \<ge> HISTORY_LEN then tl (ap_uptime_history a) else ap_uptime_history a)
      in a\<lparr>ap_uptime_history := h @ [rs_uptime_secs s], ap_daemon_status := Some s, ap_connected := True,
           ap_error := None\<rparr>)"

definition update_cred_status :: "CredentialStatusResponse \<Rightarrow> App \<Rightarrow> App" where
  "update_cred_status c a = a\<lparr>ap_cred_status := Some c\<rparr>"

definition set_disconnected :: "string \<Rightarrow> App \<Rightarrow> App" where
  "set_disconnected reason a =
     a\<lparr>ap_connected := False, ap_error := Some reason, ap_daemon_status := None, ap_cred_status := None\<rparr>"

section \<open>Model: the poller\<close>

datatype DaemonUpdate =
    Status StatusResponse
  | Creds CredentialStatusResponse
  | Disconnected string

text \<open>
  One connection: the answers to the two requests of each round, until a status request fails or
  the answers end. The channel stays open as long as the program runs.
\<close>

fun poll_rounds :: "((string + StatusResponse) \<times> (string + CredentialStatusResponse)) list \<Rightarrow> DaemonUpdate list" where
  "poll_rounds [] = []"
| "poll_rounds ((Inl e, c) # rs) = [Disconnected (''status RPC: '' @ e)]"
| "poll_rounds ((Inr s, c) # rs) = Status s # (case c of Inr x \<Rightarrow> [Creds x] | Inl _ \<Rightarrow> []) @ poll_rounds rs"

definition max_backoff :: nat where "max_backoff = 10"

text \<open>The attempts to connect, with the seconds slept after each and the updates sent.\<close>

fun poll_daemon ::
  "string \<Rightarrow> nat \<Rightarrow> (string + ((string + StatusResponse) \<times> (string + CredentialStatusResponse)) list) list \<Rightarrow>
   (DaemonUpdate list \<times> nat) list" where
  "poll_daemon socket backoff [] = []"
| "poll_daemon socket backoff (Inl e # as) =
     ([Disconnected (''connect '' @ socket @ '': '' @ e)], backoff) # poll_daemon socket (min (backoff * 2) max_backoff) as"
| "poll_daemon socket backoff (Inr rounds # as) =
     (poll_rounds rounds, 1) # poll_daemon socket (min (1 * 2) max_backoff) as"

section \<open>Model: arguments and event loop\<close>

fun parse_args :: "path \<Rightarrow> path option \<Rightarrow> string list \<Rightarrow> path \<times> path option" where
  "parse_args cfg sock [] = (cfg, sock)"
| "parse_args cfg sock [a] = (cfg, sock)"
| "parse_args cfg sock (a # b # as) =
     (if a = ''--config'' \<or> a = ''-c'' then parse_args (path_of b) sock as
      else if a = ''--socket'' \<or> a = ''-s'' then parse_args cfg (Some (path_of b)) as
      else parse_args cfg sock (b # as))"

definition tui_config :: "(string \<Rightarrow> TcfsConfig option) \<Rightarrow> fs \<Rightarrow> path \<Rightarrow> TcfsConfig res" where
  "tui_config toml f p =
     (if fs_exists f p
      then (case read_to_string f p of
              Inl e \<Rightarrow> Inl e
            | Inr s \<Rightarrow> Ok (unwrap_or default_config (toml s)))
      else Ok default_config)"

definition tui_start :: "(string \<Rightarrow> TcfsConfig option) \<Rightarrow> fs \<Rightarrow> string list \<Rightarrow> (App \<times> path) res" where
  "tui_start toml f args =
     (case parse_args (path_of ''/etc/tcfs/config.toml'') None args of
        (cfg_path, sock) \<Rightarrow>
          (let shown = (if fs_exists f cfg_path
                        then unwrap_or default_config
                               (toml (case read_to_string f cfg_path of Inr s \<Rightarrow> s | Inl _ \<Rightarrow> []))
                        else default_config)
           in case tui_config toml f cfg_path of
                Inl e \<Rightarrow> Inl e
              | Inr cfg \<Rightarrow> Ok (app_new cfg, unwrap_or (dm_socket (cf_daemon shown)) sock)))"

fun apply_update :: "DaemonUpdate \<Rightarrow> App \<Rightarrow> App" where
  "apply_update (Status s) a = update_status s a"
| "apply_update (Creds c) a = update_cred_status c a"
| "apply_update (Disconnected r) a = set_disconnected r a"

text \<open>One turn of the loop: the pending updates in order, then at most one key.\<close>

definition tui_turn :: "DaemonUpdate list \<times> key_code option \<Rightarrow> App \<Rightarrow> App" where
  "tui_turn x a = (case x of (us, k) \<Rightarrow> (case k of None \<Rightarrow> id | Some c \<Rightarrow> handle_key c) (fold apply_update us a))"

fun tui_loop :: "(DaemonUpdate list \<times> key_code option) list \<Rightarrow> App \<Rightarrow> App" where
  "tui_loop [] a = a"
| "tui_loop (x # xs) a = (let a' = tui_turn x a in if ap_should_quit a' then a' else tui_loop xs a')"

section \<open>Navigation\<close>

lemma tab_cycle: "tab_prev (tab_next t) = t" "tab_next (tab_prev t) = t" "t \<in> set ALL_TABS"
  by (cases t; simp add: ALL_TABS_def)+

lemma tab_reachable: "\<exists>n < length ALL_TABS. (tab_next ^^ n) s = t"
proof -
  have "t \<in> (\<lambda>n. (tab_next ^^ n) s) ` {0, 1, 2, 3, 4}"
    by (cases s; cases t; simp add: numeral_eq_Suc)
  then obtain n where "n \<in> {0, 1, 2, 3, 4}" "t = (tab_next ^^ n) s" by blast
  then show ?thesis by (intro exI[of _ n]) (auto simp: ALL_TABS_def)
qed

section \<open>Bounds\<close>

definition uptimes :: "DaemonUpdate list \<Rightarrow> u64 list" where
  "uptimes us = List.map_filter (\<lambda>u. case u of Status s \<Rightarrow> Some (rs_uptime_secs s) | _ \<Rightarrow> None) us"

text \<open>The last samples of a series, at most \<^verbatim>\<open>HISTORY_LEN\<close> of them.\<close>

definition recent :: "u64 list \<Rightarrow> u64 list" where
  "recent xs = drop (length xs - HISTORY_LEN) xs"

lemma recent_snoc:
  "recent (xs @ [x]) = (if length (recent xs) \<ge> HISTORY_LEN then tl (recent xs) else recent xs) @ [x]"
proof (cases "length xs < 60")
  case False
  then have "length xs - 59 = Suc (length xs - 60)" by simp
  then have "drop (length xs - 59) xs = tl (drop (length xs - 60) xs)" by (simp add: drop_Suc tl_drop)
  with False show ?thesis by (simp add: recent_def HISTORY_LEN_def)
qed (simp add: recent_def HISTORY_LEN_def)

definition selection_ok :: "App \<Rightarrow> bool" where
  "selection_ok a \<longleftrightarrow> (ap_conflicts a = [] \<longrightarrow> ap_conflict_selected a = 0) \<and>
     (ap_conflicts a \<noteq> [] \<longrightarrow> ap_conflict_selected a < length (ap_conflicts a))"

lemma handle_key_frame [simp]:
  "ap_uptime_history (handle_key k a) = ap_uptime_history a" "ap_conflicts (handle_key k a) = ap_conflicts a"
  by (simp_all add: handle_key_def select_next_def select_prev_def)

lemma select_ok:
  assumes "selection_ok a"
  shows "selection_ok (select_next a)" "selection_ok (select_prev a)"
    "selection_ok (a\<lparr>ap_tab := t\<rparr>)" "selection_ok (a\<lparr>ap_should_quit := b\<rparr>)"
  using assms by (auto simp: selection_ok_def select_next_def select_prev_def)

lemma handle_key_selection: "selection_ok a \<Longrightarrow> selection_ok (handle_key k a)"
  by (simp add: handle_key_def select_ok)

lemma apply_update_frame [simp]:
  "ap_conflicts (apply_update u a) = ap_conflicts a" "ap_conflict_selected (apply_update u a) = ap_conflict_selected a"
  by (cases u; simp add: update_status_def update_cred_status_def set_disconnected_def Let_def)+

lemma apply_updates_frame [simp]:
  "ap_conflicts (fold apply_update us a) = ap_conflicts a"
  "ap_conflict_selected (fold apply_update us a) = ap_conflict_selected a"
  by (induction us arbitrary: a) simp_all

lemma apply_updates_history:
  assumes "ap_uptime_history a = recent xs"
  shows "ap_uptime_history (fold apply_update us a) = recent (xs @ uptimes us)"
  using assms
proof (induction us arbitrary: a xs)
  case (Cons u us)
  show ?case
  proof (cases u)
    case (Status s)
    then have "ap_uptime_history (apply_update u a) = recent (xs @ [rs_uptime_secs s])"
      using Cons.prems by (simp add: update_status_def Let_def recent_snoc)
    from Cons.IH[OF this] Status show ?thesis by (simp add: uptimes_def map_filter_simps)
  qed (use Cons in \<open>simp_all add: uptimes_def map_filter_simps update_cred_status_def set_disconnected_def\<close>)
qed (simp add: uptimes_def map_filter_simps)

lemma tui_turn_ok:
  assumes "ap_uptime_history a = recent xs" and "selection_ok a"
  shows "ap_uptime_history (tui_turn x a) = recent (xs @ uptimes (fst x))" and "selection_ok (tui_turn x a)"
    and "ap_conflicts (tui_turn x a) = ap_conflicts a"
proof -
  have "selection_ok (fold apply_update us a)" for us using assms(2) by (simp add: selection_ok_def)
  then show "selection_ok (tui_turn x a)"
    by (auto simp: tui_turn_def handle_key_selection split: prod.split option.split)
qed (simp_all add: tui_turn_def apply_updates_history[OF assms(1)] split: prod.split option.split)

text \<open>The turns the loop serves: up to and including the first one whose key quits.\<close>

definition quits :: "DaemonUpdate list \<times> key_code option \<Rightarrow> bool" where
  "quits x \<longleftrightarrow> snd x = Some (KeyChar CHR ''q'') \<or> snd x = Some KeyEsc"

fun served :: "(DaemonUpdate list \<times> key_code option) list \<Rightarrow> (DaemonUpdate list \<times> key_code option) list" where
  "served [] = []"
| "served (x # xs) = x # (if quits x then [] else served xs)"

lemma apply_updates_quit [simp]: "ap_should_quit (fold apply_update us a) = ap_should_quit a"
proof (induction us arbitrary: a)
  case (Cons u us)
  have "ap_should_quit (apply_update u a) = ap_should_quit a"
    by (cases u) (simp_all add: update_status_def update_cred_status_def set_disconnected_def Let_def)
  with Cons show ?case by simp
qed simp

lemma tui_turn_quit: "\<not> ap_should_quit a \<Longrightarrow> ap_should_quit (tui_turn x a) \<longleftrightarrow> quits x"
  by (auto simp: tui_turn_def quits_def handle_key_def select_next_def select_prev_def split: prod.split option.split)

lemma tui_loop_ok:
  assumes "ap_uptime_history a = recent xs" and "selection_ok a" and "\<not> ap_should_quit a"
  shows "ap_uptime_history (tui_loop ts a) = recent (xs @ uptimes (concat (map fst (served ts)))) \<and>
         selection_ok (tui_loop ts a) \<and> ap_conflicts (tui_loop ts a) = ap_conflicts a \<and>
         (ap_should_quit (tui_loop ts a) \<longleftrightarrow> (\<exists>x \<in> set ts. quits x))"
  using assms
proof (induction ts arbitrary: a xs)
  case Nil
  then show ?case by (simp add: uptimes_def map_filter_simps)
next
  case (Cons x ts)
  note ok = tui_turn_ok[OF Cons.prems(1,2), of x] and quit = tui_turn_quit[OF Cons.prems(3), of x]
  have app: "uptimes (us @ vs) = uptimes us @ uptimes vs" for us vs
    by (simp add: uptimes_def List.map_filter_def)
  show ?case
    using ok quit Cons.IH[OF ok(1,2)] by (cases "quits x") (simp_all add: Let_def app)
qed

text \<open>
  C39: the interface stays within its bounds whatever keys are pressed and whatever the daemon
  answers. It serves the turns up to the first key that quits; its uptime history is then exactly the
  last 60 of all samples received in them, in order; the list of conflicts is the one it had and the
  selected conflict is always one of the list, so no index is ever out of range.
\<close>

theorem tui_state_bounded:
  "let a = tui_loop ts ((app_new cfg)\<lparr>ap_conflicts := cs\<rparr>); xs = uptimes (concat (map fst (served ts))) in
     ap_uptime_history a = drop (length xs - 60) xs \<and>
     ap_conflicts a = cs \<and> (if cs = [] then ap_conflict_selected a = 0 else ap_conflict_selected a < length cs) \<and>
     (ap_should_quit a \<longleftrightarrow> (\<exists>x \<in> set ts. quits x))"
proof -
  let ?a = "(app_new cfg)\<lparr>ap_conflicts := cs\<rparr>"
  have "ap_uptime_history ?a = recent []" "selection_ok ?a" "\<not> ap_should_quit ?a"
    by (simp_all add: app_new_def recent_def selection_ok_def)
  from tui_loop_ok[OF this, of ts] show ?thesis
    by (auto simp: Let_def selection_ok_def recent_def HISTORY_LEN_def)
qed

text \<open>The poller waits between one and ten seconds after every attempt, doubling up to the limit.\<close>

lemma poll_daemon_backoff:
  assumes "1 \<le> b" and "b \<le> 10" and "(us, t) \<in> set (poll_daemon socket b as)"
  shows "1 \<le> t \<and> t \<le> 10"
  using assms
  by (induction socket b as rule: poll_daemon.induct) (auto simp: max_backoff_def)

text \<open>
  A configuration file that does not parse is an error for the command line and the daemon, but the
  terminal interface shows the defaults instead.
\<close>

lemma tui_hides_parse_error:
  assumes "fs_exists f p" and "read_to_string f p = Inr s" and "toml s = None"
  shows "\<not> is_ok (load_config toml f p)" and "tui_config toml f p = Inr default_config"
  using assms by (simp_all add: load_config_def tui_config_def ok_or_def unwrap_or_def)

end
