(* ===== verification/Cred_Rotation.thy ===== *)
theory Cred_Rotation
  imports Secret_Store "HOL-Library.Multiset"
begin

text \<open>
  Credential rotation, \<^verbatim>\<open>crates/tcfs-secrets/src/rotate.rs\<close>: rebuilding the YAML document with the
  new keys, re-encrypting it with the \<^verbatim>\<open>sops\<close> command and replacing the file, and the clean-up of old
  backups. YAML text and the \<^verbatim>\<open>sops\<close> command are parameters; what \<^verbatim>\<open>read_dir\<close> reports is an argument.
\<close>

section \<open>Model\<close>

record RotationResult =
  rr_path :: path
  rr_rotated_at :: u64
  rr_backup_created :: bool

definition replace_tmp :: "path \<Rightarrow> path" where
  "replace_tmp p =
     path_child (case path_parent p of Some q \<Rightarrow> q | None \<Rightarrow> path_of ''.'')
       (CHR ''.'' # (case file_name p of Some n \<Rightarrow> n | None \<Rightarrow> []) @ ''.tmp'')"

definition atomic_replace :: "fs \<Rightarrow> path \<Rightarrow> string \<Rightarrow> unit res \<times> fs" where
  "atomic_replace f p new_content = fs_replace f (replace_tmp p) p (bytes_of_str new_content)"

record yaml_codec =
  yaml_parse :: "string \<Rightarrow> yaml option"
  yaml_print :: "yaml \<Rightarrow> string option"

text \<open>
  \<^verbatim>\<open>Mapping::remove\<close> moves the last entry into the gap; \<^verbatim>\<open>Mapping::insert\<close> replaces the value in place
  or appends.
\<close>

definition y_remove :: "string \<Rightarrow> (yaml \<times> yaml) list \<Rightarrow> (yaml \<times> yaml) list" where
  "y_remove k m =
     (case dropWhile (\<lambda>e. fst e \<noteq> YStr k) m of
        [] \<Rightarrow> m
      | x # [] \<Rightarrow> takeWhile (\<lambda>e. fst e \<noteq> YStr k) m
      | x # post \<Rightarrow> takeWhile (\<lambda>e. fst e \<noteq> YStr k) m @ last post # butlast post)"

fun y_insert :: "string \<Rightarrow> yaml \<Rightarrow> (yaml \<times> yaml) list \<Rightarrow> (yaml \<times> yaml) list" where
  "y_insert k v [] = [(YStr k, v)]"
| "y_insert k v (e # m) = (if fst e = YStr k then (YStr k, v) # m else e # y_insert k v m)"

definition rotate_doc :: "string \<Rightarrow> string \<Rightarrow> yaml \<Rightarrow> yaml" where
  "rotate_doc ak sk doc =
     (case doc of
        YMap m \<Rightarrow> YMap (y_insert ''secret_access_key'' (YStr sk) (y_insert ''access_key_id'' (YStr ak) (y_remove ''sops'' m)))
      | _ \<Rightarrow> doc)"

definition build_rotated_yaml :: "yaml_codec \<Rightarrow> string \<Rightarrow> string \<Rightarrow> string \<Rightarrow> string res" where
  "build_rotated_yaml Y current ak sk =
     (case yaml_parse Y current of
        None \<Rightarrow> Err (EParse ''credential YAML'' [])
      | Some doc \<Rightarrow> ok_or (ESerialize ''YAML'') (yaml_print Y (rotate_doc ak sk doc)))"

definition rotation_backup :: "fs \<Rightarrow> path \<Rightarrow> path" where
  "rotation_backup f cred_file = with_extension cred_file (''yaml.bak.'' @ dec_of_u64 (fs_now f))"

text \<open>The last component of the result is the time sent to the credential watchers, if any.\<close>

definition rotate_s3_credentials ::
  "yaml_codec \<Rightarrow> (string \<Rightarrow> path \<Rightarrow> string res) \<Rightarrow> fs \<Rightarrow> path \<Rightarrow> string \<Rightarrow> string \<Rightarrow> bool \<Rightarrow>
   RotationResult res \<times> fs \<times> u64 option" where
  "rotate_s3_credentials Y sops_encrypt f cred_file ak sk watched =
     (if \<not> fs_exists f cred_file then (Err (EMissing (path_str cred_file)), f, None)
      else (case fs_copy f cred_file (rotation_backup f cred_file) of
              (b, f1) \<Rightarrow>
                (case read_to_string f1 cred_file of
                   Inl e \<Rightarrow> (Inl e, f1, None)
                 | Inr current \<Rightarrow>
                     (case build_rotated_yaml Y current ak sk of
                        Inl e \<Rightarrow> (Inl e, f1, None)
                      | Inr plaintext \<Rightarrow>
                          (case sops_encrypt plaintext cred_file of
                             Inl e \<Rightarrow> (Inl e, f1, None)
                           | Inr encrypted \<Rightarrow>
                               (case atomic_replace f1 cred_file encrypted of
                                  (Inl e, f2) \<Rightarrow> (Inl e, f2, None)
                                | (Inr _, f2) \<Rightarrow>
                                    (Ok \<lparr>rr_path = cred_file, rr_rotated_at = fs_now f, rr_backup_created = is_ok b\<rparr>,
                                     f2, if watched then Some (fs_now f) else None)))))))"

fun str_contains :: "string \<Rightarrow> string \<Rightarrow> bool" where
  "str_contains p [] \<longleftrightarrow> p = []"
| "str_contains p (c # s) \<longleftrightarrow> starts_with p (c # s) \<or> str_contains p s"

definition is_backup :: "path \<Rightarrow> string \<Rightarrow> bool" where
  "is_backup cred_file name \<longleftrightarrow>
     starts_with (case file_name cred_file of Some n \<Rightarrow> n | None \<Rightarrow> []) name \<and> str_contains ''.bak.'' name"

fun collect_backups :: "path \<Rightarrow> (string \<times> path) res list \<Rightarrow> (string \<times> path) list res" where
  "collect_backups cred_file [] = Ok []"
| "collect_backups cred_file (Inl e # es) = Inl e"
| "collect_backups cred_file (Inr x # es) =
     (case collect_backups cred_file es of
        Inl e \<Rightarrow> Inl e
      | Inr bs \<Rightarrow> Ok (if is_backup cred_file (fst x) then x # bs else bs))"

fun remove_backups :: "fs \<Rightarrow> (string \<times> path) list \<Rightarrow> nat \<times> fs" where
  "remove_backups f [] = (0, f)"
| "remove_backups f ((n, p) # bs) =
     (case fs_remove_file f p of
        (r, f1) \<Rightarrow> (case remove_backups f1 bs of (k, f2) \<Rightarrow> (if is_ok r then k + 1 else k, f2)))"

definition cleanup_backups ::
  "fs \<Rightarrow> (string \<times> path) res list res \<Rightarrow> path \<Rightarrow> nat \<Rightarrow> nat res \<times> fs" where
  "cleanup_backups f listing cred_file keep =
     (case listing of
        Inl e \<Rightarrow> (Inl e, f)
      | Inr es \<Rightarrow>
          (case collect_backups cred_file es of
             Inl e \<Rightarrow> (Inl e, f)
           | Inr backups \<Rightarrow>
               if length backups \<le> keep then (Ok 0, f)
               else (case remove_backups f (take (length backups - keep) (sort_key fst backups)) of
                       (k, f') \<Rightarrow> (Ok k, f'))))"

section \<open>The rotated document\<close>

lemma map_of_y_insert: "map_of (y_insert k v m) = (map_of m)(YStr k \<mapsto> v)"
  by (induction k v m rule: y_insert.induct) (auto simp: fun_eq_iff)

lemma mset_last_butlast: "post \<noteq> [] \<Longrightarrow> mset (last post # butlast post) = mset post"
  by (induction post rule: rev_induct) auto

lemma y_remove_absent: "YStr k \<notin> fst ` set m \<Longrightarrow> y_remove k m = m"
proof -
  assume "YStr k \<notin> fst ` set m"
  then have "dropWhile (\<lambda>e. fst e \<noteq> YStr k) m = []" by (induction m) auto
  then show ?thesis unfolding y_remove_def by (simp only: list.case)
qed

lemma mset_y_remove:
  assumes "YStr k \<notin> fst ` set pre"
  shows "mset (y_remove k (pre @ (YStr k, v) # post)) = mset (pre @ post)"
proof -
  have all: "\<And>e. e \<in> set pre \<Longrightarrow> fst e \<noteq> YStr k" using assms by (metis image_eqI)
  then have d: "dropWhile (\<lambda>e. fst e \<noteq> YStr k) (pre @ (YStr k, v) # post) = (YStr k, v) # post"
    and t: "takeWhile (\<lambda>e. fst e \<noteq> YStr k) (pre @ (YStr k, v) # post) = pre"
    by (simp_all add: dropWhile_append2 takeWhile_append2)
  show ?thesis
  proof (cases post)
    case (Cons y ys)
    have "y_remove k (pre @ (YStr k, v) # post) = pre @ last post # butlast post"
      unfolding y_remove_def d t by (simp add: Cons)
    then show ?thesis using mset_last_butlast[of post] Cons by simp
  qed (use d t in \<open>simp add: y_remove_def\<close>)
qed

lemma map_of_y_remove:
  assumes "distinct (map fst m)"
  shows "map_of (y_remove k m) = (map_of m)(YStr k := None)"
proof (cases "YStr k \<in> fst ` set m")
  case True
  then obtain v where "(YStr k, v) \<in> set m" by auto
  then obtain pre post where m: "m = pre @ (YStr k, v) # post" by (meson split_list)
  then have out: "YStr k \<notin> fst ` set pre" "YStr k \<notin> fst ` set post" and dst: "distinct (map fst (pre @ post))"
    using assms by auto
  have "distinct (map fst (y_remove k m))" and "set (y_remove k m) = set (pre @ post)"
    using mset_y_remove[OF out(1), of v post] dst unfolding m
    by (metis mset_eq_imp_distinct_iff mset_map, metis set_mset_mset)
  then have "map_of (y_remove k m) = map_of (pre @ post)"
    using dst map_of_inject_set by blast
  moreover have "map_of (pre @ post) = (map_of m)(YStr k := None)"
    using out unfolding m by (auto simp: fun_eq_iff map_add_def map_of_eq_None_iff[symmetric] split: option.splits)
  ultimately show ?thesis by simp
next
  case False
  then show ?thesis by (simp add: y_remove_absent fun_upd_idem map_of_eq_None_iff)
qed

text \<open>The rotated document has the new keys, no \<^verbatim>\<open>sops\<close> block, and every other field as before.\<close>

lemma rotate_doc_fields:
  assumes "distinct (map fst m)"
  shows "y_get (rotate_doc ak sk (YMap m)) k =
    (if k = ''secret_access_key'' then Some (YStr sk) else if k = ''access_key_id'' then Some (YStr ak)
     else if k = ''sops'' then None else y_get (YMap m) k)"
  by (simp add: rotate_doc_def y_get_def map_of_y_insert map_of_y_remove[OF assms])

section \<open>Replacing the file\<close>

lemma last_comp_with_extension:
  "file_name p = Some n \<Longrightarrow> e \<noteq> [] \<Longrightarrow>
   p_comps (with_extension p e) = butlast (p_comps p) @ [fst (rsplit_dot n) @ CHR ''.'' # e]"
  by (simp add: with_extension_def file_stem_def)

lemma file_name_last: "file_name p = Some n \<Longrightarrow> p_comps p = butlast (p_comps p) @ [n]"
  by (cases "p_comps p" rule: rev_cases) (auto simp: file_name_def split: if_splits)

lemma dec_of_nat_last: "dec_of_nat n \<noteq> [] \<and> last (dec_of_nat n) \<noteq> CHR ''p''"
proof -
  have "digit_char d \<noteq> CHR ''p''" if "d < 10" for d
  proof
    assume "digit_char d = CHR ''p''"
    then have "of_char (digit_char d) = (of_char (CHR ''p'') :: nat)" by simp
    then show False using that by (simp add: digit_char_def of_char_of)
  qed
  then show ?thesis by (subst (1 2) dec_of_nat.simps) simp
qed

lemma replace_tmp_neq:
  assumes "file_name p = Some n"
  shows "replace_tmp p \<noteq> p" and "replace_tmp p \<noteq> with_extension p (e @ dec_of_nat k)"
proof -
  have "p_comps p \<noteq> []" using file_name_last[OF assms] by auto
  then obtain q where "path_parent p = Some q" by (simp add: path_parent_def)
  then have last: "last (p_comps (replace_tmp p)) = CHR ''.'' # n @ ''.tmp''"
    by (simp add: replace_tmp_def assms)
  moreover have "last (p_comps p) = n" by (metis file_name_last[OF assms] last_snoc)
  moreover have "CHR ''.'' # n @ ''.tmp'' \<noteq> n"
  proof
    assume "CHR ''.'' # n @ ''.tmp'' = n"
    then have "length (CHR ''.'' # n @ ''.tmp'') = length n" by simp
    then show False by simp
  qed
  ultimately show "replace_tmp p \<noteq> p" by metis
  show "replace_tmp p \<noteq> with_extension p (e @ dec_of_nat k)"
  proof
    assume "replace_tmp p = with_extension p (e @ dec_of_nat k)"
    then have "CHR ''.'' # n @ ''.tmp'' = fst (rsplit_dot n) @ CHR ''.'' # e @ dec_of_nat k"
      using last last_comp_with_extension[OF assms, of "e @ dec_of_nat k"] dec_of_nat_last[of k] by simp
    then have "last (CHR ''.'' # n @ ''.tmp'') = last (dec_of_nat k)"
      using dec_of_nat_last[of k] by (metis append.assoc append_Cons last_appendR list.distinct(1) append_is_Nil_conv)
    then show False using dec_of_nat_last[of k] by simp
  qed
qed

text \<open>A new extension with a dot in it always names another file.\<close>

lemma rsplit_dot_append_split:
  "rsplit_dot n = (st, x) \<Longrightarrow> (x = None \<and> st = n) \<or> (\<exists>e. x = Some e \<and> n = st @ CHR ''.'' # e \<and> CHR ''.'' \<notin> set e)"
proof (cases "dropWhile (\<lambda>c. c \<noteq> CHR ''.'') (rev n)")
  case (Cons c r)
  assume r: "rsplit_dot n = (st, x)"
  let ?e = "rev (takeWhile (\<lambda>c. c \<noteq> CHR ''.'') (rev n))"
  have "c = CHR ''.''" using Cons by (metis (mono_tags, lifting) dropWhile_eq_Cons_conv)
  with Cons have "rev n = takeWhile (\<lambda>c. c \<noteq> CHR ''.'') (rev n) @ CHR ''.'' # r" by (metis takeWhile_dropWhile_id)
  then have "n = rev r @ CHR ''.'' # ?e"
    by (metis append.assoc append_Cons append_Nil rev.simps(2) rev_append rev_rev_ident)
  moreover have "CHR ''.'' \<notin> set ?e" by (auto dest: set_takeWhileD)
  ultimately show ?thesis using r Cons by (auto simp: rsplit_dot_def split: if_splits)
qed (simp add: rsplit_dot_def)

lemma with_dotted_extension_neq:
  assumes "file_name p = Some n" and "CHR ''.'' \<in> set e"
  shows "with_extension p e \<noteq> p"
proof
  assume eq: "with_extension p e = p"
  have "e \<noteq> []" using assms(2) by auto
  then have "butlast (p_comps p) @ [fst (rsplit_dot n) @ CHR ''.'' # e] = butlast (p_comps p) @ [n]"
    using last_comp_with_extension[OF assms(1), of e] file_name_last[OF assms(1)] eq by simp
  then have "n = fst (rsplit_dot n) @ CHR ''.'' # e" by simp
  with assms(2) rsplit_dot_append_split[of n "fst (rsplit_dot n)" "snd (rsplit_dot n)"] show False
    by (metis append_same_eq list.inject prod.collapse same_append_eq self_append_conv list.distinct(1))
qed

lemma rotation_backup_neq:
  assumes "file_name cred = Some n"
  shows "rotation_backup f cred \<noteq> cred" and "replace_tmp cred \<noteq> rotation_backup f cred"
proof -
  show "rotation_backup f cred \<noteq> cred"
    unfolding rotation_backup_def by (rule with_dotted_extension_neq[OF assms]) simp
  show "replace_tmp cred \<noteq> rotation_backup f cred"
    unfolding rotation_backup_def dec_of_u64_def by (rule replace_tmp_neq(2)[OF assms])
qed

lemma fs_copy_ok_content:
  "fs_copy f a b = (Inr u, f') \<Longrightarrow> map_option f_data (files f' b) = map_option f_data (files f a)"
  using fs_write_content[of f b _ u f']
  by (auto simp: fs_copy_def fs_read_def split: sum.splits if_splits option.splits)

lemma fs_copy_other: "fs_copy f a b = (r, f') \<Longrightarrow> q \<noteq> b \<Longrightarrow> files f' q = files f q"
  by (auto simp: fs_copy_def dest: fs_write_frame split: sum.splits)

text \<open>
  Rotation replaces the credential file as a whole. On every error the file is as before and
  no watcher is told; on success it holds exactly what \<^verbatim>\<open>sops\<close> made of the old document with the two
  keys replaced and its \<^verbatim>\<open>sops\<close> block removed, and a backup reported as created holds the old file.
\<close>

theorem rotation_replaces_whole_file:
  assumes "rotate_s3_credentials Y sops f cred ak sk watched = (r, f', sig)" and "file_name cred = Some n"
    and "files f cred = Some x"
  shows "(\<not> is_ok r \<longrightarrow> files f' cred = files f cred \<and> sig = None) \<and>
         (\<forall>rr. r = Inr rr \<longrightarrow>
            (\<exists>doc txt enc. yaml_parse Y (str_of_bytes (f_data x)) = Some doc \<and> yaml_print Y (rotate_doc ak sk doc) = Some txt \<and>
               sops txt cred = Inr enc \<and> map_option f_data (files f' cred) = Some (bytes_of_str enc)) \<and>
            (rr_backup_created rr \<longrightarrow> map_option f_data (files f' (rotation_backup f cred)) = Some (f_data x)))"
proof -
  let ?bp = "rotation_backup f cred"
  note N = rotation_backup_neq[OF assms(2), of f] replace_tmp_neq(1)[OF assms(2)]
  obtain b f1 where b: "fs_copy f cred ?bp = (b, f1)" by fastforce
  have f1: "files f1 cred = Some x" and bk: "is_ok b \<Longrightarrow> map_option f_data (files f1 ?bp) = Some (f_data x)"
    using fs_copy_other[OF b, of cred] fs_copy_ok_content[of f cred ?bp _ f1] b N assms(3) by (auto simp: is_ok_def split: sum.splits)
  have rd: "current = str_of_bytes (f_data x)" if "read_to_string f1 cred = Inr current" for current
    using that f1 by (auto simp: read_to_string_def fs_read_def from_utf8_def ok_or_def split: if_splits option.splits)
  have rep: "files f2 cred = Some x" if "atomic_replace f1 cred enc = (Inl e, f2)" for enc e f2
    using fs_replace_err[of f1 "replace_tmp cred" cred _ e f2 cred] that N(3) f1 by (simp add: atomic_replace_def)
  have ok: "map_option f_data (files f2 cred) = Some (bytes_of_str enc) \<and> files f2 ?bp = files f1 ?bp"
    if "atomic_replace f1 cred enc = (Inr u, f2)" for enc u f2
    using fs_replace_ok[of f1 "replace_tmp cred" cred _ u f2] that N by (auto simp: atomic_replace_def)
  show ?thesis
    using assms(1,3) f1 bk
    by (auto simp: rotate_s3_credentials_def b build_rotated_yaml_def ok_or_def
        dest!: rd rep ok split: if_splits sum.splits prod.splits option.splits)
qed

section \<open>Cleaning up\<close>

lemma collect_backups_ok:
  "collect_backups cred (map Inr es) = Inr (filter (\<lambda>x. is_backup cred (fst x)) es)"
  by (induction es) auto

lemma fs_remove_file_fault: "fault (snd (fs_remove_file f p)) = fault f"
  by (simp add: fs_remove_file_def)

lemma remove_backups_spec:
  assumes "remove_backups f bs = (k, f')"
  shows "(\<forall>q. q \<notin> snd ` set bs \<longrightarrow> files f' q = files f q) \<and>
         (\<forall>q \<in> snd ` set bs. fault f OpRemove q \<or> files f' q = None) \<and> k \<le> length bs"
  using assms
proof (induction f bs arbitrary: k f' rule: remove_backups.induct)
  case (2 f n p bs)
  obtain r f1 where r: "fs_remove_file f p = (r, f1)" by fastforce
  obtain k2 f2 where k2: "remove_backups f1 bs = (k2, f2)" by fastforce
  have f2: "f' = f2" "k \<le> k2 + 1" using "2.prems" r k2 by (auto split: if_splits)
  have f1: "fault f1 = fault f" "\<And>q. q \<noteq> p \<Longrightarrow> files f1 q = files f q" "fault f OpRemove p \<or> files f1 p = None"
    using r fs_remove_file_fault[of f p] by (auto simp: fs_remove_file_def split: if_splits)
  note IH = "2.IH"[OF r[symmetric] k2]
  have "files f2 q = files f q" if "q \<noteq> p" "q \<notin> snd ` set bs" for q
    using IH f1(2)[OF that(1)] that(2) by simp
  moreover have "fault f OpRemove q \<or> files f2 q = None" if "q = p \<or> q \<in> snd ` set bs" for q
    using IH f1(1,3) that by (cases "q \<in> snd ` set bs") auto
  ultimately show ?case using IH f2 by simp
qed simp

lemma cleanup_returns: "\<exists>k f'. cleanup_backups f (Inr (map Inr es)) cred keep = (Inr k, f')"
  by (simp add: cleanup_backups_def collect_backups_ok split: prod.splits)

text \<open>
  Cleaning up keeps the newest backups. When every directory entry can be read, the backups of
  the file split into those kept, at most \<open>keep\<close>, and older ones, none with a name after a kept one;
  every older one is removed unless its removal is refused, and no other file is touched.
\<close>

theorem cleanup_keeps_newest:
  assumes "cleanup_backups f (Inr (map Inr es)) cred keep = (Inr k, f')"
  shows "\<exists>old new. mset (old @ new) = mset (filter (\<lambda>x. is_backup cred (fst x)) es) \<and>
           length new = min keep (length (filter (\<lambda>x. is_backup cred (fst x)) es)) \<and>
           (\<forall>a \<in> set old. \<forall>b \<in> set new. fst a \<le> fst b) \<and> k \<le> length old \<and>
           (\<forall>q. q \<notin> snd ` set old \<longrightarrow> files f' q = files f q) \<and>
           (\<forall>q \<in> snd ` set old. fault f OpRemove q \<or> files f' q = None)"
proof (cases "length (filter (\<lambda>x. is_backup cred (fst x)) es) \<le> keep")
  case True
  with assms have "f' = f" "k = 0" by (auto simp: cleanup_backups_def collect_backups_ok)
  with True show ?thesis
    by (intro exI[of _ "[]"] exI[of _ "filter (\<lambda>x. is_backup cred (fst x)) es"]) (simp add: min_def)
next
  case False
  let ?b = "filter (\<lambda>x. is_backup cred (fst x)) es"
  let ?s = "sort_key fst ?b" and ?n = "length ?b - keep"
  have "remove_backups f (take ?n ?s) = (k, f')"
    using False assms by (auto simp: cleanup_backups_def collect_backups_ok split: prod.splits)
  note R = remove_backups_spec[OF this]
  have app: "take ?n ?s @ drop ?n ?s = ?s" by simp
  have srt: "sorted (map fst (take ?n ?s @ drop ?n ?s))" unfolding app by (rule sorted_sort_key)
  have "\<forall>a \<in> set (take ?n ?s). \<forall>b \<in> set (drop ?n ?s). fst a \<le> fst b"
    using srt unfolding map_append sorted_append by auto
  moreover have "mset (take ?n ?s @ drop ?n ?s) = mset ?b" unfolding app by simp
  moreover have "length (drop ?n ?s) = min keep (length ?b)" using False by simp
  ultimately show ?thesis using R
    by (elim conjE, intro exI[of _ "take ?n ?s"] exI[of _ "drop ?n ?s"] conjI) assumption+
qed

section \<open>Concrete runs\<close>

definition flat_yaml :: yaml_codec where
  "flat_yaml = \<lparr>yaml_parse = (\<lambda>_. Some (YMap [(YStr ''sops'', YNull), (YStr ''access_key_id'', YStr ''old'')])),
                yaml_print = (\<lambda>d. case y_get d ''access_key_id'' of Some (YStr s) \<Rightarrow> Some s | _ \<Rightarrow> None)\<rparr>"

definition toy_sops_encrypt :: "string \<Rightarrow> path \<Rightarrow> string res" where
  "toy_sops_encrypt txt p = Ok (''ENC '' @ txt)"

theorem rotation_replaces_whole_file_witness:
  "\<exists>rr f' sig. rotate_s3_credentials flat_yaml toy_sops_encrypt one_file (path_of ''/a'') ''new'' ''s'' True = (Inr rr, f', sig) \<and>
     map_option f_data (files f' (path_of ''/a'')) = Some (bytes_of_str ''ENC new'')"
proof -
  let ?r = "rotate_s3_credentials flat_yaml toy_sops_encrypt one_file (path_of ''/a'') ''new'' ''s'' True"
  have ok: "is_ok (fst ?r)" and fn: "file_name (path_of ''/a'') = Some ''a''" by code_simp+
  have x: "files one_file (path_of ''/a'') = Some \<lparr>f_data = [1, 2], f_mtime = Some 5\<rparr>" by (simp add: one_file_def)
  obtain rr f' sig where r: "?r = (Inr rr, f', sig)" using ok by (cases ?r) (auto simp: is_ok_def split: sum.splits)
  have "rotate_doc ''new'' ''s'' (YMap [(YStr ''sops'', YNull), (YStr ''access_key_id'', YStr ''old'')]) =
      YMap [(YStr ''access_key_id'', YStr ''new''), (YStr ''secret_access_key'', YStr ''s'')]"
    by code_simp
  with rotation_replaces_whole_file[OF r fn x] r show ?thesis
    by (auto simp: flat_yaml_def toy_sops_encrypt_def y_get_def)
qed

theorem cleanup_keeps_newest_witness:
  "\<exists>k f' old new. cleanup_backups one_file (Inr (map Inr [(''a.bak.2'', path_of ''/a.bak.2''), (''a.bak.1'', path_of ''/a.bak.1'')]))
       (path_of ''/a'') 1 = (Inr k, f') \<and> length new = 1 \<and> (\<forall>q. q \<notin> snd ` set old \<longrightarrow> files f' q = files one_file q) \<and>
     mset (old @ new) = mset [(''a.bak.2'', path_of ''/a.bak.2''), (''a.bak.1'', path_of ''/a.bak.1'')]"
proof -
  let ?es = "[(''a.bak.2'', path_of ''/a.bak.2''), (''a.bak.1'', path_of ''/a.bak.1'')]"
  have fl: "filter (\<lambda>x. is_backup (path_of ''/a'') (fst x)) ?es = ?es"
  proof -
    have "is_backup (path_of ''/a'') ''a.bak.2''" "is_backup (path_of ''/a'') ''a.bak.1''" by code_simp+
    then show ?thesis by simp
  qed
  obtain k f' where c: "cleanup_backups one_file (Inr (map Inr ?es)) (path_of ''/a'') 1 = (Inr k, f')"
    using cleanup_returns by blast
  from cleanup_keeps_newest[OF c] obtain old new where
    "mset (old @ new) = mset ?es" "length new = 1" "\<forall>q. q \<notin> snd ` set old \<longrightarrow> files f' q = files one_file q"
    unfolding fl by auto
  with c show ?thesis by blast
qed

end
