(* ===== verification/Cli_Admin.thy ===== *)
theory Cli_Admin
  imports Cli_Sync Cred_Rotation Fuse_Driver
begin

text \<open>
  The other commands of \<^verbatim>\<open>crates/tcfs-cli/src/main.rs\<close>: initialisation, devices, the session in the
  platform keychain (\<^verbatim>\<open>crates/tcfs-secrets/src/keychain.rs\<close>), credential rotation, the KeePass lookup,
  mounting, the check for a newer version, and the interactive conflict prompt. Prompts, random
  bytes, the clock, external programs and the keyring are arguments.
\<close>

section \<open>Model: devices and identity\<close>

definition cmd_device_enroll ::
  "reg_codec \<Rightarrow> hasher \<Rightarrow> environment \<Rightarrow> string option \<Rightarrow> string \<Rightarrow> fs \<Rightarrow> string option \<Rightarrow> string res \<times> fs" where
  "cmd_device_enroll R H env hostname uuid f name =
     (let device_name = unwrap_or (default_device_name hostname) name; p = default_registry_path env
      in case reg_load R f p of
           Inl e \<Rightarrow> (Inl e, f)
         | Inr r \<Rightarrow>
             if reg_find r device_name \<noteq> None then (Err (EAlreadyExists device_name), f)
             else (case reg_enroll H uuid (fs_now f) r device_name (device_public_key H device_name) None of
                     (i, r') \<Rightarrow>
                       (case reg_save R f r' p of (Inl e, f') \<Rightarrow> (Inl e, f') | (Inr _, f') \<Rightarrow> (Ok i, f'))))"

definition cmd_device_revoke :: "reg_codec \<Rightarrow> environment \<Rightarrow> fs \<Rightarrow> string \<Rightarrow> unit res \<times> fs" where
  "cmd_device_revoke R env f name =
     (let p = default_registry_path env
      in case reg_load R f p of
           Inl e \<Rightarrow> (Inl e, f)
         | Inr r \<Rightarrow>
             (case reg_revoke r name of
                (True, r') \<Rightarrow> reg_save R f r' p
              | (False, _) \<Rightarrow> (Err (EMissing name), f)))"

definition cmd_device_list :: "reg_codec \<Rightarrow> environment \<Rightarrow> fs \<Rightarrow> DeviceIdentity list res" where
  "cmd_device_list R env f =
     (case reg_load R f (default_registry_path env) of Inl e \<Rightarrow> Inl e | Inr r \<Rightarrow> Ok (devices r))"

definition cmd_device_status :: "reg_codec \<Rightarrow> environment \<Rightarrow> string option \<Rightarrow> fs \<Rightarrow> DeviceIdentity option res" where
  "cmd_device_status R env hostname f =
     (case reg_load R f (default_registry_path env) of
        Inl e \<Rightarrow> Inl e
      | Inr r \<Rightarrow> Ok (reg_find r (default_device_name hostname)))"

text \<open>The passphrase of \<^verbatim>\<open>tcfs init\<close>: an option in non-interactive mode, else two prompts that must agree.\<close>

definition init_passphrase :: "bool \<Rightarrow> string option \<Rightarrow> string res \<Rightarrow> string res \<Rightarrow> string res" where
  "init_passphrase non_interactive password prompt confirm =
     (if non_interactive then ok_or (EMissing ''--password'') password
      else (case prompt of
              Inl e \<Rightarrow> Inl e
            | Inr p \<Rightarrow> (case confirm of
                          Inl e \<Rightarrow> Inl e
                        | Inr c \<Rightarrow> if p \<noteq> c then Err (EMissing ''matching passphrase'') else Ok p)))"

record init_rnd =
  ir_entropy :: bytes
  ir_salt :: bytes
  ir_file_key :: bytes
  ir_nonce :: bytes

text \<open>The result is the recovery phrase and the device id shown to the user.\<close>

definition cmd_init ::
  "reg_codec \<Rightarrow> hasher \<Rightarrow> bip39 \<Rightarrow> argon2 \<Rightarrow> aead \<Rightarrow> environment \<Rightarrow> string option \<Rightarrow> string \<Rightarrow> init_rnd \<Rightarrow> fs \<Rightarrow>
   string option \<Rightarrow> string res \<Rightarrow> (string \<times> string) res \<times> fs" where
  "cmd_init R H B G A env hostname uuid rn f name passphrase =
     (let device_name = unwrap_or (default_device_name hostname) name; p = default_registry_path env
      in case reg_load R f p of
           Inl e \<Rightarrow> (Inl e, f)
         | Inr r0 \<Rightarrow>
             if reg_find r0 device_name \<noteq> None then (Err (EAlreadyExists device_name), f)
             else (case passphrase of
                Inl e \<Rightarrow> (Inl e, f)
              | Inr pw \<Rightarrow>
                  (case generate_mnemonic B G (ir_entropy rn) of
                     Inl e \<Rightarrow> (Inl e, f)
                   | Inr (mnemonic, _) \<Rightarrow>
                       (case derive_master_key G pw (ir_salt rn) default_kdf_params of
                          Inl e \<Rightarrow> (Inl e, f)
                        | Inr mkey \<Rightarrow>
                            (case wrap_key A (ir_nonce rn) mkey (generate_file_key (ir_file_key rn)) of
                               Inl e \<Rightarrow> (Inl e, f)
                             | Inr _ \<Rightarrow>
                                 (case reg_load R f p of
                                    Inl e \<Rightarrow> (Inl e, f)
                                  | Inr r \<Rightarrow>
                                      (case reg_enroll H uuid (fs_now f) r device_name (device_public_key H device_name) None of
                                         (i, r') \<Rightarrow>
                                           (case reg_save R f r' p of
                                              (Inl e, f') \<Rightarrow> (Inl e, f')
                                            | (Inr _, f') \<Rightarrow> (Ok (mnemonic, i), f')))))))))"

section \<open>Model: the session in the keychain\<close>

text \<open>The keyring crate: creating an entry may fail; reading tells a missing entry from an error.\<close>

record 'k keyring =
  kr_entry :: "string \<Rightarrow> bool"
  kr_set :: "'k \<Rightarrow> string \<Rightarrow> string \<Rightarrow> unit res \<times> 'k"
  kr_get :: "'k \<Rightarrow> string \<Rightarrow> string option res"
  kr_delete :: "'k \<Rightarrow> string \<Rightarrow> bool res \<times> 'k"

definition store_secret :: "'k keyring \<Rightarrow> 'k \<Rightarrow> string \<Rightarrow> string \<Rightarrow> unit res \<times> 'k" where
  "store_secret K k name secret =
     (if \<not> kr_entry K name then (Err (EMissing ''keychain entry''), k) else kr_set K k name secret)"

definition get_secret :: "'k keyring \<Rightarrow> 'k \<Rightarrow> string \<Rightarrow> string option res" where
  "get_secret K k name = (if \<not> kr_entry K name then Err (EMissing ''keychain entry'') else kr_get K k name)"

definition delete_secret :: "'k keyring \<Rightarrow> 'k \<Rightarrow> string \<Rightarrow> unit res \<times> 'k" where
  "delete_secret K k name =
     (if \<not> kr_entry K name then (Err (EMissing ''keychain entry''), k)
      else (case kr_delete K k name of (Inl e, k') \<Rightarrow> (Inl e, k') | (Inr _, k') \<Rightarrow> (Ok (), k')))"

definition is_available :: "'k keyring \<Rightarrow> bool" where
  "is_available K = kr_entry K ''__tcfs_probe__''"

definition MASTER_KEY :: string where "MASTER_KEY = ''master-key''"
definition DEVICE_IDENTITY :: string where "DEVICE_IDENTITY = ''device-identity''"
definition SESSION_TOKEN :: string where "SESSION_TOKEN = ''session-token''"

definition cmd_auth_unlock :: "'k keyring \<Rightarrow> 'k \<Rightarrow> string res \<Rightarrow> unit res \<times> 'k" where
  "cmd_auth_unlock K k prompt =
     (if \<not> is_available K then (Err (EMissing ''keychain''), k)
      else (case prompt of Inl e \<Rightarrow> (Inl e, k) | Inr passphrase \<Rightarrow> store_secret K k SESSION_TOKEN passphrase))"

definition cmd_auth_lock :: "'k keyring \<Rightarrow> 'k \<Rightarrow> unit res \<times> 'k" where
  "cmd_auth_lock K k =
     (case delete_secret K k SESSION_TOKEN of
        (Inl e, k') \<Rightarrow> (Inl e, k')
      | (Inr _, k') \<Rightarrow> delete_secret K k' MASTER_KEY)"

section \<open>Model: credentials\<close>

definition cmd_rotate_credentials ::
  "yaml_codec \<Rightarrow> (string \<Rightarrow> path \<Rightarrow> string res) \<Rightarrow> environment \<Rightarrow> fs \<Rightarrow> TcfsConfig \<Rightarrow> path option \<Rightarrow> bool \<Rightarrow>
   string res \<Rightarrow> string res \<Rightarrow> RotationResult res \<times> fs" where
  "cmd_rotate_credentials Y sops_encrypt env f cfg over non_interactive ask_ak ask_sk =
     (case or_else over (sg_credentials_file (cf_storage cfg)) of
        None \<Rightarrow> (Err (EMissing ''credential file''), f)
      | Some cred_file \<Rightarrow>
          if \<not> fs_exists f cred_file then (Err (EMissing (path_str cred_file)), f)
          else (let keys = (if non_interactive
                            then (case env_or env ''AWS_ACCESS_KEY_ID'' ''TCFS_NEW_ACCESS_KEY'' of
                                    None \<Rightarrow> Err (EMissing ''AWS_ACCESS_KEY_ID'')
                                  | Some ak \<Rightarrow>
                                      (case env_or env ''AWS_SECRET_ACCESS_KEY'' ''TCFS_NEW_SECRET_KEY'' of
                                         None \<Rightarrow> Err (EMissing ''AWS_SECRET_ACCESS_KEY'')
                                       | Some sk \<Rightarrow> Ok (ak, sk)))
                            else (case ask_ak of
                                    Inl e \<Rightarrow> Inl e
                                  | Inr ak \<Rightarrow> (case ask_sk of
                                                 Inl e \<Rightarrow> Inl e
                                               | Inr sk \<Rightarrow> if ak = [] \<or> sk = [] then Err (EMissing ''credentials'')
                                                           else Ok (ak, sk))))
                in case keys of
                     Inl e \<Rightarrow> (Inl e, f)
                   | Inr (ak, sk) \<Rightarrow>
                       (case rotate_s3_credentials Y sops_encrypt f cred_file ak sk False of (r, f', _) \<Rightarrow> (r, f'))))"

definition resolve_password :: "string option \<Rightarrow> string res \<Rightarrow> string res" where
  "resolve_password password prompt = (case password of Some p \<Rightarrow> Ok p | None \<Rightarrow> prompt)"

definition cmd_kdbx_resolve ::
  "(bytes \<Rightarrow> string \<Rightarrow> kgroup res) \<Rightarrow> fs \<Rightarrow> TcfsConfig \<Rightarrow> string \<Rightarrow> path option \<Rightarrow> string \<Rightarrow> KdbxCredential res" where
  "cmd_kdbx_resolve open_db f cfg query over password =
     (case or_else over (kdbx_path (cf_secrets cfg)) of
        None \<Rightarrow> Err (EMissing ''KDBX path'')
      | Some p \<Rightarrow> if \<not> fs_exists f p then Err (EMissing (path_str p)) else kdbx_resolve open_db f p query password)"

section \<open>Model: mounting\<close>

definition parse_remote_spec :: "string \<Rightarrow> (string \<times> string \<times> string) res" where
  "parse_remote_spec spec =
     (case strip_prefix ''seaweedfs://'' spec of
        None \<Rightarrow> Err (EParse ''remote spec'' spec)
      | Some rest \<Rightarrow>
          (case split_once slash rest of
             None \<Rightarrow> Err (EParse ''remote spec'' spec)
           | Some (host, pth) \<Rightarrow>
               (case (case split_once slash pth of Some x \<Rightarrow> x | None \<Rightarrow> (pth, [])) of
                  (bucket, pfx) \<Rightarrow> Ok (''http://'' @ host, bucket, trim_end_matches slash pfx))))"

text \<open>Up to the call of \<^verbatim>\<open>tcfs_fuse::mount\<close>: the configuration handed over.\<close>

definition mount_config ::
  "'s op_builder \<Rightarrow> environment \<Rightarrow> fs \<Rightarrow> TcfsConfig \<Rightarrow> string \<Rightarrow> path \<Rightarrow> bool \<Rightarrow> 's MountConfig res \<times> fs" where
  "mount_config mk env f cfg remote mountpoint read_only =
     (case parse_remote_spec remote of
        Inl e \<Rightarrow> (Inl e, f)
      | Inr (endpoint, bucket, pfx) \<Rightarrow>
          (case env_or env ''AWS_ACCESS_KEY_ID'' ''TCFS_ACCESS_KEY_ID'' of
             None \<Rightarrow> (Err (EMissing ''AWS_ACCESS_KEY_ID''), f)
           | Some ak \<Rightarrow>
               (case env_or env ''AWS_SECRET_ACCESS_KEY'' ''TCFS_SECRET_ACCESS_KEY'' of
                  None \<Rightarrow> (Err (EMissing ''AWS_SECRET_ACCESS_KEY''), f)
                | Some sk \<Rightarrow>
                    (case build_operator mk \<lparr>oc_endpoint = endpoint, oc_region = sg_region (cf_storage cfg),
                            oc_bucket = bucket, oc_access_key_id = ak, oc_secret_access_key = sk\<rparr> of
                       Inl e \<Rightarrow> (Inl e, f)
                     | Inr opr \<Rightarrow>
                         (case fs_create_dir_all f mountpoint of
                            (Inl e, f') \<Rightarrow> (Inl e, f')
                          | (Inr _, f') \<Rightarrow>
                              (Ok \<lparr>mt_op = opr, mt_prefix = pfx, mt_mountpoint = mountpoint,
                                   mt_cache_dir = cli_expand_tilde env (fu_cache_dir (cf_fuse cfg)),
                                   mt_cache_max_bytes = fu_cache_max_mb (cf_fuse cfg) * 1024 * 1024,
                                   mt_negative_ttl_secs = fu_negative_cache_ttl_secs (cf_fuse cfg),
                                   mt_read_only = read_only, mt_allow_other = False\<rparr>, f'))))))"

text \<open>The command blocks in \<^verbatim>\<open>tcfs_fuse::mount\<close> and serves requests until the file system is unmounted.\<close>

definition cmd_mount ::
  "'s op_builder \<Rightarrow> environment \<Rightarrow> rdir \<Rightarrow> 's mount_session \<Rightarrow> fs \<Rightarrow> TcfsConfig \<Rightarrow> string \<Rightarrow> path \<Rightarrow> bool \<Rightarrow> unit res \<times> fs" where
  "cmd_mount mk env rd S f cfg remote mountpoint read_only =
     (case mount_config mk env f cfg remote mountpoint read_only of
        (Inl e, f') \<Rightarrow> (Inl e, f')
      | (Inr m, f') \<Rightarrow> fuse_mount rd S m f')"

text \<open>
  \<^verbatim>\<open>unmount\<close> on Linux: \<open>fusermount\<close> and \<open>umount\<close> are the results of running the programs, \<open>Inr\<close> whether
  the exit status is success.
\<close>

definition cmd_unmount :: "path \<Rightarrow> bool res \<Rightarrow> bool res \<Rightarrow> unit res" where
  "cmd_unmount mountpoint fusermount umount =
     (case fusermount of
        Inr True \<Rightarrow> Ok ()
      | Inr False \<Rightarrow> (case umount of Inr True \<Rightarrow> Ok () | _ \<Rightarrow> Err (EIo ''fusermount3'' (path_str mountpoint)))
      | Inl e \<Rightarrow> Inl e)"

section \<open>Model: the version check\<close>

record VersionCacheEntry =
  ve_latest_version :: "string option"
  ve_checked_at :: u64

record version_codec =
  vx_to_json :: "VersionCacheEntry \<Rightarrow> string option"
  vx_from_json :: "string \<Rightarrow> VersionCacheEntry option"

definition VERSION_CHECK_TTL_SECS :: u64 where "VERSION_CHECK_TTL_SECS = 86400"

definition dirs_cache_path :: "environment \<Rightarrow> string \<Rightarrow> path" where
  "dirs_cache_path env temp_dir =
     path_join (path_join (path_of (unwrap_or temp_dir (env_or env ''HOME'' ''USERPROFILE''))) (path_of ''.cache''))
       (path_of ''tcfs'')"

definition read_version_cache :: "version_codec \<Rightarrow> fs \<Rightarrow> path \<Rightarrow> VersionCacheEntry option" where
  "read_version_cache V f p =
     (case read_to_string f p of Inl _ \<Rightarrow> None | Inr content \<Rightarrow> vx_from_json V content)"

definition write_version_cache :: "version_codec \<Rightarrow> fs \<Rightarrow> path \<Rightarrow> VersionCacheEntry \<Rightarrow> unit res \<times> fs" where
  "write_version_cache V f p e =
     (case fs_ensure_parent f p of
        (Inl x, f') \<Rightarrow> (Inl x, f')
      | (Inr _, f') \<Rightarrow>
          (case vx_to_json V e of
             None \<Rightarrow> (Err (ESerialize ''version cache''), f')
           | Some json \<Rightarrow> fs_write f' p (bytes_of_str json)))"

text \<open>\<open>out\<close>: what running \<^verbatim>\<open>curl\<close> gave, its success and output.\<close>

definition fetch_latest_version :: "(string \<Rightarrow> jobject option) \<Rightarrow> (bool \<times> bytes) option \<Rightarrow> string option" where
  "fetch_latest_version parse out =
     (case out of
        Some (True, body) \<Rightarrow>
          (case Option.bind (from_utf8 body) parse of
             None \<Rightarrow> None
           | Some json \<Rightarrow> (case j_str (json ''tag_name'') of
                             None \<Rightarrow> None
                           | Some tag \<Rightarrow> Some (unwrap_or tag (strip_prefix ''v'' tag))))
      | _ \<Rightarrow> None)"

definition parse_version :: "string \<Rightarrow> (u64 \<times> u64 \<times> u64) option" where
  "parse_version v =
     (case split_on (CHR ''.'') v of
        a # b # c # _ \<Rightarrow>
          (case (parse_u64 a, parse_u64 b, parse_u64 c) of
             (Some x, Some y, Some z) \<Rightarrow> Some (x, y, z)
           | _ \<Rightarrow> None)
      | _ \<Rightarrow> None)"

fun version_gt :: "u64 \<times> u64 \<times> u64 \<Rightarrow> u64 \<times> u64 \<times> u64 \<Rightarrow> bool" where
  "version_gt (a, b, c) (a', b', c') \<longleftrightarrow> a' < a \<or> a' = a \<and> (b' < b \<or> b' = b \<and> c' < c)"

text \<open>Whether a notice is printed.\<close>

definition print_update_notice :: "string \<Rightarrow> string \<Rightarrow> bool" where
  "print_update_notice current latest =
     (case (parse_version current, parse_version latest) of
        (Some cur, Some lat) \<Rightarrow> version_gt lat cur
      | _ \<Rightarrow> False)"

definition check_for_update ::
  "version_codec \<Rightarrow> environment \<Rightarrow> string \<Rightarrow> fs \<Rightarrow> string option \<Rightarrow> string \<Rightarrow> bool \<times> fs" where
  "check_for_update V env temp_dir f fetched current =
     (let p = path_join (dirs_cache_path env temp_dir) (path_of ''version-check.json'');
          notice = (\<lambda>l. case l of None \<Rightarrow> False | Some latest \<Rightarrow> print_update_notice current latest);
          refresh = (notice fetched,
                     snd (write_version_cache V f p \<lparr>ve_latest_version = fetched, ve_checked_at = fs_now f\<rparr>))
      in case read_version_cache V f p of
           Some cached \<Rightarrow>
             if fs_now f < ve_checked_at cached + VERSION_CHECK_TTL_SECS
             then (notice (ve_latest_version cached), f) else refresh
         | None \<Rightarrow> refresh)"

definition dec_of_int :: "int \<Rightarrow> string" where
  "dec_of_int i = (if i < 0 then CHR ''-'' # dec_of_nat (nat (- i)) else dec_of_nat (nat i))"

definition format_uptime :: "int \<Rightarrow> string" where
  "format_uptime secs =
     (if secs < 60 then dec_of_int secs @ ''s''
      else if secs < 3600 then dec_of_int (secs div 60) @ ''m '' @ dec_of_int (secs mod 60) @ ''s''
      else dec_of_int (secs div 3600) @ ''h '' @ dec_of_int ((secs mod 3600) div 60) @ ''m'')"

section \<open>Model: the conflict prompt\<close>

text \<open>
  \<^verbatim>\<open>str::trim\<close>: the UTF-8 encodings of the characters with the property White_Space. Lower-casing is
  written out for ASCII letters and the Kelvin sign, the only other character that becomes an
  ASCII letter; other characters stay non-ASCII and match no answer.
\<close>

definition white_space :: "string list" where
  "white_space =
     [[CHR 0x09], [CHR 0x0A], [CHR 0x0B], [CHR 0x0C], [CHR 0x0D], [CHR 0x20],
      [CHR 0xC2, CHR 0x85], [CHR 0xC2, CHR 0xA0], [CHR 0xE1, CHR 0x9A, CHR 0x80],
      [CHR 0xE2, CHR 0x80, CHR 0x80], [CHR 0xE2, CHR 0x80, CHR 0x81], [CHR 0xE2, CHR 0x80, CHR 0x82],
      [CHR 0xE2, CHR 0x80, CHR 0x83], [CHR 0xE2, CHR 0x80, CHR 0x84], [CHR 0xE2, CHR 0x80, CHR 0x85],
      [CHR 0xE2, CHR 0x80, CHR 0x86], [CHR 0xE2, CHR 0x80, CHR 0x87], [CHR 0xE2, CHR 0x80, CHR 0x88],
      [CHR 0xE2, CHR 0x80, CHR 0x89], [CHR 0xE2, CHR 0x80, CHR 0x8A], [CHR 0xE2, CHR 0x80, CHR 0xA8],
      [CHR 0xE2, CHR 0x80, CHR 0xA9], [CHR 0xE2, CHR 0x80, CHR 0xAF], [CHR 0xE2, CHR 0x81, CHR 0x9F],
      [CHR 0xE3, CHR 0x80, CHR 0x80]]"

function trim_front :: "string list \<Rightarrow> string \<Rightarrow> string" where
  "trim_front ws s =
     (case List.find (\<lambda>w. w \<noteq> [] \<and> starts_with w s) ws of
        None \<Rightarrow> s
      | Some w \<Rightarrow> trim_front ws (drop (length w) s))"
  by pat_completeness auto
termination
proof (relation "measure (length \<circ> snd)")
  fix ws :: "string list" and s w :: string
  assume "List.find (\<lambda>w. w \<noteq> [] \<and> starts_with w s) ws = Some w"
  then have "w \<noteq> []" "starts_with w s" by (auto dest: find_SomeD)
  then show "((ws, drop (length w) s), ws, s) \<in> measure (length \<circ> snd)"
    by (auto simp: starts_with_iff)
qed simp

declare trim_front.simps [simp del]

definition str_trim :: "string \<Rightarrow> string" where
  "str_trim s = rev (trim_front (map rev white_space) (rev (trim_front white_space s)))"

fun to_lowercase :: "string \<Rightarrow> string" where
  "to_lowercase [] = []"
| "to_lowercase (c # s) =
     (if starts_with [CHR 0xE2, CHR 0x84, CHR 0xAA] (c # s) then CHR ''k'' # to_lowercase (drop 2 s)
      else ascii_lower c # to_lowercase s)"

definition prompt_answer :: "string \<Rightarrow> Resolution option" where
  "prompt_answer line =
     (let w = to_lowercase (str_trim line)
      in if w \<in> {''k'', ''keep'', ''local''} then Some KeepLocal
         else if w \<in> {''r'', ''remote''} then Some KeepRemote
         else if w \<in> {''b'', ''both''} then Some KeepBoth
         else if w \<in> {''d'', ''defer''} then Some Defer
         else None)"

text \<open>\<open>inp n\<close> is what the n-th \<^verbatim>\<open>read_line\<close> yields: an error, or the line; at the end of input the empty string.\<close>

partial_function (option) resolve_conflict_interactive :: "(nat \<Rightarrow> string res) \<Rightarrow> nat \<Rightarrow> Resolution option" where
  "resolve_conflict_interactive inp i =
     (case inp i of
        Inl _ \<Rightarrow> Some Defer
      | Inr line \<Rightarrow>
          (case prompt_answer line of
             Some r \<Rightarrow> Some r
           | None \<Rightarrow> resolve_conflict_interactive inp (Suc i)))"

section \<open>The registry file\<close>

text \<open>The commands and the start of the daemon, as steps on the file system that holds the registry \<open>p\<close>.\<close>

inductive registry_step :: "reg_codec \<Rightarrow> hasher \<Rightarrow> environment \<Rightarrow> fs \<Rightarrow> fs \<Rightarrow> bool" for R H env where
  enroll: "cmd_device_enroll R H env hostname uuid f name = (r, f') \<Longrightarrow> registry_step R H env f f'"
| revoke: "cmd_device_revoke R env f name = (r, f') \<Longrightarrow> registry_step R H env f f'"
| init: "cmd_init R H B G A env hostname uuid rn f name pw = (r, f') \<Longrightarrow> registry_step R H env f f'"
| start: "daemon_identity R H uuid f name (default_registry_path env) = (i, r, f') \<Longrightarrow> registry_step R H env f f'"

inductive_cases registry_stepE: "registry_step R H env f f'"

definition registry_ok :: "reg_codec \<Rightarrow> environment \<Rightarrow> fs \<Rightarrow> bool" where
  "registry_ok R env f \<longleftrightarrow>
     (\<forall>r. reg_load R f (default_registry_path env) = Inr r \<longrightarrow> names_unique r) \<and>
     (\<forall>x \<in> {OpStat, OpRead, OpWrite}. \<not> fault f x (default_registry_path env))"

lemma reg_save_keeps_ok:
  assumes "reg_codec_laws R" and "registry_ok R env f" and "names_unique r"
    and "reg_save R f r (default_registry_path env) = (x, f')"
  shows "registry_ok R env f'"
proof -
  let ?p = "default_registry_path env"
  have nf: "\<not> fault f OpStat ?p" "\<not> fault f OpRead ?p" "\<not> fault f OpWrite ?p"
    using assms(2) by (auto simp: registry_ok_def)
  have "reg_load R f' ?p = Inr r \<or> reg_load R f' ?p = reg_load R f ?p"
    using reg_load_saved[OF assms(1) _ nf(1,2)] reg_save_failed[OF _ nf(3)] assms(4) by (cases x) auto
  with assms(2,3) reg_save_fault[OF assms(4)] show ?thesis
    by (auto simp: registry_ok_def)
qed

lemma enroll_keeps_ok:
  assumes "reg_codec_laws R" and "registry_ok R env f" and "reg_load R f (default_registry_path env) = Inr r"
    and "reg_find r name = None" and "reg_enroll H uuid now r name pk desc = (i, r')"
    and "reg_save R f r' (default_registry_path env) = (x, f')"
  shows "registry_ok R env f'"
proof -
  have "names_unique r'"
    using enroll_names_unique[of r name H uuid now pk desc] assms(2-5) by (auto simp: registry_ok_def)
  then show ?thesis by (rule reg_save_keeps_ok[OF assms(1,2) _ assms(6)])
qed

lemma registry_step_ok:
  assumes "reg_codec_laws R" and "registry_ok R env f" and "registry_step R H env f f'"
  shows "registry_ok R env f'"
  using assms(3)
proof (rule registry_stepE)
  fix hostname uuid name r
  assume "cmd_device_enroll R H env hostname uuid f name = (r, f')"
  then show ?thesis
    using assms(2) enroll_keeps_ok[OF assms(1,2)]
    by (auto simp: cmd_device_enroll_def Let_def split: sum.splits prod.splits if_splits)
next
  fix name r
  assume run: "cmd_device_revoke R env f name = (r, f')"
  show ?thesis
  proof (cases "f' = f")
    case False
    then obtain r1 b r2 where r: "reg_load R f (default_registry_path env) = Inr r1" "reg_revoke r1 name = (b, r2)"
      "reg_save R f r2 (default_registry_path env) = (r, f')"
      using run by (auto simp: cmd_device_revoke_def Let_def split: sum.splits prod.splits bool.splits)
    then have "names_unique r2"
      using revoke_names_unique[of r1 name] assms(2) by (simp add: registry_ok_def)
    then show ?thesis by (rule reg_save_keeps_ok[OF assms(1,2) _ r(3)])
  qed (use assms(2) in simp)
next
  fix B G A hostname uuid rn name pw r
  assume "cmd_init R H B G A env hostname uuid rn f name pw = (r, f')"
  then show ?thesis
    using assms(2) enroll_keeps_ok[OF assms(1,2)]
    by (auto simp: cmd_init_def Let_def split: sum.splits prod.splits if_splits)
next
  fix uuid name i r
  assume run: "daemon_identity R H uuid f name (default_registry_path env) = (i, r, f')"
  have "names_unique r"
    using daemon_identity_names_unique[of R f "default_registry_path env" H uuid name] run assms(2)
    by (simp add: registry_ok_def)
  moreover have "f' = f \<or> (\<exists>x. reg_save R f r (default_registry_path env) = (x, f'))"
    using run by (auto simp: daemon_identity_def Let_def prod_eq_iff split: option.splits prod.splits)
  ultimately show ?thesis using assms(2) reg_save_keeps_ok[OF assms(1,2)] by auto
qed

text \<open>
  C27: device names stay unique. From a registry whose names are unique, no sequence of enrolments,
  revocations, initialisations and daemon starts, failing ones included, leads to a registry with
  two devices of one name, as long as the file itself can be read and written.
\<close>

theorem registry_names_stay_unique:
  assumes "reg_codec_laws R" and "registry_ok R env f" and "(registry_step R H env)\<^sup>*\<^sup>* f f'"
    and "reg_load R f' (default_registry_path env) = Inr r"
  shows "names_unique r"
proof -
  have "registry_ok R env f'"
    using assms(3,2) by (induction rule: rtranclp_induct) (auto intro: registry_step_ok[OF assms(1)])
  with assms(4) show ?thesis by (simp add: registry_ok_def)
qed

section \<open>The conflict prompt\<close>

text \<open>What ends the loop: an error, or a recognised answer.\<close>

definition prompt_result :: "string res \<Rightarrow> Resolution option" where
  "prompt_result x = (case x of Inl _ \<Rightarrow> Some Defer | Inr line \<Rightarrow> prompt_answer line)"

lemma resolve_unfold:
  "resolve_conflict_interactive inp i =
     (case prompt_result (inp i) of Some r \<Rightarrow> Some r | None \<Rightarrow> resolve_conflict_interactive inp (Suc i))"
  by (subst resolve_conflict_interactive.simps) (auto simp: prompt_result_def split: sum.split)

lemma resolve_first:
  assumes "\<forall>j < n. prompt_result (inp (i + j)) = None" and "prompt_result (inp (i + n)) = Some r"
  shows "resolve_conflict_interactive inp i = Some r"
  using assms
proof (induction n arbitrary: i)
  case 0
  then show ?case by (subst resolve_unfold) simp
next
  case (Suc n)
  have "prompt_result (inp i) = None" using Suc.prems(1) by (metis add.right_neutral zero_less_Suc)
  moreover have "resolve_conflict_interactive inp (Suc i) = Some r"
    using Suc.prems by (intro Suc.IH) (metis add_Suc_shift Suc_less_eq, simp)
  ultimately show ?case by (subst resolve_unfold) simp
qed

lemma resolve_returns:
  assumes "resolve_conflict_interactive inp i = Some r"
  shows "\<exists>n. prompt_result (inp (i + n)) = Some r"
  using _ assms
proof (rule resolve_conflict_interactive.raw_induct[of "\<lambda>inp i r. \<exists>n. prompt_result (inp (i + n)) = Some r"])
  fix rec and inp :: "nat \<Rightarrow> string res" and i r
  assume IH: "\<And>inp i r. rec inp i = Some r \<Longrightarrow> \<exists>n. prompt_result (inp (i + n)) = Some r"
    and step: "(case inp i of Inl x \<Rightarrow> Some Defer
                | Inr line \<Rightarrow> (case prompt_answer line of None \<Rightarrow> rec inp (Suc i) | Some r \<Rightarrow> Some r)) = Some r"
  consider (now) "prompt_result (inp i) = Some r" | (later) "rec inp (Suc i) = Some r"
    using step by (auto simp: prompt_result_def split: sum.splits option.splits)
  then show "\<exists>n. prompt_result (inp (i + n)) = Some r"
  proof cases
    case now
    then show ?thesis by (intro exI[of _ 0]) simp
  next
    case later
    then obtain n where "prompt_result (inp (Suc i + n)) = Some r" using IH by blast
    then show ?thesis by (intro exI[of _ "Suc n"]) simp
  qed
qed

text \<open>
  C30: the interactive conflict prompt returns exactly when some read fails or yields a recognised
  answer, and then with the first such outcome. Once standard input has ended, every further
  read yields the empty string, so without an earlier answer the loop never ends.
\<close>

theorem conflict_prompt_termination:
  "(resolve_conflict_interactive inp 0 = Some r \<longleftrightarrow>
      (\<exists>n. prompt_result (inp n) = Some r \<and> (\<forall>j < n. prompt_result (inp j) = None))) \<and>
   ((\<forall>j < k. prompt_result (inp j) = None) \<and> (\<forall>j \<ge> k. inp j = Inr []) \<longrightarrow>
      resolve_conflict_interactive inp 0 = None)"
proof
  show "resolve_conflict_interactive inp 0 = Some r \<longleftrightarrow>
      (\<exists>n. prompt_result (inp n) = Some r \<and> (\<forall>j < n. prompt_result (inp j) = None))"
  proof
    assume run: "resolve_conflict_interactive inp 0 = Some r"
    then have "\<exists>n. prompt_result (inp n) \<noteq> None" using resolve_returns[OF run] by auto
    then obtain n where n: "prompt_result (inp n) \<noteq> None" "\<forall>j < n. prompt_result (inp j) = None"
      using exists_least_iff[of "\<lambda>n. prompt_result (inp n) \<noteq> None"] by blast
    then obtain r' where r': "prompt_result (inp n) = Some r'" by blast
    then have "resolve_conflict_interactive inp 0 = Some r'"
      using resolve_first[of n inp 0 r'] n(2) by simp
    with run r' n(2) show "\<exists>n. prompt_result (inp n) = Some r \<and> (\<forall>j < n. prompt_result (inp j) = None)"
      by (intro exI[of _ n]) simp
  qed (use resolve_first[of _ inp 0 r] in auto)
next
  have "prompt_answer [] = None" by code_simp
  then have none: "prompt_result (inp j) = None"
    if "(\<forall>j < k. prompt_result (inp j) = None) \<and> (\<forall>j \<ge> k. inp j = Inr [])" for j
    using that by (cases "j < k") (simp_all add: prompt_result_def)
  show "(\<forall>j < k. prompt_result (inp j) = None) \<and> (\<forall>j \<ge> k. inp j = Inr []) \<longrightarrow>
      resolve_conflict_interactive inp 0 = None"
  proof
    assume "(\<forall>j < k. prompt_result (inp j) = None) \<and> (\<forall>j \<ge> k. inp j = Inr [])"
    then have "prompt_result (inp j) = None" for j by (rule none)
    then show "resolve_conflict_interactive inp 0 = None"
      using resolve_returns[of inp 0] by (cases "resolve_conflict_interactive inp 0") auto
  qed
qed

section \<open>Keys, sessions and mounts\<close>

text \<open>
  \<^verbatim>\<open>tcfs init\<close> keeps no key. Two runs from the same state that succeed leave the same files behind,
  whatever passphrases, recovery phrases, salts and file keys they used: neither the passphrase
  nor the recovery phrase the user is told to write down determines anything stored.
\<close>

theorem init_stores_no_key:
  assumes "cmd_init R H B G A env hostname uuid rn f name pw = (Inr (words, i), f')"
    and "cmd_init R H B' G' A' env hostname uuid rn' f name pw' = (Inr (words', i'), f'')"
  shows "f' = f'' \<and> i = i'"
  using assms by (auto simp: cmd_init_def Let_def split: sum.splits prod.splits if_splits)

text \<open>Mounting always talks plain HTTP to the storage, also when the configuration enforces TLS.\<close>

lemma mount_is_plain_http:
  assumes "mount_config mk env f cfg remote mp ro = (Inr m, f')"
  obtains c where "mk c = Some (mt_op m)" "starts_with ''http://'' (oc_endpoint c)"
  using assms
  by (auto simp: mount_config_def parse_remote_spec_def build_operator_def ok_or_def starts_with_iff
      split: sum.splits prod.splits option.splits)

text \<open>The keyring as a store: what was set is read, deleted entries are gone, other entries stay.\<close>

definition keyring_laws :: "'k keyring \<Rightarrow> bool" where
  "keyring_laws K \<longleftrightarrow>
     (\<forall>k n v u k'. kr_set K k n v = (Inr u, k') \<longrightarrow> kr_get K k' n = Inr (Some v)) \<and>
     (\<forall>k n b k'. kr_delete K k n = (Inr b, k') \<longrightarrow> kr_get K k' n = Inr None) \<and>
     (\<forall>k n r k' n'. kr_delete K k n = (r, k') \<longrightarrow> n' \<noteq> n \<longrightarrow> kr_get K k' n' = kr_get K k n')"

lemma unlock_stores_passphrase:
  assumes "keyring_laws K" and "cmd_auth_unlock K k (Inr pw) = (Inr u, k')"
  shows "get_secret K k' SESSION_TOKEN = Inr (Some pw)"
  using assms
  by (auto simp: cmd_auth_unlock_def store_secret_def get_secret_def keyring_laws_def split: if_splits)

lemma delete_secret_ok:
  assumes "keyring_laws K" and "delete_secret K k n = (Inr u, k')"
  shows "get_secret K k' n = Inr None" "n' \<noteq> n \<Longrightarrow> kr_get K k' n' = kr_get K k n'" "kr_entry K n"
  using assms
  by (auto simp: delete_secret_def get_secret_def keyring_laws_def split: if_splits prod.splits sum.splits)

lemma lock_clears_session:
  assumes "keyring_laws K" and "cmd_auth_lock K k = (Inr u, k')"
  shows "get_secret K k' SESSION_TOKEN = Inr None \<and> get_secret K k' MASTER_KEY = Inr None"
proof -
  obtain k1 where k1: "delete_secret K k SESSION_TOKEN = (Inr (), k1)" and k2: "delete_secret K k1 MASTER_KEY = (Inr u, k')"
    using assms(2) by (auto simp: cmd_auth_lock_def split: prod.splits sum.splits)
  have "kr_get K k' SESSION_TOKEN = kr_get K k1 SESSION_TOKEN"
    by (rule delete_secret_ok(2)[OF assms(1) k2]) (simp add: SESSION_TOKEN_def MASTER_KEY_def)
  with delete_secret_ok(1,3)[OF assms(1) k1] delete_secret_ok(1)[OF assms(1) k2] show ?thesis
    by (simp add: get_secret_def)
qed

text \<open>Within a day of the last check the version check neither asks the network nor writes.\<close>

lemma update_check_cached:
  assumes "read_version_cache V f (path_join (dirs_cache_path env tmp) (path_of ''version-check.json'')) = Some e"
    and "fs_now f < ve_checked_at e + VERSION_CHECK_TTL_SECS"
  shows "check_for_update V env tmp f fetched cur = check_for_update V env tmp f fetched' cur \<and>
         snd (check_for_update V env tmp f fetched cur) = f"
  using assms by (simp add: check_for_update_def)

section \<open>Concrete runs\<close>

theorem conflict_prompt_termination_witness:
  "resolve_conflict_interactive (\<lambda>n. Inr (if n = 0 then ''maybe'' else '' B '')) 0 = Some KeepBoth \<and>
   resolve_conflict_interactive (\<lambda>_. Inr []) 0 = None"
proof
  let ?inp = "\<lambda>n :: nat. Inr (if n = 0 then ''maybe'' else '' B '') :: string res"
  have "prompt_answer ''maybe'' = None" "prompt_answer '' B '' = Some KeepBoth"
    by (simp_all add: prompt_answer_def str_trim_def trim_front.simps white_space_def starts_with_def ascii_lower_def
        char_of_def bit_0)
  then have "prompt_result (?inp 1) = Some KeepBoth \<and> (\<forall>j < 1. prompt_result (?inp j) = None)"
    by (simp add: prompt_result_def)
  then show "resolve_conflict_interactive ?inp 0 = Some KeepBoth"
    using conflict_prompt_termination[of ?inp KeepBoth] by blast
  show "resolve_conflict_interactive (\<lambda>_. Inr []) 0 = None"
    using conflict_prompt_termination[of "\<lambda>_. Inr []" Defer 0] by simp
qed

definition root_env :: environment where
  "root_env = (\<lambda>k. if k = ''XDG_CONFIG_HOME'' then Some ''/'' else None)"

lemma root_registry_path: "default_registry_path root_env = path_of ''/tcfs/devices.json''"
  by code_simp

lemma root_registry_saves:
  "\<exists>f'. reg_save (one_reg_codec r) one_file r (default_registry_path root_env) = (Inr (), f')"
  by (rule one_file_saves) (simp add: root_registry_path)

lemma root_registry_empty: "reg_load J one_file (default_registry_path root_env) = Inr reg_default"
proof -
  have "\<not> fs_exists one_file (default_registry_path root_env)"
    unfolding root_registry_path by code_simp
  then show ?thesis by (simp add: reg_load_def)
qed

lemma root_enroll:
  "reg_enroll toy_hasher ''u1'' 9 reg_default ''laptop'' (device_public_key toy_hasher ''laptop'') None = (''u1'', first_registry)"
  by (simp add: first_registry_def reg_enroll_def)

lemma one_file_now [simp]: "fs_now one_file = 9"
  by (simp add: one_file_def)

definition demo_init :: "bytes \<Rightarrow> string \<Rightarrow> (string \<times> string) res \<times> fs" where
  "demo_init entropy pw =
     cmd_init (one_reg_codec first_registry) toy_hasher
       \<lparr>bip_from_entropy = (\<lambda>e. Some (if e = [1] then ''one'' else ''two'')), bip_parse = (\<lambda>_. True)\<rparr>
       \<lparr>a2_params_ok = (\<lambda>_ _ _ _. True), a2_hash = (\<lambda>_ p _ _. Some p)\<rparr> toy_aead root_env None ''u1''
       \<lparr>ir_entropy = entropy, ir_salt = [], ir_file_key = [7], ir_nonce = zero_nonce\<rparr> one_file (Some ''laptop'') (Inr pw)"

lemma demo_init_runs: "\<exists>f'. demo_init entropy pw = (Inr (if entropy = [1] then ''one'' else ''two'', ''u1''), f')"
proof -
  obtain f' where "reg_save (one_reg_codec first_registry) one_file first_registry (default_registry_path root_env) = (Inr (), f')"
    using root_registry_saves by blast
  moreover have "reg_find reg_default n = None" for n by (simp add: reg_find_def reg_default_def)
  ultimately show ?thesis
    by (simp add: demo_init_def cmd_init_def root_registry_empty generate_mnemonic_def mnemonic_to_master_key_def
        derive_master_key_def toy_wrap_key unwrap_or_def root_enroll)
qed

theorem init_stores_no_key_witness:
  "\<exists>f'. demo_init [1] ''secret'' = (Inr (''one'', ''u1''), f') \<and> demo_init [2] ''other'' = (Inr (''two'', ''u1''), f')"
proof -
  obtain f' f'' where runs: "demo_init [1] ''secret'' = (Inr (''one'', ''u1''), f')" "demo_init [2] ''other'' = (Inr (''two'', ''u1''), f'')"
    using demo_init_runs[of "[1]" "''secret''"] demo_init_runs[of "[2]" "''other''"] by auto
  have "f' = f''" using init_stores_no_key[OF runs[unfolded demo_init_def]] by simp
  with runs show ?thesis by blast
qed

theorem registry_names_stay_unique_witness:
  "\<exists>f'. registry_step (one_reg_codec first_registry) toy_hasher root_env one_file f' \<and>
     reg_load (one_reg_codec first_registry) f' (default_registry_path root_env) = Inr first_registry \<and>
     names_unique first_registry"
proof -
  let ?R = "one_reg_codec first_registry"
  obtain f' where sv: "reg_save ?R one_file first_registry (default_registry_path root_env) = (Inr (), f')"
    using root_registry_saves by blast
  have "reg_find reg_default n = None" for n by (simp add: reg_find_def reg_default_def)
  then have "cmd_device_enroll ?R toy_hasher root_env None ''u1'' one_file (Some ''laptop'') = (Inr ''u1'', f')"
    using sv by (simp add: cmd_device_enroll_def root_registry_empty unwrap_or_def root_enroll)
  then have st: "registry_step ?R toy_hasher root_env one_file f'" by (rule registry_step.enroll)
  have ld: "reg_load ?R f' (default_registry_path root_env) = Inr first_registry"
    by (rule reg_load_saved[OF one_reg_codec_laws sv]) simp_all
  have ok: "registry_ok ?R root_env one_file"
    by (simp add: registry_ok_def root_registry_empty names_unique_def reg_default_def)
  from registry_names_stay_unique[OF one_reg_codec_laws ok r_into_rtranclp[of "registry_step ?R toy_hasher root_env", OF st] ld]
  show ?thesis using st ld by blast
qed

end
