(* ===== verification/Cli_Main.thy ===== *)
theory Cli_Main
  imports Cli_Admin Daemon_Start
begin

text \<open>
  The command line as a whole (\<^verbatim>\<open>crates/tcfs-cli/src/main.rs\<close>): its commands, \<^verbatim>\<open>main\<close> with the
  configuration it loads first, and the two commands that only report (\<^verbatim>\<open>status\<close>, \<^verbatim>\<open>config show\<close>). A
  command maps the world (disk, remote store, keychain) to its output and the world it leaves;
  everything else a command asks for (daemon answers, prompts, random bytes, programs it starts,
  libraries) is in the record \<open>outside\<close>. Texts of the sync and device commands are the reports of
  their own theories; \<^verbatim>\<open>status\<close> and \<^verbatim>\<open>config show\<close> give the printed lines.
\<close>

section \<open>Model: commands\<close>

datatype ConfigAction = ConfigShow

datatype KdbxAction =
    KdbxResolve string "path option" "string option"
  | KdbxImport "path option" "string option"

datatype DeviceAction = DeviceEnroll "string option" | DeviceList | DeviceRevoke string | DeviceStatus

datatype AuthAction = AuthUnlock | AuthLock

datatype Commands =
    CliStatus
  | CliConfig ConfigAction
  | CliKdbx KdbxAction
  | CliPush path "string option" "path option"
  | CliPull string "path option" "string option" "path option"
  | CliSyncStatus "path option" "path option"
  | CliMount string path bool
  | CliUnmount path
  | CliUnsync path bool
  | CliInit "string option" bool "string option"
  | CliDevice DeviceAction
  | CliAuth AuthAction
  | CliRotateCredentials "path option" bool

record ('s, 'k) cli_world =
  lw_fs :: fs
  lw_store :: 's
  lw_keys :: 'k

record ('s, 'k) outside =
  ou_cli :: "'s cli"
  ou_toml :: "string \<Rightarrow> TcfsConfig option"
  ou_toml_pretty :: "TcfsConfig \<Rightarrow> string option"
  ou_connect :: "unit res"
  ou_status :: "StatusResponse res"
  ou_creds :: "CredentialStatusResponse res"
  ou_version :: version_codec
  ou_temp_dir :: string
  ou_latest :: "string option"
  ou_kdbx :: "bytes \<Rightarrow> string \<Rightarrow> kgroup res"
  ou_prompt :: "string \<Rightarrow> string res"
  ou_rnd :: "nat \<Rightarrow> rnd"
  ou_tree :: "path \<Rightarrow> dtree"
  ou_bip39 :: bip39
  ou_argon2 :: argon2
  ou_uuid :: string
  ou_init_rnd :: init_rnd
  ou_keyring :: "'k keyring"
  ou_yaml :: yaml_codec
  ou_sops_encrypt :: "string \<Rightarrow> path \<Rightarrow> string res"
  ou_fusermount :: "bool res"
  ou_umount :: "bool res"
  ou_rdir :: rdir
  ou_session :: "'s mount_session"

text \<open>\<^verbatim>\<open>&s[..n.min(s.len())]\<close>: panics when the cut is inside a character.\<close>

definition str_prefix :: "nat \<Rightarrow> string \<Rightarrow> string res" where
  "str_prefix n s = (if n < length s \<and> is_cont (s ! n) then Err (EPanic ''str slice'') else Ok (take n s))"

section \<open>Model: reports\<close>

text \<open>The lines that name the device, when the daemon has an identity.\<close>

definition device_lines :: "StatusResponse \<Rightarrow> string list res" where
  "device_lines s =
     (if rs_device_id s = [] then Ok []
      else (case str_prefix 8 (rs_device_id s) of
              Inl e \<Rightarrow> Inl e
            | Inr short \<Rightarrow> Ok [''  device:        '' @ rs_device_name s @ '' ('' @ short @ '')'',
                                ''  conflict mode: '' @ rs_conflict_mode s]))"

definition status_lines :: "path \<Rightarrow> StatusResponse \<Rightarrow> CredentialStatusResponse \<Rightarrow> string list res" where
  "status_lines socket s c =
     (case device_lines s of
        Inl e \<Rightarrow> Inl e
      | Inr dev \<Rightarrow>
          Ok ([''tcfsd v'' @ rs_version s, ''  uptime:        '' @ format_uptime (sint (rs_uptime_secs s)),
               ''  socket:        '' @ path_str socket] @ dev @
              [''  storage:       '' @ rs_storage_endpoint s @ '' ['' @ (if rs_storage_ok s then ''ok'' else ''UNREACHABLE'') @ '']'',
               ''  nats:          '' @ (if rs_nats_ok s then ''connected'' else ''not connected''),
               ''  active mounts: '' @ dec_of_int (sint (rs_active_mounts s)),
               ''  credentials:   '' @ (if rc_loaded c then ''loaded'' else ''NOT LOADED'') @ '' (source: '' @ rc_source c @ '')''] @
              (if rc_needs_reload c then [''  WARNING: credentials need reload''] else [])))"

text \<open>A missing socket ends the program with exit code 1; the update notice is only shown or not.\<close>

definition cmd_status :: "('s, 'k) outside \<Rightarrow> fs \<Rightarrow> TcfsConfig \<Rightarrow> (string list \<times> bool) res \<times> fs" where
  "cmd_status X f cfg =
     (let socket = dm_socket (cf_daemon cfg)
      in if \<not> fs_exists f socket then (Err (EMissing (path_str socket)), f)
         else (case ou_connect X of
            Inl e \<Rightarrow> (Inl e, f)
          | Inr _ \<Rightarrow>
              (case ou_status X of
                 Inl e \<Rightarrow> (Inl e, f)
               | Inr s \<Rightarrow>
                   (case ou_creds X of
                      Inl e \<Rightarrow> (Inl e, f)
                    | Inr c \<Rightarrow>
                        (case status_lines socket s c of
                           Inl e \<Rightarrow> (Inl e, f)
                         | Inr ls \<Rightarrow>
                             (case check_for_update (ou_version X) (cl_env (ou_cli X)) (ou_temp_dir X) f (ou_latest X)
                                     (rs_version s) of
                                (notice, f') \<Rightarrow> (Ok (ls, notice), f')))))))"

definition cmd_config_show :: "('s, 'k) outside \<Rightarrow> fs \<Rightarrow> TcfsConfig \<Rightarrow> path \<Rightarrow> string list res" where
  "cmd_config_show X f cfg p =
     (case ou_toml_pretty X cfg of
        None \<Rightarrow> Err (ESerialize ''config'')
      | Some rendered \<Rightarrow>
          Ok [if fs_exists f p then ''# Configuration from: '' @ path_str p
              else ''# Configuration: defaults (no file at '' @ path_str p @ '')'', [], rendered])"

section \<open>Model: main\<close>

datatype cli_output =
    StatusShown "string list" bool
  | ConfigShown "string list"
  | Resolved KdbxCredential
  | Pushed push_report
  | Pulled DownloadResult
  | SyncShown nat "file_report option"
  | Unsynced bool
  | Initialised string string
  | Enrolled string
  | Listed "DeviceIdentity list"
  | DeviceShown "DeviceIdentity option"
  | Rotated RotationResult
  | Done

text \<open>Results with the part of the world a command leaves.\<close>

definition on_fs :: "('s, 'k) cli_world \<Rightarrow> ('a \<Rightarrow> cli_output) \<Rightarrow> 'a res \<times> fs \<Rightarrow> cli_output res \<times> ('s, 'k) cli_world" where
  "on_fs w mk x = (map_sum id mk (fst x), w\<lparr>lw_fs := snd x\<rparr>)"

definition on_keys :: "('s, 'k) cli_world \<Rightarrow> ('a \<Rightarrow> cli_output) \<Rightarrow> 'a res \<times> 'k \<Rightarrow> cli_output res \<times> ('s, 'k) cli_world" where
  "on_keys w mk x = (map_sum id mk (fst x), w\<lparr>lw_keys := snd x\<rparr>)"

definition unchanged :: "('s, 'k) cli_world \<Rightarrow> ('a \<Rightarrow> cli_output) \<Rightarrow> 'a res \<Rightarrow> cli_output res \<times> ('s, 'k) cli_world" where
  "unchanged w mk r = (map_sum id mk r, w)"

fun run_command ::
  "('s, 'k) outside \<Rightarrow> path \<Rightarrow> TcfsConfig \<Rightarrow> ('s, 'k) cli_world \<Rightarrow> Commands \<Rightarrow> cli_output res \<times> ('s, 'k) cli_world" where
  "run_command X cp cfg w CliStatus = on_fs w (\<lambda>(ls, n). StatusShown ls n) (cmd_status X (lw_fs w) cfg)"
| "run_command X cp cfg w (CliConfig ConfigShow) = unchanged w ConfigShown (cmd_config_show X (lw_fs w) cfg cp)"
| "run_command X cp cfg w (CliKdbx (KdbxResolve query p pw)) =
     unchanged w Resolved (case resolve_password pw (ou_prompt X ''KDBX master password: '') of
        Inl e \<Rightarrow> Inl e | Inr secret \<Rightarrow> cmd_kdbx_resolve (ou_kdbx X) (lw_fs w) cfg query p secret)"
| "run_command X cp cfg w (CliKdbx (KdbxImport p pw)) = (Err (EUnsupported ''kdbx import''), w)"
| "run_command X cp cfg w (CliPush local pfx state) =
     (case cmd_push (ou_cli X) (ou_rnd X) (lw_fs w) (ou_tree X local) (lw_store w) cfg local pfx state of
        (r, f', s') \<Rightarrow> (map_sum id Pushed r, w\<lparr>lw_fs := f', lw_store := s'\<rparr>))"
| "run_command X cp cfg w (CliPull manifest local pfx state) =
     on_fs w Pulled (cmd_pull (ou_cli X) (lw_fs w) (lw_store w) cfg manifest local pfx state)"
| "run_command X cp cfg w (CliSyncStatus pth state) =
     unchanged w (\<lambda>(n, r). SyncShown n r) (cmd_sync_status (ou_cli X) (lw_fs w) cfg pth state)"
| "run_command X cp cfg w (CliMount remote mountpoint read_only) =
     on_fs w (\<lambda>_. Done) (cmd_mount (cl_build (ou_cli X)) (cl_env (ou_cli X)) (ou_rdir X) (ou_session X) (lw_fs w) cfg remote
       mountpoint read_only)"
| "run_command X cp cfg w (CliUnmount mountpoint) =
     unchanged w (\<lambda>_. Done) (cmd_unmount mountpoint (ou_fusermount X) (ou_umount X))"
| "run_command X cp cfg w (CliUnsync pth force) = on_fs w Unsynced (cmd_unsync (ou_cli X) (lw_fs w) cfg pth force)"
| "run_command X cp cfg w (CliInit name non_interactive password) =
     on_fs w (\<lambda>(words, i). Initialised words i)
       (cmd_init (cl_reg (ou_cli X)) (l_hash (cl_libs (ou_cli X))) (ou_bip39 X) (ou_argon2 X) (l_aead (cl_libs (ou_cli X)))
          (cl_env (ou_cli X)) (cl_host (ou_cli X)) (ou_uuid X) (ou_init_rnd X) (lw_fs w) name
          (init_passphrase non_interactive password (ou_prompt X ''Master passphrase: '') (ou_prompt X ''Confirm passphrase: '')))"
| "run_command X cp cfg w (CliDevice (DeviceEnroll name)) =
     on_fs w Enrolled (cmd_device_enroll (cl_reg (ou_cli X)) (l_hash (cl_libs (ou_cli X))) (cl_env (ou_cli X)) (cl_host (ou_cli X))
       (ou_uuid X) (lw_fs w) name)"
| "run_command X cp cfg w (CliDevice DeviceList) =
     unchanged w Listed (cmd_device_list (cl_reg (ou_cli X)) (cl_env (ou_cli X)) (lw_fs w))"
| "run_command X cp cfg w (CliDevice (DeviceRevoke name)) =
     on_fs w (\<lambda>_. Done) (cmd_device_revoke (cl_reg (ou_cli X)) (cl_env (ou_cli X)) (lw_fs w) name)"
| "run_command X cp cfg w (CliDevice DeviceStatus) =
     unchanged w DeviceShown (cmd_device_status (cl_reg (ou_cli X)) (cl_env (ou_cli X)) (cl_host (ou_cli X)) (lw_fs w))"
| "run_command X cp cfg w (CliAuth AuthUnlock) =
     on_keys w (\<lambda>_. Done) (cmd_auth_unlock (ou_keyring X) (lw_keys w) (ou_prompt X ''Master passphrase: ''))"
| "run_command X cp cfg w (CliAuth AuthLock) = on_keys w (\<lambda>_. Done) (cmd_auth_lock (ou_keyring X) (lw_keys w))"
| "run_command X cp cfg w (CliRotateCredentials p non_interactive) =
     on_fs w Rotated (cmd_rotate_credentials (ou_yaml X) (ou_sops_encrypt X) (cl_env (ou_cli X)) (lw_fs w) cfg p non_interactive
       (ou_prompt X ''New Access Key ID: '') (ou_prompt X ''New Secret Access Key: ''))"

definition cli_main ::
  "('s, 'k) outside \<Rightarrow> ('s, 'k) cli_world \<Rightarrow> path \<Rightarrow> Commands \<Rightarrow> cli_output res \<times> ('s, 'k) cli_world" where
  "cli_main X w cp c =
     (case load_config (ou_toml X) (lw_fs w) cp of
        Inl e \<Rightarrow> (Inl e, w)
      | Inr cfg \<Rightarrow> run_command X cp cfg w c)"

section \<open>What a command may change\<close>

text \<open>The files an operation may change, and how the operations of the file system obey it.\<close>

definition touches_only :: "path set \<Rightarrow> fs \<Rightarrow> fs \<Rightarrow> bool" where
  "touches_only A f f' \<longleftrightarrow> (\<forall>q. q \<notin> A \<longrightarrow> files f' q = files f q)"

lemma touches_refl [simp]: "touches_only A f f"
  by (simp add: touches_only_def)

lemma touches_trans: "touches_only A f f1 \<Longrightarrow> touches_only A f1 f2 \<Longrightarrow> touches_only A f f2"
  by (simp add: touches_only_def)

lemma touches_basic:
  "p \<in> A \<Longrightarrow> fs_write f p d = (r, f') \<Longrightarrow> touches_only A f f'"
  "fs_ensure_parent f p = (r1, f') \<Longrightarrow> touches_only A f f'"
  "p \<in> A \<Longrightarrow> fs_remove_file f p = (r2, f') \<Longrightarrow> touches_only A f f'"
  "b \<in> A \<Longrightarrow> fs_copy f a b = (r3, f') \<Longrightarrow> touches_only A f f'"
  "fs_create_dir_all f p = (r4, f') \<Longrightarrow> touches_only A f f'"
proof -
  show w: "p \<in> A \<Longrightarrow> fs_write f p d = (r, f') \<Longrightarrow> touches_only A f f'" for p d r
    using fs_write_frame by (metis touches_only_def)
  show "fs_ensure_parent f p = (r1, f') \<Longrightarrow> touches_only A f f'"
    using ensure_parent_files[of f p] by (simp add: touches_only_def)
  show "p \<in> A \<Longrightarrow> fs_remove_file f p = (r2, f') \<Longrightarrow> touches_only A f f'"
    by (auto simp: touches_only_def fs_remove_file_def split: if_splits)
  show "b \<in> A \<Longrightarrow> fs_copy f a b = (r3, f') \<Longrightarrow> touches_only A f f'"
    using w by (auto simp: fs_copy_def split: sum.splits)
  show "fs_create_dir_all f p = (r4, f') \<Longrightarrow> touches_only A f f'"
    by (auto simp: touches_only_def fs_create_dir_all_def split: if_splits)
qed

lemma touches_replace: "tmp \<in> A \<Longrightarrow> p \<in> A \<Longrightarrow> fs_replace f tmp p d = (r, f') \<Longrightarrow> touches_only A f f'"
  by (cases r) (auto simp: touches_only_def dest!: fs_replace_ok dest: fs_replace_err)

text \<open>The cached result of the version check, and the state file of the command line with its scratch file.\<close>

definition version_cache_path :: "('s, 'k) outside \<Rightarrow> path" where
  "version_cache_path X = path_join (dirs_cache_path (cl_env (ou_cli X)) (ou_temp_dir X)) (path_of ''version-check.json'')"

definition state_files :: "('s, 'k) outside \<Rightarrow> TcfsConfig \<Rightarrow> path option \<Rightarrow> path set" where
  "state_files X cfg over =
     (let p = resolve_state_path (cl_env (ou_cli X)) cfg over in {p, with_extension p ''tmp''})"

lemma touches_flush:
  assumes "db_path c \<in> A" and "with_extension (db_path c) ''tmp'' \<in> A"
  shows "sc_flush J f c = (r, f', c') \<Longrightarrow> touches_only A f f' \<and> db_path c' = db_path c"
    and "touches_only A f (sc_drop J f c)"
proof -
  have A: "q \<noteq> db_path c" "q \<noteq> with_extension (db_path c) ''tmp''" if "q \<notin> A" for q using assms that by auto
  show *: "sc_flush J f c = (r, f', c') \<Longrightarrow> touches_only A f f' \<and> db_path c' = db_path c" for r f' c'
    using sc_flush_frame(1)[OF _ A] sc_flush_env by (simp add: touches_only_def)
  obtain r f' c' where "sc_flush J f c = (r, f', c')" by (metis prod_cases3)
  with *[OF this] show "touches_only A f (sc_drop J f c)" by (simp add: sc_drop_def)
qed

lemma upload_db_path:
  "upload_file_with_device E rn f s c lp p dev rel enc = (r, s', c') \<Longrightarrow> db_path c' = db_path c"
  by (erule upload_cases) (auto simp: sc_set_def dest: upload_write_result)

lemma push_loop_db_path:
  "push_loop E rn f root rp dev enc i ps s c n = (s', c', n') \<Longrightarrow> db_path c' = db_path c"
proof (induction ps arbitrary: i s c n)
  case (Cons lp ps)
  obtain r s1 c1 where up: "upload_file_with_device E (rn i) f s c lp (remote_path_prefix rp) dev (Some (rel_string root lp)) enc =
      (r, s1, c1)"
    using prod_cases3 by blast
  from Cons.prems Cons.IH[of "Suc i" _ c1] upload_db_path[OF up] show ?case
    by (cases r) (auto simp: up Let_def)
qed simp

lemma touches_push_tree:
  assumes "db_path c \<in> A" and "with_extension (db_path c) ''tmp'' \<in> A"
    and "push_tree_with_device E J G rn f t s c root rp dev cfg enc = (r, f', s', c')"
  shows "touches_only A f f' \<and> db_path c' = db_path c"
  using assms(3)
proof (cases "collect_files G f (case cfg of None \<Rightarrow> default_collect | Some x \<Rightarrow> x) root t")
  case (Inr ps)
  obtain s1 c1 n where lp: "push_loop E rn f root rp dev enc 0 ps s c (0, 0, 0) = (s1, c1, n)" using prod_cases3 by blast
  obtain r1 f1 c2 where fl: "sc_flush J f c1 = (r1, f1, c2)" using prod_cases3 by blast
  have "f' = f1" "c' = c2"
    using assms(3) by (auto simp: push_tree_with_device_def Inr lp fl split: sum.splits)
  with touches_flush(1)[OF _ _ fl, of A] assms(1,2) push_loop_db_path[OF lp] show ?thesis by simp
qed (simp add: push_tree_with_device_def)

lemma touches_download:
  assumes "lp \<in> A" and "tmp_of lp \<in> A" and "download_file_with_device E f s remote lp p dev st enc = (r, f', st')"
  shows "touches_only A f f'"
proof -
  have par: "touches_only A f (snd (fs_ensure_parent f lp))"
    by (rule touches_basic(2)[of f lp "fst (fs_ensure_parent f lp)"]) simp
  have repl: "fs_replace (snd (fs_ensure_parent f lp)) (tmp_of lp) lp d = (x, f') \<Longrightarrow> touches_only A f f'" for d x
    using touches_trans[OF par touches_replace[OF assms(2,1)]] by blast
  from assms(3) show ?thesis
    by (cases rule: download_cases) (use par repl in auto)
qed

lemma touches_write_into:
  assumes "p \<in> A" and "fs_ensure_parent f p = (r1, f1)" and "fs_write f1 p d = (r, f')"
  shows "touches_only A f f'"
  using touches_trans[OF touches_basic(2)[OF assms(2)] touches_basic(1)[OF assms(1,3)]] .

lemma touches_reg_save:
  assumes "p \<in> A" and "reg_save J f r p = (x, f')"
  shows "touches_only A f f'"
  using assms(2) touches_write_into[OF assms(1)] touches_basic(2)[of f p]
  by (auto simp: reg_save_def split: prod.splits sum.splits option.splits)

lemma touches_version_cache:
  assumes "p \<in> A"
  shows "touches_only A f (snd (write_version_cache V f p e))"
proof -
  obtain r1 f1 where e1: "fs_ensure_parent f p = (r1, f1)" by fastforce
  have "touches_only A f (snd (fs_write f1 p d))" for d
    by (rule touches_write_into[OF assms e1, of d "fst (fs_write f1 p d)"]) simp
  then show ?thesis
    using touches_basic(2)[OF e1]
    by (cases r1; cases "vx_to_json V e") (simp_all add: write_version_cache_def e1)
qed

section \<open>Every command\<close>

text \<open>The files a command may change, under the configuration it runs with.\<close>

fun footprint :: "('s, 'k) outside \<Rightarrow> TcfsConfig \<Rightarrow> fs \<Rightarrow> Commands \<Rightarrow> path set" where
  "footprint X cfg f CliStatus = {version_cache_path X}"
| "footprint X cfg f (CliPush local pfx state) = state_files X cfg state"
| "footprint X cfg f (CliPull manifest local pfx state) =
     (let p = unwrap_or (path_of (rsplit_first slash manifest)) local in {p, tmp_of p} \<union> state_files X cfg state)"
| "footprint X cfg f (CliUnsync p force) = {p, stub_beside p (unwrap_or [] (file_name p))}"
| "footprint X cfg f (CliInit name non_interactive password) = {default_registry_path (cl_env (ou_cli X))}"
| "footprint X cfg f (CliDevice (DeviceEnroll name)) = {default_registry_path (cl_env (ou_cli X))}"
| "footprint X cfg f (CliDevice (DeviceRevoke name)) = {default_registry_path (cl_env (ou_cli X))}"
| "footprint X cfg f (CliRotateCredentials p non_interactive) =
     (case or_else p (sg_credentials_file (cf_storage cfg)) of
        None \<Rightarrow> {}
      | Some q \<Rightarrow> {q, replace_tmp q, rotation_backup f q})"
| "footprint X cfg f (CliMount remote mountpoint read_only) =
     {q. is_ancestor (cli_expand_tilde (cl_env (ou_cli X)) (fu_cache_dir (cf_fuse cfg))) q}"
| "footprint X cfg f _ = {}"

lemma status_footprint: "touches_only {version_cache_path X} f (snd (cmd_status X f cfg))"
  using touches_version_cache[of "version_cache_path X" "{version_cache_path X}" f]
  by (auto simp: cmd_status_def check_for_update_def version_cache_path_def Let_def
      split: sum.split option.split prod.split)

lemma push_footprint:
  assumes "cmd_push (ou_cli X) rn f t s cfg local pfx over = (r, f', s')"
  shows "touches_only (state_files X cfg over) f f'"
proof (cases "sc_open (cl_state (ou_cli X)) f (resolve_state_path (cl_env (ou_cli X)) cfg over)")
  case (Inl e)
  then show ?thesis using assms by (auto simp: cmd_push_def split: sum.splits)
next
  case (Inr st)
  let ?A = "state_files X cfg over" and ?J = "cl_state (ou_cli X)"
  have A: "db_path c \<in> ?A" "with_extension (db_path c) ''tmp'' \<in> ?A" if "db_path c = db_path st" for c
    using sc_open_path[OF Inr] that by (simp_all add: state_files_def Let_def)
  note flush = touches_flush[OF A]
  have single: "touches_only ?A f f1"
    if "push_single (ou_cli X) E rn1 f s st local rp dev = (r1, f1, s1)" for E rn1 rp dev r1 f1 s1
  proof -
    obtain r2 s2 c2 where up: "upload_file_with_device E rn1 f s st local rp dev (Some (unwrap_or [] (file_name local))) None =
        (r2, s2, c2)"
      using prod_cases3 by blast
    obtain r3 f3 c3 where fl: "sc_flush ?J f c2 = (r3, f3, c3)" using prod_cases3 by blast
    note d = upload_db_path[OF up]
    from flush(1)[OF d d fl] have "touches_only ?A f f3" "db_path c3 = db_path st" using d by simp_all
    with flush(2)[OF d d] touches_trans[OF _ flush(2)[of c3]] that up fl show ?thesis
      by (auto simp: push_single_def split: sum.splits)
  qed
  have tree: "touches_only ?A f (sc_drop ?J f1 c1)"
    if "push_tree_with_device E ?J G rn f t s st local rp dev cc enc = (r1, f1, s1, c1)" for E G rp dev cc enc r1 f1 s1 c1
    using touches_push_tree[OF A[OF refl] that] touches_trans[OF _ flush(2)[of c1]] by simp
  show ?thesis
    using assms by (auto simp: cmd_push_def Inr Let_def split: sum.splits if_splits prod.splits dest: single tree)
qed

lemma pull_footprint:
  assumes "cmd_pull (ou_cli X) f s cfg manifest local pfx over = (r, f')"
  shows "touches_only (footprint X cfg f (CliPull manifest local pfx over)) f f'"
proof (cases "sc_open (cl_state (ou_cli X)) f (resolve_state_path (cl_env (ou_cli X)) cfg over)")
  case (Inl e)
  then show ?thesis using assms by (auto simp: cmd_pull_def Let_def split: sum.splits)
next
  case (Inr st)
  let ?A = "footprint X cfg f (CliPull manifest local pfx over)" and ?J = "cl_state (ou_cli X)"
    and ?p = "unwrap_or (path_of (rsplit_first slash manifest)) local"
  have p: "?p \<in> ?A" "tmp_of ?p \<in> ?A" by (simp_all add: Let_def)
  have A: "db_path c \<in> ?A" "with_extension (db_path c) ''tmp'' \<in> ?A" if "db_path c = db_path st" for c
    using sc_open_path[OF Inr] that by (simp_all add: state_files_def Let_def)
  note flush = touches_flush[OF A]
  have step: "touches_only ?A f (sc_drop ?J f1 c1)"
    "sc_flush ?J f1 c1 = (r2, f2, c2) \<Longrightarrow> touches_only ?A f (sc_drop ?J f2 c2)"
    if dl: "download_file_with_device E f s manifest ?p pr dev (Some st) None = (r1, f1, st1)" and c1: "c1 = unwrap_or st st1"
    for E pr dev r1 f1 st1 c1 r2 f2 c2
  proof -
    note down = touches_download[OF p dl]
    have d: "db_path c1 = db_path st"
      using download_state_path[OF dl] c1 by (metis unwrap_or_def option.simps(5))
    show "touches_only ?A f (sc_drop ?J f1 c1)" by (rule touches_trans[OF down flush(2)[OF d d]])
    assume "sc_flush ?J f1 c1 = (r2, f2, c2)"
    from flush(1)[OF d d this] d have "touches_only ?A f1 f2" "db_path c2 = db_path st" by simp_all
    then show "touches_only ?A f (sc_drop ?J f2 c2)" using touches_trans down flush(2) by metis
  qed
  show ?thesis
    using assms step by (auto simp: cmd_pull_def Inr Let_def simp del: footprint.simps split: sum.splits prod.splits)
qed

lemma unsync_footprint:
  assumes "cmd_unsync X f cfg p force = (r, f')"
  shows "touches_only {p, stub_beside p (unwrap_or [] (file_name p))} f f'"
proof -
  have "touches_only {p, stub_beside p n} f f2"
    if "fs_write f (stub_beside p n) d = (r1, f1)" "fs_remove_file f1 p = (r2, f2)" for n d r1 f1 r2 f2
    using touches_trans[OF touches_basic(1)[OF _ that(1)] touches_basic(3)[OF _ that(2)]] by blast
  moreover have "touches_only {p, stub_beside p n} f f1" if "fs_write f (stub_beside p n) d = (r1, f1)" for n d r1 f1
    using touches_basic(1)[OF _ that] by blast
  ultimately show ?thesis
    using assms
    by (auto simp: cmd_unsync_def Let_def unwrap_or_def split: if_splits sum.splits option.splits prod.splits)
qed

lemma touches_reg_save_snd: "p \<in> A \<Longrightarrow> touches_only A f (snd (reg_save J f r p))"
  by (rule touches_reg_save[of p A J f r "fst (reg_save J f r p)"]) simp_all

lemma device_footprint:
  "touches_only {default_registry_path env} f (snd (cmd_device_enroll R H env hostname uuid f name))"
  "touches_only {default_registry_path env} f (snd (cmd_device_revoke R env f name'))"
  "touches_only {default_registry_path env} f (snd (cmd_init R H B G K env hostname uuid rn f name pw))"
  by (auto simp: cmd_device_enroll_def cmd_device_revoke_def cmd_init_def Let_def
      intro: touches_reg_save touches_reg_save_snd split: sum.split prod.split bool.split)

lemma rotate_footprint:
  "touches_only {p, replace_tmp p, rotation_backup f p} f (fst (snd (rotate_s3_credentials Y se f p ak sk wt)))"
proof -
  let ?A = "{p, replace_tmp p, rotation_backup f p}"
  obtain b f1 where cp: "fs_copy f p (rotation_backup f p) = (b, f1)" by fastforce
  have 1: "touches_only ?A f f1" by (rule touches_basic(4)[OF _ cp]) simp
  have 2: "touches_only ?A f f2" if "atomic_replace f1 p d = (r, f2)" for d r f2
    using touches_trans[OF 1 touches_replace[of "replace_tmp p" ?A p]] that by (simp add: atomic_replace_def)
  show ?thesis
    using 1 2 by (auto simp: rotate_s3_credentials_def cp split: sum.splits prod.splits)
qed

lemma rotate_command_footprint:
  "touches_only (footprint X cfg f (CliRotateCredentials p ni)) f
     (snd (cmd_rotate_credentials Y se env f cfg p ni ask_ak ask_sk))"
  using rotate_footprint
  by (auto simp: cmd_rotate_credentials_def Let_def split: option.split sum.split prod.split)
    (metis fst_conv snd_conv)+

lemma mount_footprint:
  assumes "lists_below rd"
  shows "touches_only {q. is_ancestor (cli_expand_tilde env (fu_cache_dir (cf_fuse cfg))) q} f
           (snd (cmd_mount mk env rd S f cfg remote mountpoint read_only))"
proof -
  obtain r f1 where mc: "mount_config mk env f cfg remote mountpoint read_only = (r, f1)" by fastforce
  have 1: "touches_only A f f1" for A
    using mc touches_basic(5)[where A = A and f = f]
    by (auto simp: mount_config_def split: sum.splits prod.splits option.splits)
  have "mt_cache_dir m = cli_expand_tilde env (fu_cache_dir (cf_fuse cfg))" if "r = Inr m" for m
    using mc that by (auto simp: mount_config_def split: sum.splits prod.splits option.splits)
  then have "touches_only {q. is_ancestor (cli_expand_tilde env (fu_cache_dir (cf_fuse cfg))) q} f1 (snd (fuse_mount rd S m f1))"
    if "r = Inr m" for m
    using fuse_mount_below[OF assms, of m] that by (simp add: touches_only_def)
  with touches_trans[OF 1] 1 mc show ?thesis by (cases r) (simp_all add: cmd_mount_def)
qed

lemma run_command_fs:
  assumes "lists_below (ou_rdir X)"
  shows "touches_only (footprint X cfg (lw_fs w) c) (lw_fs w) (lw_fs (snd (run_command X cp cfg w c)))"
proof (cases "(X, cp, cfg, w, c)" rule: run_command.cases)
  case (5 X cp cfg w local pfx state)
  then show ?thesis using push_footprint[of X] by (auto split: prod.split)
next
  case (6 X cp cfg w manifest local pfx state)
  then show ?thesis
    using pull_footprint[OF prod.collapse[symmetric], where X = X and f = "lw_fs w" and s = "lw_store w" and cfg = cfg and
        manifest = manifest and local = local and pfx = pfx and over = state]
    by (simp add: on_fs_def del: footprint.simps)
next
  case (8 X cp cfg w remote mountpoint read_only)
  then show ?thesis using mount_footprint assms by (simp add: on_fs_def)
qed (auto simp: on_fs_def on_keys_def unchanged_def status_footprint device_footprint rotate_command_footprint
    simp del: footprint.simps(8) intro!: unsync_footprint[OF prod.collapse[symmetric]])

section \<open>Where a push writes in the store\<close>

lemma trimmed_slashes: "\<exists>n. p = remote_path_prefix p @ replicate n slash"
proof (induction p rule: rev_induct)
  case (snoc x xs)
  show ?case
  proof (cases "x = slash")
    case True
    obtain n where n: "xs = remote_path_prefix xs @ replicate n slash" using snoc by blast
    have "remote_path_prefix (xs @ [x]) = remote_path_prefix xs"
      by (simp add: remote_path_prefix_def trim_end_matches_def True)
    moreover have "replicate (Suc n) slash = replicate n slash @ [slash]" by (simp add: replicate_append_same)
    ultimately show ?thesis using n True by (metis append.assoc)
  next
    case False
    then show ?thesis by (intro exI[of _ 0]) (simp add: remote_path_prefix_def trim_end_matches_def)
  qed
qed (simp add: remote_path_prefix_def trim_end_matches_def)

lemma prefix_trimmed:
  assumes "starts_with (p @ ''/'') k"
  shows "starts_with (remote_path_prefix p @ ''/'') k"
proof -
  obtain r where k: "k = p @ ''/'' @ r" using assms by (auto simp: starts_with_iff)
  obtain n where p: "p = remote_path_prefix p @ replicate n slash" using trimmed_slashes by blast
  have "replicate n slash @ ''/'' = ''/'' @ replicate n slash" by (simp add: replicate_append_same)
  then have "k = (remote_path_prefix p @ ''/'') @ replicate n slash @ r"
    using k p by (metis append.assoc)
  then show ?thesis by (auto simp: starts_with_iff)
qed

lemma prefix_keys:
  assumes "\<not> starts_with (p @ ''/'') k"
  shows "k \<noteq> chunk_key p h" "k \<noteq> manifest_key p h" "k \<noteq> index_key p h"
  using assms by (auto simp: chunk_key_def manifest_key_def index_key_def starts_with_iff)

lemma push_loop_frame:
  assumes "store_laws (l_op E)" and "\<not> starts_with (remote_path_prefix rp @ ''/'') k"
  shows "push_loop E rn f root rp dev enc i ps s c n = (s', c', n') \<Longrightarrow> op_read (l_op E) s' k = op_read (l_op E) s k"
proof (induction ps arbitrary: i s c n)
  case (Cons lp ps)
  let ?p = "remote_path_prefix rp"
  obtain r s1 c1 where up: "upload_file_with_device E (rn i) f s c lp ?p dev (Some (rel_string root lp)) enc = (r, s1, c1)"
    using prod_cases3 by blast
  have 1: "op_read (l_op E) s1 k = op_read (l_op E) s k"
    by (rule upload_frame[OF assms(1) up]) (simp_all add: prefix_keys[OF assms(2)])
  have "op_read (l_op E) (snd (op_write (l_op E) s1 (index_key ?p g) d)) k = op_read (l_op E) s1 k" for g d
    by (rule store_write_frame[OF assms(1) prod.collapse[symmetric]]) (simp add: prefix_keys[OF assms(2)])
  with 1 Cons.prems Cons.IH show ?case by (cases r) (auto simp: up Let_def)
qed simp

lemma push_store_frame:
  assumes "build_operator_from_env (cl_build X) (cl_env X) cfg = Inr opr" and "store_laws opr"
    and "\<not> starts_with (remote_path_prefix (push_prefix local pfx) @ ''/'') k"
    and "cmd_push X rn f t s cfg local pfx over = (r, f', s')"
  shows "op_read opr s' k = op_read opr s k"
proof -
  let ?E = "(cl_libs X)\<lparr>l_op := opr\<rparr>" and ?rp = "push_prefix local pfx"
  have L: "store_laws (l_op ?E)" using assms(2) by simp
  have k: "\<not> starts_with (?rp @ ''/'') k" using assms(3) prefix_trimmed by blast
  have single: "op_read opr s1 k = op_read opr s k"
    if "upload_file_with_device ?E rn1 f s st local ?rp dev rel enc = (x, s1, c1)" for rn1 st dev rel enc x s1 c1
    using upload_frame[OF L that prefix_keys(1,2)[OF k]] by simp
  have tree: "op_read opr s1 k = op_read opr s k"
    if "push_tree_with_device ?E J G rn f t s st local ?rp dev cc enc = (x, f1, s1, c1)" for J G st dev cc enc x f1 s1 c1
    using that push_loop_frame[OF L assms(3)]
    by (auto simp: push_tree_with_device_def split: sum.splits prod.splits)
  show ?thesis
    using assms(1,4)
    by (auto simp: cmd_push_def push_single_def Let_def split: sum.splits if_splits prod.splits dest: single tree)
qed


section \<open>A concrete run\<close>

definition demo_outside :: "((string \<Rightarrow> bytes option), unit) outside" where
  "demo_outside =
     \<lparr>ou_cli = demo_cli (\<lambda>_. None), ou_toml = (\<lambda>_. None), ou_toml_pretty = (\<lambda>_. Some ''x''), ou_connect = Ok (),
      ou_status = Err (EMissing ''daemon''), ou_creds = Err (EMissing ''daemon''),
      ou_version = \<lparr>vx_to_json = (\<lambda>_. None), vx_from_json = (\<lambda>_. None)\<rparr>, ou_temp_dir = ''/tmp'', ou_latest = None,
      ou_kdbx = (\<lambda>_ _. Err (EMissing ''kdbx'')), ou_prompt = (\<lambda>_. Ok ''pw''), ou_rnd = (\<lambda>_. demo_rnd), ou_tree = (\<lambda>_. RegFile),
      ou_bip39 = \<lparr>bip_from_entropy = (\<lambda>_. None), bip_parse = (\<lambda>_. False)\<rparr>,
      ou_argon2 = \<lparr>a2_params_ok = (\<lambda>_ _ _ _. False), a2_hash = (\<lambda>_ _ _ _. None)\<rparr>, ou_uuid = ''u1'',
      ou_init_rnd = \<lparr>ir_entropy = [], ir_salt = [], ir_file_key = [], ir_nonce = []\<rparr>,
      ou_keyring = \<lparr>kr_entry = (\<lambda>_. True), kr_set = (\<lambda>k _ _. (Ok (), k)), kr_get = (\<lambda>_ _. Ok None), kr_delete = (\<lambda>k _. (Ok True, k))\<rparr>,
      ou_yaml = \<lparr>yaml_parse = (\<lambda>_. None), yaml_print = (\<lambda>_. None)\<rparr>, ou_sops_encrypt = (\<lambda>_ _. Err (EMissing ''sops'')),
      ou_fusermount = Ok True, ou_umount = Ok True, ou_rdir = (\<lambda>_ _. Ok []),
      ou_session = \<lparr>ms_uid = 0, ms_gid = 0, ms_now = 0, ms_mounted = Ok (), ms_requests = [], ms_ended = Ok ()\<rparr>\<rparr>"


end
