(* ===== verification/Tui_View.thy ===== *)
theory Tui_View
  imports Tui_App Cli_Main
begin

text \<open>
  What the terminal interface draws (\<^verbatim>\<open>crates/tcfs-tui/src/ui.rs\<close> and \<^verbatim>\<open>ui/widgets\<close>). A view is the
  tree of layouts and widgets handed to ratatui, with texts and styles; ratatui's placing of it on the
  screen is outside the repository. Drawing is a function of the application state, the width of the
  area and the environment; slicing a string inside a character is a panic.
\<close>

section \<open>Model: styled text and widgets\<close>

datatype Color = Green | Red | Yellow | Cyan | DarkGray | White

record Style =
  sty_fg :: "Color option"
  sty_bold :: bool

record Span =
  sp_text :: string
  sp_style :: Style

type_synonym Line = "Span list"

abbreviation style_default :: Style where
  "style_default \<equiv> \<lparr>sty_fg = None, sty_bold = False\<rparr>"

abbreviation fg_style :: "Color \<Rightarrow> Style" where
  "fg_style c \<equiv> \<lparr>sty_fg = Some c, sty_bold = False\<rparr>"

abbreviation bold_style :: "Color \<Rightarrow> Style" where
  "bold_style c \<equiv> \<lparr>sty_fg = Some c, sty_bold = True\<rparr>"

abbreviation span_raw :: "string \<Rightarrow> Span" where
  "span_raw t \<equiv> \<lparr>sp_text = t, sp_style = style_default\<rparr>"

abbreviation span_styled :: "string \<Rightarrow> Style \<Rightarrow> Span" where
  "span_styled t s \<equiv> \<lparr>sp_text = t, sp_style = s\<rparr>"

datatype Widget =
    Paragraph string Style "Line list"
  | ListView string Style "Line list"
  | Sparkline string Style "u64 list"
  | TableView string Style "string list" "string list list" "nat list"
  | TabBar "Span list" "Line list" nat Style
  | PlainText Line

datatype Constraint = Length nat | Min nat | Percentage nat

datatype view =
    Show Widget
  | Vertical "(Constraint \<times> view) list"
  | Horizontal "(Constraint \<times> view) list"

section \<open>Model: the tabs\<close>

subsection \<open>Dashboard\<close>

text \<open>Seconds come over the wire as a signed number; its absolute value is shown.\<close>

definition dash_format_uptime :: "u64 \<Rightarrow> string" where
  "dash_format_uptime w =
     (let secs = nat \<bar>sint w\<bar>; days = secs div 86400; hours = (secs mod 86400) div 3600;
          mins = (secs mod 3600) div 60; s = secs mod 60
      in if days > 0 then dec_of_nat days @ ''d '' @ dec_of_nat hours @ ''h '' @ dec_of_nat mins @ ''m '' @ dec_of_nat s @ ''s''
         else if hours > 0 then dec_of_nat hours @ ''h '' @ dec_of_nat mins @ ''m '' @ dec_of_nat s @ ''s''
         else if mins > 0 then dec_of_nat mins @ ''m '' @ dec_of_nat s @ ''s''
         else dec_of_nat s @ ''s'')"

definition draw_status_card :: "App \<Rightarrow> view" where
  "draw_status_card a =
     Show (Paragraph '' Daemon Status '' style_default
       (case ap_daemon_status a of
          Some s \<Rightarrow>
            [[span_styled ''  Version:  '' (fg_style DarkGray), span_raw (rs_version s)],
             [span_styled ''  Endpoint: '' (fg_style DarkGray), span_raw (rs_storage_endpoint s)],
             [span_styled ''  Storage:  '' (fg_style DarkGray),
              span_styled (if rs_storage_ok s then ''OK'' else ''FAIL'') (fg_style (if rs_storage_ok s then Green else Red))],
             [span_styled ''  NATS:     '' (fg_style DarkGray),
              span_styled (if rs_nats_ok s then ''OK'' else ''N/A'') (fg_style (if rs_nats_ok s then Green else Yellow))],
             [span_styled ''  Mounts:   '' (fg_style DarkGray), span_raw (dec_of_int (sint (rs_active_mounts s)))],
             [span_styled ''  Uptime:   '' (fg_style DarkGray), span_raw (dash_format_uptime (rs_uptime_secs s))]]
        | None \<Rightarrow>
            [[span_styled (case ap_error a of Some e \<Rightarrow> ''  Disconnected: '' @ e | None \<Rightarrow> ''  Connecting...'') (fg_style Red)]]))"

definition draw_sparkline :: "App \<Rightarrow> view" where
  "draw_sparkline a = Show (Sparkline '' Uptime (ticks) '' (fg_style Cyan) (ap_uptime_history a))"

definition draw_cred_card :: "App \<Rightarrow> view" where
  "draw_cred_card a =
     Show (Paragraph '' Credentials '' style_default
       (case ap_cred_status a of
          Some c \<Rightarrow>
            [[span_styled ''  Loaded: '' (fg_style DarkGray),
              span_styled (if rc_loaded c then ''Yes'' else ''No'') (fg_style (if rc_loaded c then Green else Red))],
             [span_styled ''  Source: '' (fg_style DarkGray), span_raw (rc_source c)],
             [span_styled ''  Reload: '' (fg_style DarkGray),
              span_styled (if rc_needs_reload c then ''NEEDED'' else ''No'')
                (if rc_needs_reload c then bold_style Yellow else fg_style DarkGray)]]
        | None \<Rightarrow> [[span_styled ''  No credential data'' (fg_style DarkGray)]]))"

definition dashboard_draw :: "nat \<Rightarrow> App \<Rightarrow> view" where
  "dashboard_draw width a =
     (if width \<ge> 100
      then Vertical [(Min 8, Horizontal [(Percentage 60, draw_status_card a), (Percentage 40, draw_sparkline a)]),
                     (Length 8, draw_cred_card a)]
      else Vertical [(Length 10, draw_status_card a), (Length 6, draw_cred_card a), (Min 0, draw_sparkline a)])"

subsection \<open>Configuration\<close>

definition section_header :: "string \<Rightarrow> Line list" where
  "section_header name = [[span_raw []], [span_styled (''  ['' @ name @ '']'') (bold_style Cyan)]]"

text \<open>\<^verbatim>\<open>{key:<18}\<close>: padded on the right; all keys are ASCII.\<close>

definition config_kv :: "string \<Rightarrow> string \<Rightarrow> Line" where
  "config_kv key v =
     [span_styled (''    '' @ key @ replicate (18 - length key) CHR '' '') (fg_style DarkGray), span_raw v]"

abbreviation yes_no :: "bool \<Rightarrow> string" where
  "yes_no b \<equiv> (if b then ''Yes'' else ''No'')"

definition path_or :: "string \<Rightarrow> path option \<Rightarrow> string" where
  "path_or d p = (case p of Some q \<Rightarrow> path_str q | None \<Rightarrow> d)"

definition config_draw :: "App \<Rightarrow> view" where
  "config_draw a =
     (let c = ap_config a; d = cf_daemon c; g = cf_storage c; x = cf_secrets c; y = cf_sync c; u = cf_fuse c; k = cf_crypto c
      in Show (Paragraph '' Configuration '' style_default
           (section_header ''Daemon'' @
            [config_kv ''Socket'' (path_str (dm_socket d)),
             config_kv ''Metrics'' (unwrap_or ''disabled'' (dm_metrics_addr d)),
             config_kv ''Log Level'' (dm_log_level d), config_kv ''Log Format'' (dm_log_format d)] @
            section_header ''Storage'' @
            [config_kv ''Endpoint'' (sg_endpoint g), config_kv ''Region'' (sg_region g), config_kv ''Bucket'' (sg_bucket g),
             config_kv ''TLS Enforced'' (yes_no (sg_enforce_tls g))] @
            section_header ''Secrets'' @
            [config_kv ''Age Identity'' (path_or ''not set'' (age_identity x)),
             config_kv ''KDBX Path'' (path_or ''not set'' (kdbx_path x)),
             config_kv ''SOPS Dir'' (path_or ''not set'' (sx_sops_dir x))] @
            section_header ''Sync'' @
            [config_kv ''NATS URL'' (sy_nats_url y), config_kv ''NATS TLS'' (yes_no (sy_nats_tls y)),
             config_kv ''State DB'' (path_str (sy_state_db y)), config_kv ''Workers'' (dec_of_nat (unat (sy_workers y)))] @
            section_header ''FUSE'' @
            [config_kv ''Cache Dir'' (path_str (fu_cache_dir u)),
             config_kv ''Cache Max MB'' (dec_of_u64 (fu_cache_max_mb u))] @
            section_header ''Crypto'' @
            [config_kv ''Enabled'' (yes_no (cy_enabled k))] @
            (if cy_enabled k
             then [config_kv ''Argon2 Memory'' (dec_of_nat (unat (cy_argon2_mem_cost_kib k)) @ '' KiB''),
                   config_kv ''Argon2 Time'' (dec_of_nat (unat (cy_argon2_time_cost k))),
                   config_kv ''Argon2 Parallelism'' (dec_of_nat (unat (cy_argon2_parallelism k)))]
             else []))))"

subsection \<open>Mounts\<close>

definition mounts_draw :: "App \<Rightarrow> view" where
  "mounts_draw a =
     (let mount_count = (case ap_daemon_status a of Some s \<Rightarrow> sint (rs_active_mounts s) | None \<Rightarrow> 0)
      in if \<not> ap_connected a
         then Show (Paragraph '' Active Mounts '' style_default [[span_styled ''  Daemon not connected'' (fg_style Red)]])
         else if mount_count = 0
         then Show (Paragraph '' Active Mounts '' style_default
                [[span_raw []], [span_styled ''  No active FUSE mounts'' (fg_style DarkGray)], [span_raw []],
                 [span_styled ''  Use `tcfs mount <remote> <mountpoint>` to create one'' (fg_style DarkGray)]])
         else Show (TableView '' Active Mounts '' (bold_style Cyan) [''Mountpoint'', ''Remote'', ''Status'']
                [[''(mount data pending)'', [], []]] [40, 40, 20]))"

subsection \<open>Secrets\<close>

definition draw_cred_detail :: "App \<Rightarrow> view" where
  "draw_cred_detail a =
     Show (Paragraph '' Credential Status '' style_default
       (case ap_cred_status a of
          Some c \<Rightarrow>
            [[span_styled ''  Loaded:      '' (fg_style DarkGray),
              span_styled (yes_no (rc_loaded c)) (if rc_loaded c then fg_style Green else bold_style Red)],
             [span_styled ''  Source:      '' (fg_style DarkGray), span_raw (rc_source c)],
             [span_styled ''  Loaded At:   '' (fg_style DarkGray),
              span_raw (if sint (rc_loaded_at c) > 0 then ''epoch '' @ dec_of_int (sint (rc_loaded_at c)) else ''N/A'')],
             [span_styled ''  Needs Reload:'' (fg_style DarkGray),
              span_styled (if rc_needs_reload c then '' Yes'' else '' No'')
                (fg_style (if rc_needs_reload c then Yellow else DarkGray))]]
        | None \<Rightarrow>
            [[span_styled (if ap_connected a then ''  Loading...'' else ''  Daemon not connected'') (fg_style DarkGray)]]))"

definition draw_sops_info :: "environment \<Rightarrow> App \<Rightarrow> view" where
  "draw_sops_info env a =
     (let c = cf_secrets (ap_config a)
      in Show (Paragraph '' Secrets Configuration '' style_default
           ([[span_styled ''  Age Identity:  '' (fg_style DarkGray), span_raw (path_or ''not configured'' (age_identity c))],
             [span_styled ''  KDBX Path:     '' (fg_style DarkGray), span_raw (path_or ''not configured'' (kdbx_path c))],
             [span_styled ''  SOPS Dir:      '' (fg_style DarkGray), span_raw (path_or ''not configured'' (sx_sops_dir c))]] @
            (case env ''REMOTE_JUGGLER_IDENTITY'' of
               Some i \<Rightarrow> [[span_raw []], [span_styled ''  RemoteJuggler: '' (fg_style Cyan), span_raw i]]
             | None \<Rightarrow> []))))"

definition secrets_draw :: "environment \<Rightarrow> App \<Rightarrow> view" where
  "secrets_draw env a = Vertical [(Length 8, draw_cred_detail a), (Min 0, draw_sops_info env a)]"

subsection \<open>Conflicts\<close>

definition conflict_item :: "nat \<Rightarrow> nat \<Rightarrow> PendingConflict \<Rightarrow> Line" where
  "conflict_item sel i c =
     (let style = (if i = sel then bold_style Yellow else style_default)
      in [span_styled (if i = sel then ''> '' else ''  '') style, span_styled (pc_rel_path c) style, span_raw ''  '',
          span_styled (pc_local_device c @ '' vs '' @ pc_remote_device c) (fg_style DarkGray)])"

definition conflict_list :: "App \<Rightarrow> Widget" where
  "conflict_list a =
     (if ap_conflicts a = []
      then Paragraph '' Pending Conflicts '' (fg_style Green) [[span_raw ''No conflicts detected. All files are in sync.'']]
      else ListView ('' Pending Conflicts ('' @ dec_of_nat (length (ap_conflicts a)) @ '') '') (fg_style Red)
             (map (\<lambda>(i, c). conflict_item (ap_conflict_selected a) i c) (List.enumerate 0 (ap_conflicts a))))"

definition conflict_detail :: "App \<Rightarrow> Line list res" where
  "conflict_detail a =
     (if ap_conflict_selected a < length (ap_conflicts a)
      then (let c = ap_conflicts a ! ap_conflict_selected a; key = \<lparr>sty_fg = None, sty_bold = True\<rparr>
            in case str_prefix 16 (pc_local_hash c) of
                 Inl e \<Rightarrow> Inl e
               | Inr lh \<Rightarrow>
                   (case str_prefix 16 (pc_remote_hash c) of
                      Inl e \<Rightarrow> Inl e
                    | Inr rh \<Rightarrow>
                        Ok [[span_styled ''Path:    '' key, span_raw (pc_rel_path c)],
                            [span_styled ''Local:   '' key, span_raw (pc_local_device c @ '' ('' @ lh @ '')'')],
                            [span_styled ''Remote:  '' key, span_raw (pc_remote_device c @ '' ('' @ rh @ '')'')],
                            [span_raw []],
                            [span_styled ''Keys: [l] keep local  [r] keep remote  [b] keep both  [j/k] navigate''
                               (fg_style DarkGray)]]))
      else Ok [[span_styled ''Select a conflict to see details'' (fg_style DarkGray)]])"

definition conflicts_render :: "App \<Rightarrow> view res" where
  "conflicts_render a =
     (case conflict_detail a of
        Inl e \<Rightarrow> Inl e
      | Inr ls \<Rightarrow> Ok (Vertical [(Min 10, Show (conflict_list a)), (Length 8, Show (Paragraph '' Details '' style_default ls))]))"

section \<open>Model: the frame\<close>

definition draw_header :: "App \<Rightarrow> view" where
  "draw_header a =
     (let titles = map (\<lambda>t. [span_styled (tab_title t) (if t = ap_tab a then bold_style Cyan else fg_style DarkGray)]) ALL_TABS;
          sel = length (takeWhile (\<lambda>t. t \<noteq> ap_tab a) ALL_TABS);
          status = (if ap_connected a then span_styled '' CONNECTED '' (fg_style Green)
                    else span_styled '' DISCONNECTED '' (fg_style Red))
      in Show (TabBar [span_styled '' tcfs-tui '' (bold_style White), status] titles
                 (if sel < length ALL_TABS then sel else 0) (fg_style Cyan)))"

definition draw_footer :: view where
  "draw_footer =
     Show (PlainText [span_styled ''[q]'' (fg_style Yellow), span_raw '' Quit  '', span_styled ''[Tab]'' (fg_style Yellow),
       span_raw '' Switch  '', span_styled ''[1-5]'' (fg_style Yellow), span_raw '' Jump  ''])"

definition draw :: "environment \<Rightarrow> nat \<Rightarrow> App \<Rightarrow> view res" where
  "draw env width a =
     (case (case ap_tab a of
              Dashboard \<Rightarrow> Ok (dashboard_draw width a)
            | Config \<Rightarrow> Ok (config_draw a)
            | Mounts \<Rightarrow> Ok (mounts_draw a)
            | Secrets \<Rightarrow> Ok (secrets_draw env a)
            | Conflicts \<Rightarrow> conflicts_render a) of
        Inl e \<Rightarrow> Inl e
      | Inr body \<Rightarrow> Ok (Vertical [(Length 3, draw_header a), (Min 0, body), (Length 1, draw_footer)]))"

section \<open>Drawing\<close>

lemma str_prefix_hex: "list_all hex_digit s \<Longrightarrow> str_prefix n s = Ok (take n s)"
proof -
  have "\<not> is_cont c" if "hex_digit c" for c
    using hex_ascii[of "[c]"] that by (simp add: ascii_str_def is_cont_def)
  then show "list_all hex_digit s \<Longrightarrow> ?thesis" by (auto simp: str_prefix_def list_all_length)
qed

text \<open>The only text that can stop the drawing is a hash that is not ASCII around its sixteenth byte.\<close>

lemma draw_ok_iff:
  "is_ok (draw env width a) \<longleftrightarrow>
     (ap_tab a = Conflicts \<and> ap_conflict_selected a < length (ap_conflicts a) \<longrightarrow>
        is_ok (str_prefix 16 (pc_local_hash (ap_conflicts a ! ap_conflict_selected a))) \<and>
        is_ok (str_prefix 16 (pc_remote_hash (ap_conflicts a ! ap_conflict_selected a))))"
  by (cases "ap_tab a") (auto simp: draw_def conflicts_render_def conflict_detail_def Let_def split: sum.split)

lemma draw_panics:
  assumes "ap_tab a = Conflicts" and "ap_conflicts a = [c]" and "ap_conflict_selected a = 0"
    and "16 < length (pc_local_hash c)" and "is_cont (pc_local_hash c ! 16)"
  shows "draw env width a = Inl (EPanic ''str slice'')"
  using assms by (simp add: draw_def conflicts_render_def conflict_detail_def str_prefix_def)

text \<open>The keys the details advertise for resolving a conflict do nothing.\<close>

lemma resolution_keys_ignored:
  "c \<in> {CHR ''l'', CHR ''r'', CHR ''b''} \<Longrightarrow> handle_key (KeyChar c) a = a"
  by (auto simp: handle_key_def)

text \<open>
  C40: every state of the interface can be drawn, and the picture follows the state. Whatever keys are
  pressed and whatever the daemon answers, with conflicts whose hashes are hexadecimal the drawing
  never panics. On the conflicts tab an empty list, which is the one the program starts with and never
  fills, shows that there are no conflicts; otherwise there is one row per conflict in order, the
  marker stands in front of exactly the selected one, and the details below are those of the selected
  conflict, with at most sixteen digits of each hash.
\<close>

theorem tui_draws_every_state:
  assumes "\<forall>c \<in> set cs. list_all hex_digit (pc_local_hash c) \<and> list_all hex_digit (pc_remote_hash c)"
    and "a = tui_loop ts ((app_new cfg)\<lparr>ap_conflicts := cs\<rparr>)"
  shows "\<exists>body. draw env width a = Ok (Vertical [(Length 3, draw_header a), (Min 0, body), (Length 1, draw_footer)]) \<and>
     (ap_tab a = Conflicts \<and> cs \<noteq> [] \<longrightarrow>
       (\<exists>title rows ds. ap_conflict_selected a < length cs \<and>
          body = Vertical [(Min 10, Show (ListView title (fg_style Red) rows)),
                           (Length 8, Show (Paragraph '' Details '' style_default ds))] \<and>
          length rows = length cs \<and>
          (\<forall>i < length cs. sp_text (rows ! i ! 1) = pc_rel_path (cs ! i) \<and>
                           (sp_text (rows ! i ! 0) = ''> '' \<longleftrightarrow> i = ap_conflict_selected a)) \<and>
          (let c = cs ! ap_conflict_selected a in map (sp_text \<circ> last) (take 3 ds) =
            [pc_rel_path c, pc_local_device c @ '' ('' @ take 16 (pc_local_hash c) @ '')'',
             pc_remote_device c @ '' ('' @ take 16 (pc_remote_hash c) @ '')'']))) \<and>
     (ap_tab a = Conflicts \<and> cs = [] \<longrightarrow>
       body = Vertical [(Min 10, Show (Paragraph '' Pending Conflicts '' (fg_style Green)
                                   [[span_raw ''No conflicts detected. All files are in sync.'']])),
                        (Length 8, Show (Paragraph '' Details '' style_default
                                   [[span_styled ''Select a conflict to see details'' (fg_style DarkGray)]]))])"
proof -
  let ?a = "(app_new cfg)\<lparr>ap_conflicts := cs\<rparr>"
  have "ap_uptime_history ?a = recent []" "selection_ok ?a" "\<not> ap_should_quit ?a"
    by (simp_all add: app_new_def recent_def selection_ok_def)
  from tui_loop_ok[OF this, of ts] have a: "ap_conflicts a = cs" and sel: "cs \<noteq> [] \<longrightarrow> ap_conflict_selected a < length cs"
    by (auto simp: assms(2) selection_ok_def)
  have pre: "str_prefix 16 (pc_local_hash (cs ! i)) = Ok (take 16 (pc_local_hash (cs ! i)))"
    "str_prefix 16 (pc_remote_hash (cs ! i)) = Ok (take 16 (pc_remote_hash (cs ! i)))" if "i < length cs" for i
    using assms(1) that by (simp_all add: str_prefix_hex)
  show ?thesis
  proof (cases "ap_tab a = Conflicts \<and> cs \<noteq> []")
    case True
    then have s: "ap_conflict_selected a < length cs" using sel by simp
    show ?thesis
      using True s pre[OF s]
      by (auto simp: draw_def conflicts_render_def conflict_detail_def conflict_list_def a Let_def nth_enumerate_eq conflict_item_def)
  next
    case False
    then have "is_ok (draw env width a)" using sel pre by (auto simp: draw_ok_iff a)
    then show ?thesis
      using False a
      by (auto simp: draw_def conflicts_render_def conflict_detail_def conflict_list_def split: sum.splits Tab.splits)
  qed
qed

definition two_conflicts :: "PendingConflict list" where
  "two_conflicts =
     [\<lparr>pc_rel_path = ''a'', pc_local_device = ''d1'', pc_remote_device = ''d2'', pc_local_hash = ''01'', pc_remote_hash = ''02'',
       pc_detected_at = 1\<rparr>,
      \<lparr>pc_rel_path = ''b'', pc_local_device = ''d1'', pc_remote_device = ''d2'', pc_local_hash = ''ab'', pc_remote_hash = ''cd'',
       pc_detected_at = 2\<rparr>]"

theorem tui_draws_every_state_witness:
  "\<exists>body title rows ds. draw (\<lambda>_. None) 80 (tui_loop [([], Some (KeyChar CHR ''5'')), ([], Some KeyDown)] ((app_new default_config)\<lparr>ap_conflicts := two_conflicts\<rparr>)) =
     Ok (Vertical [(Length 3, draw_header (tui_loop [([], Some (KeyChar CHR ''5'')), ([], Some KeyDown)]
          ((app_new default_config)\<lparr>ap_conflicts := two_conflicts\<rparr>))), (Min 0, body), (Length 1, draw_footer)]) \<and>
     body = Vertical [(Min 10, Show (ListView title (fg_style Red) rows)), (Length 8, Show (Paragraph '' Details '' style_default ds))] \<and>
     sp_text (rows ! 1 ! 0) = ''> '' \<and> sp_text (last (hd ds)) = ''b''"
proof -
  let ?ts = "[([], Some (KeyChar CHR ''5'')), ([], Some KeyDown)] :: (DaemonUpdate list \<times> key_code option) list"
  let ?a = "tui_loop ?ts ((app_new default_config)\<lparr>ap_conflicts := two_conflicts\<rparr>)"
  have "\<forall>c \<in> set two_conflicts. list_all hex_digit (pc_local_hash c) \<and> list_all hex_digit (pc_remote_hash c)"
    by (simp add: two_conflicts_def hex_digit_def)
  note dr = tui_draws_every_state[where cs = two_conflicts and ts = ?ts and cfg = default_config and env = "\<lambda>_. None" and width = 80,
      OF this refl]
  have a: "ap_tab ?a = Conflicts" "ap_conflict_selected ?a = 1"
    by (simp_all add: tui_turn_def handle_key_def app_new_def two_conflicts_def select_next_def Let_def)
  have cs: "two_conflicts \<noteq> []" "length two_conflicts = 2" "pc_rel_path (two_conflicts ! 1) = ''b''"
    by (simp_all add: two_conflicts_def)
  from dr obtain body where body: "draw (\<lambda>_. None) 80 ?a = Ok (Vertical [(Length 3, draw_header ?a), (Min 0, body), (Length 1, draw_footer)])"
    and imp: "ap_tab ?a = Conflicts \<and> two_conflicts \<noteq> [] \<longrightarrow>
       (\<exists>title rows ds. ap_conflict_selected ?a < length two_conflicts \<and>
          body = Vertical [(Min 10, Show (ListView title (fg_style Red) rows)), (Length 8, Show (Paragraph '' Details '' style_default ds))] \<and>
          length rows = length two_conflicts \<and>
          (\<forall>i < length two_conflicts. sp_text (rows ! i ! 1) = pc_rel_path (two_conflicts ! i) \<and>
             (sp_text (rows ! i ! 0) = ''> '' \<longleftrightarrow> i = ap_conflict_selected ?a)) \<and>
          (let c = two_conflicts ! ap_conflict_selected ?a in map (sp_text \<circ> last) (take 3 ds) =
            [pc_rel_path c, pc_local_device c @ '' ('' @ take 16 (pc_local_hash c) @ '')'',
             pc_remote_device c @ '' ('' @ take 16 (pc_remote_hash c) @ '')'']))"
    by (elim exE conjE) (rule that)
  from imp[unfolded a(2) Let_def, rule_format, OF conjI[OF a(1) cs(1)]] obtain title rows ds where
      b: "body = Vertical [(Min 10, Show (ListView title (fg_style Red) rows)), (Length 8, Show (Paragraph '' Details '' style_default ds))]"
    and r: "\<forall>i < length two_conflicts. sp_text (rows ! i ! 1) = pc_rel_path (two_conflicts ! i) \<and>
             (sp_text (rows ! i ! 0) = ''> '' \<longleftrightarrow> i = 1)"
    and d: "map (sp_text \<circ> last) (take 3 ds) =
            [pc_rel_path (two_conflicts ! 1), pc_local_device (two_conflicts ! 1) @ '' ('' @ take 16 (pc_local_hash (two_conflicts ! 1)) @ '')'',
             pc_remote_device (two_conflicts ! 1) @ '' ('' @ take 16 (pc_remote_hash (two_conflicts ! 1)) @ '')'']"
    by (elim exE conjE) (rule that)
  have "sp_text (last (hd ds)) = ''b''" using d cs(3) by (cases ds) auto
  moreover have "sp_text (rows ! 1 ! 0) = ''> ''" using r cs(2) by simp
  ultimately show ?thesis using body b by blast
qed

end
