(* ===== verification/Mcp_Server.thy ===== *)
theory Mcp_Server
  imports Daemon_Start
begin

text \<open>
  The MCP server (\<^verbatim>\<open>crates/tcfs-mcp/src/server.rs\<close>): tools that forward to the daemon on the same
  machine over its socket and report JSON text. The RPC transport hands requests to the handlers of
  the daemon; the JSON printers, the TOML parser and error messages are parameters. A tool that
  forwards a request the daemon never answers does not answer either.
\<close>

section \<open>Model\<close>

datatype json = JText string | JBool bool | JInt int | JNull | JArr "json list" | JObj "(string \<times> json) list"

record mcp_libs =
  ml_print :: "json \<Rightarrow> string"
  ml_pretty :: "TcfsConfig \<Rightarrow> string option"
  ml_toml :: "string \<Rightarrow> TcfsConfig option"
  ml_msg :: "err \<Rightarrow> string"
  ml_dial :: "path \<Rightarrow> string option"
  ml_env :: environment
  ml_reg :: reg_codec

record TcfsMcp =
  mc_socket_path :: path
  mc_config_path :: "path option"
  mc_client :: bool

text \<open>\<open>ml_dial\<close>: the error of connecting to a socket, if any.\<close>

definition mcp_new :: "path \<Rightarrow> path option \<Rightarrow> TcfsMcp" where
  "mcp_new socket cfg = \<lparr>mc_socket_path = socket, mc_config_path = cfg, mc_client = False\<rparr>"

definition mcp_connect :: "mcp_libs \<Rightarrow> TcfsMcp \<Rightarrow> (string + unit) \<times> TcfsMcp" where
  "mcp_connect X m =
     (if mc_client m then (Inr (), m)
      else (case ml_dial X (mc_socket_path m) of
              None \<Rightarrow> (Inr (), m\<lparr>mc_client := True\<rparr>)
            | Some e \<Rightarrow> (Inl (''failed to connect to daemon at '' @ path_str (mc_socket_path m) @ '': '' @ e), m)))"

definition error_text :: "string \<Rightarrow> string" where
  "error_text s = ''{\"error\": \"'' @ s @ ''\"}''"

definition rpc_text :: "mcp_libs \<Rightarrow> string \<Rightarrow> ('a \<Rightarrow> json) \<Rightarrow> 'a outcome \<Rightarrow> string outcome" where
  "rpc_text X name shown r =
     (case r of
        Reply a \<Rightarrow> Reply (ml_print X (shown a))
      | Refuse e \<Rightarrow> Reply (error_text (name @ '' RPC failed: '' @ ml_msg X e))
      | Hangs \<Rightarrow> Hangs)"

text \<open>A tool that needs the daemon: connect first, then forward.\<close>

definition with_daemon ::
  "mcp_libs \<Rightarrow> TcfsMcp \<Rightarrow> 's daemon \<Rightarrow> ('s daemon \<Rightarrow> string outcome \<times> 's daemon) \<Rightarrow>
   string outcome \<times> TcfsMcp \<times> 's daemon" where
  "with_daemon X m w call =
     (case mcp_connect X m of
        (Inl e, m') \<Rightarrow> (Reply (error_text e), m', w)
      | (Inr _, m') \<Rightarrow> (case call w of (r, w') \<Rightarrow> (r, m', w')))"

definition or_null :: "mcp_libs \<Rightarrow> err option \<Rightarrow> json" where
  "or_null X e = (case e of None \<Rightarrow> JNull | Some x \<Rightarrow> if ml_msg X x = [] then JNull else JText (ml_msg X x))"

definition mcp_daemon_status ::
  "mcp_libs \<Rightarrow> string \<Rightarrow> u64 \<Rightarrow> TcfsMcp \<Rightarrow> 's TcfsDaemonImpl \<Rightarrow> string outcome \<times> TcfsMcp \<times> 's daemon" where
  "mcp_daemon_status X ver elapsed m d =
     with_daemon X m (ti_world d) (\<lambda>w.
       (rpc_text X ''status'' (\<lambda>s. JObj
          [(''version'', JText (rs_version s)), (''storage_endpoint'', JText (rs_storage_endpoint s)),
           (''storage_ok'', JBool (rs_storage_ok s)), (''nats_ok'', JBool (rs_nats_ok s)),
           (''active_mounts'', JInt (sint (rs_active_mounts s))), (''uptime_secs'', JInt (sint (rs_uptime_secs s))),
           (''device_id'', JText (rs_device_id s)), (''device_name'', JText (rs_device_name s)),
           (''conflict_mode'', JText (rs_conflict_mode s))])
          (Reply (grpc_status ver elapsed (d\<lparr>ti_world := w\<rparr>))), w))"

definition mcp_credential_status ::
  "mcp_libs \<Rightarrow> TcfsMcp \<Rightarrow> 's TcfsDaemonImpl \<Rightarrow> string outcome \<times> TcfsMcp \<times> 's daemon" where
  "mcp_credential_status X m d =
     with_daemon X m (ti_world d) (\<lambda>w.
       (rpc_text X ''credential_status'' (\<lambda>c. JObj
          [(''loaded'', JBool (rc_loaded c)), (''source'', JText (rc_source c)),
           (''loaded_at'', JInt (sint (rc_loaded_at c))), (''needs_reload'', JBool (rc_needs_reload c))])
          (Reply (grpc_credential_status (ti_creds d))), w))"

definition mcp_config_show :: "mcp_libs \<Rightarrow> TcfsMcp \<Rightarrow> fs \<Rightarrow> string" where
  "mcp_config_show X m f =
     (let p = unwrap_or (path_of ''/etc/tcfs/config.toml'')
                (or_else (mc_config_path m) (map_option path_of (ml_env X ''TCFS_CONFIG'')))
      in case read_to_string f p of
           Inl e \<Rightarrow> error_text (''read config at '' @ path_str p @ '': '' @ ml_msg X e)
         | Inr s \<Rightarrow>
             (case ml_toml X s of
                None \<Rightarrow> error_text (''parse config at '' @ path_str p @ '': '' @ ml_msg X (EParse ''config'' (path_str p)))
              | Some cfg \<Rightarrow>
                  (case ml_pretty X cfg of
                     None \<Rightarrow> error_text (''serialize config: '' @ ml_msg X (ESerialize ''config''))
                   | Some t \<Rightarrow> t)))"

definition mcp_sync_status ::
  "mcp_libs \<Rightarrow> 's libs \<Rightarrow> TcfsMcp \<Rightarrow> 's daemon \<Rightarrow> string \<Rightarrow> string outcome \<times> TcfsMcp \<times> 's daemon" where
  "mcp_sync_status X E m w pth =
     with_daemon X m w (\<lambda>w.
       (rpc_text X ''sync_status'' (\<lambda>s. JObj
          [(''path'', JText (st_path s)), (''state'', JText (st_state s)), (''blake3'', JText (st_blake3 s)),
           (''size'', JInt (uint (st_size s))), (''last_synced'', JInt (uint (st_last_synced s)))])
          (Reply (grpc_sync_status E w pth)), w))"

definition mcp_pull ::
  "mcp_libs \<Rightarrow> 's libs \<Rightarrow> service \<Rightarrow> TcfsMcp \<Rightarrow> 's daemon \<Rightarrow> string \<Rightarrow> string \<Rightarrow> string outcome \<times> TcfsMcp \<times> 's daemon" where
  "mcp_pull X E S m w remote_path local_path =
     with_daemon X m w (\<lambda>w.
       case grpc_pull E S w remote_path local_path of
         (r, w') \<Rightarrow>
           (rpc_text X ''pull'' (\<lambda>p. JObj
              [(''bytes_received'', JInt (uint (pl_bytes_received p))), (''total_bytes'', JInt (uint (pl_total_bytes p))),
               (''done'', JBool True), (''error'', or_null X (pl_error p))]) r, w'))"

definition mcp_resolve_conflict ::
  "mcp_libs \<Rightarrow> 's libs \<Rightarrow> state_codec \<Rightarrow> service \<Rightarrow> TcfsMcp \<Rightarrow> 's daemon \<Rightarrow> string \<Rightarrow> string \<Rightarrow>
   string outcome \<times> TcfsMcp \<times> 's daemon" where
  "mcp_resolve_conflict X E J S m w rel resolution =
     with_daemon X m w (\<lambda>w.
       case grpc_resolve_conflict E J S w rel resolution of
         (r, w') \<Rightarrow>
           (rpc_text X ''resolve_conflict'' (\<lambda>x. JObj
              (case x of
                 Inr p \<Rightarrow> [(''success'', JBool True), (''resolved_path'', JText p), (''error'', JNull)]
               | Inl e \<Rightarrow> [(''success'', JBool False), (''resolved_path'', JText []), (''error'', or_null X (Some e))])) r, w'))"

definition device_json :: "DeviceIdentity \<Rightarrow> json" where
  "device_json d = JObj
     [(''name'', JText (di_name d)), (''device_id'', JText (di_device_id d)), (''public_key'', JText (di_public_key d)),
      (''enrolled_at'', JInt (uint (di_enrolled_at d))), (''revoked'', JBool (di_revoked d)),
      (''last_nats_seq'', JInt (uint (di_last_nats_seq d))),
      (''description'', (case di_description d of None \<Rightarrow> JNull | Some t \<Rightarrow> JText t))]"

definition mcp_device_status :: "mcp_libs \<Rightarrow> fs \<Rightarrow> string" where
  "mcp_device_status X f =
     (case reg_load (ml_reg X) f (default_registry_path (ml_env X)) of
        Inl e \<Rightarrow> error_text (''loading device registry: '' @ ml_msg X e)
      | Inr r \<Rightarrow> ml_print X (JObj [(''devices'', JArr (map device_json (devices r))),
                                  (''total'', JInt (int (length (devices r)))),
                                  (''active'', JInt (int (length (active_devices r))))]))"

text \<open>The file is read here and sent in one message under the path the caller gave.\<close>

definition mcp_push ::
  "mcp_libs \<Rightarrow> 's libs \<Rightarrow> rnd \<Rightarrow> service \<Rightarrow> path res \<Rightarrow> TcfsMcp \<Rightarrow> 's daemon \<Rightarrow> string \<Rightarrow> string outcome \<times> TcfsMcp \<times> 's daemon" where
  "mcp_push X E rn S tempdir m w local_path =
     (case fs_read (w_fs w) (path_of local_path) of
        Inl e \<Rightarrow> (Reply (error_text (''read file: '' @ ml_msg X e)), m, w)
      | Inr data \<Rightarrow>
          with_daemon X m w (\<lambda>w.
            case grpc_push E rn S tempdir w [Inr (local_path, data)] of
              (r, w') \<Rightarrow>
                (rpc_text X ''push'' (\<lambda>p. JObj
                   [(''bytes_sent'', JInt (uint (pp_bytes_sent p))), (''total_bytes'', JInt (uint (pp_total_bytes p))),
                    (''chunk_hash'', JText (pp_chunk_hash p)), (''done'', JBool True), (''error'', or_null X (pp_error p))]) r, w')))"

section \<open>Pushing through the daemon\<close>

lemma mcp_push_forwards:
  assumes "fs_read (w_fs w) (path_of pth) = Inr data" and "mcp_connect X m = (Inr u, m')"
    and "mcp_push X E rn S td m w pth = (r, m1, w')"
  shows "m1 = m'" and "w' = snd (grpc_push E rn S td w [Inr (pth, data)])"
    and "r = Hangs \<longleftrightarrow> fst (grpc_push E rn S td w [Inr (pth, data)]) = Hangs"
  using assms
  by (auto simp: mcp_push_def with_daemon_def rpc_text_def split: prod.splits outcome.splits)

lemma grpc_push_absolute:
  assumes "w_operator w" and "\<not> w_oplock w" and "p_abs (path_of pth)" and "pth \<noteq> []"
    and "fs_ensure_parent (make_tempdir (w_fs w) td) (path_of pth) = (Inr u, f1)" and "\<not> is_ancestor td (path_of pth)"
    and "grpc_push E rn S (Inr td) w [Inr (pth, data)] = (r, w')"
  shows "files (w_fs w') (path_of pth) = files (snd (fs_write f1 (path_of pth) data)) (path_of pth)"
proof -
  let ?w1 = "w\<lparr>w_oplock := True, w_fs := make_tempdir (w_fs w) td\<rparr>"
  have lp: "path_join td (path_of pth) = path_of pth" using assms(3) by (simp add: path_join_def)
  obtain x w2 where v: "push_via E rn S ?w1 td pth data = (x, w2)" by fastforce
  have fs2: "w_fs w2 = snd (fs_write f1 (path_of pth) data)"
    using v assms(5) by (auto simp: push_via_def lp Let_def split: prod.splits sum.splits)
  have x: "x \<noteq> Hangs" using v assms(5) by (auto simp: push_via_def lp Let_def split: prod.splits sum.splits)
  have "w_fs w' = drop_tempdir (w_fs w2) td"
    using assms(7) v x assms(1,2,4)
    by (cases x) (auto simp: grpc_push_def lock_operator_def release_operator_def)
  with fs2 assms(6) show ?thesis by (simp add: drop_tempdir_def)
qed

text \<open>
  C37: pushing a file by its absolute path through the MCP server rewrites that file. The daemon joins
  the path to its temporary directory, which an absolute path replaces, and writes the received
  bytes there: a successful push leaves the file with the same content and a new modification time,
  and when that write fails half-way the file is left torn.
\<close>

theorem mcp_push_rewrites_source:
  assumes "w_operator w" and "\<not> w_oplock w" and "p_abs (path_of pth)" and "pth \<noteq> []" and "\<not> is_ancestor td (path_of pth)"
    and "fs_read (w_fs w) (path_of pth) = Inr data" and "mcp_connect X m = (Inr (), m')"
    and "fs_ensure_parent (make_tempdir (w_fs w) td) (path_of pth) = (Inr (), f1)"
    and "\<not> dirs f1 (path_of pth)" and "path_parent (path_of pth) = Some q" and "dirs f1 q"
    and "mcp_push X E rn S (Inr td) m w pth = (r, m1, w')"
  shows "files (w_fs w') (path_of pth) =
           (if fault (w_fs w) OpWrite (path_of pth) then torn f1 (path_of pth)
            else Some \<lparr>f_data = data, f_mtime = mclock (w_fs w)\<rparr>)"
proof -
  obtain r' w1 where push: "grpc_push E rn S (Inr td) w [Inr (pth, data)] = (r', w1)" by fastforce
  have "w' = w1" using mcp_push_forwards(2)[OF assms(6,7,12)] push by simp
  moreover have flt: "fault f1 = fault (w_fs w)" "mclock f1 = mclock (w_fs w)"
    using ensure_parent_env[of "make_tempdir (w_fs w) td" "path_of pth"] assms(8) by (simp_all add: make_tempdir_def)
  moreover have "fs_write f1 (path_of pth) data =
      (if fault f1 OpWrite (path_of pth)
       then (Err (EIo ''write'' (path_str (path_of pth))), f1\<lparr>files := (files f1)(path_of pth := torn f1 (path_of pth))\<rparr>)
       else (Ok (), f1\<lparr>files := (files f1)(path_of pth := Some \<lparr>f_data = data, f_mtime = mclock f1\<rparr>)\<rparr>))"
    using assms(9-11) by (simp add: fs_write_def)
  moreover have "files (w_fs w1) (path_of pth) = files (snd (fs_write f1 (path_of pth) data)) (path_of pth)"
    by (rule grpc_push_absolute[OF assms(1-4,8,5) push])
  ultimately show ?thesis by simp
qed

section \<open>A concrete run\<close>

definition demo_mcp_libs :: mcp_libs where
  "demo_mcp_libs = \<lparr>ml_print = (\<lambda>_. []), ml_pretty = (\<lambda>_. None), ml_toml = (\<lambda>_. None), ml_msg = (\<lambda>_. ''e''),
     ml_dial = (\<lambda>_. None), ml_env = (\<lambda>_. None), ml_reg = one_reg_codec first_registry\<rparr>"

theorem mcp_push_rewrites_source_witness:
  "\<exists>r m1 w'. mcp_push demo_mcp_libs (demo_libs demo_manifest) demo_rnd \<lparr>sv_bucket = ''p'', sv_device = ''d1''\<rparr>
       (Inr (path_of ''/t'')) (mcp_new (path_of ''/s'') None) demo_daemon ''/a'' = (r, m1, w') \<and>
     files one_file (path_of ''/a'') = Some \<lparr>f_data = [1, 2], f_mtime = Some 5\<rparr> \<and>
     files (w_fs w') (path_of ''/a'') = Some \<lparr>f_data = [1, 2], f_mtime = Some 9\<rparr>"
proof -
  let ?f = "make_tempdir one_file (path_of ''/t'')" and ?S = "\<lparr>sv_bucket = ''p'', sv_device = ''d1''\<rparr>"
  obtain r m1 w' where run: "mcp_push demo_mcp_libs (demo_libs demo_manifest) demo_rnd ?S (Inr (path_of ''/t''))
      (mcp_new (path_of ''/s'') None) demo_daemon ''/a'' = (r, m1, w')"
    using prod_cases3 by blast
  have e: "fst (fs_ensure_parent ?f (path_of ''/a'')) = Inr ()" "p_abs (path_of ''/a'')"
    "\<not> is_ancestor (path_of ''/t'') (path_of ''/a'')" "path_parent (path_of ''/a'') = Some (path_of ''/'')"
    "dirs (snd (fs_ensure_parent ?f (path_of ''/a''))) (path_of ''/'')"
    "\<not> dirs (snd (fs_ensure_parent ?f (path_of ''/a''))) (path_of ''/a'')"
    by code_simp+
  then obtain f1 where f1: "fs_ensure_parent ?f (path_of ''/a'') = (Inr (), f1)" "dirs f1 (path_of ''/'')" "\<not> dirs f1 (path_of ''/a'')"
    by (cases "fs_ensure_parent ?f (path_of ''/a'')") auto
  have c: "mcp_connect demo_mcp_libs (mcp_new (path_of ''/s'') None) =
      (Inr (), (mcp_new (path_of ''/s'') None)\<lparr>mc_client := True\<rparr>)"
    by (simp add: mcp_connect_def mcp_new_def demo_mcp_libs_def)
  have rd: "fs_read (w_fs demo_daemon) (path_of ''/a'') = Inr [1, 2]" by (simp add: fs_read_def one_file_def)
  have "files (w_fs w') (path_of ''/a'') = Some \<lparr>f_data = [1, 2], f_mtime = Some 9\<rparr>"
    using mcp_push_rewrites_source[OF _ _ e(2) _ e(3) rd c _ f1(3) e(4) f1(2) run] f1(1) by (simp add: one_file_def)
  with run show ?thesis by (simp add: one_file_def)
qed

end
