(* ===== verification/Spec2Isabelle.thy ===== *)
theory Spec2Isabelle
  imports Seekable_Zstd Fuse_Driver Sops_Sync Worker_Pool Upload_Race Cloud_Files Provider_Memory Tui_View Mcp_Server
begin

text \<open>
  Verification of tcfs (\<^verbatim>\<open>tummycrypt\<close>), a file synchronisation system with content-defined chunking,
  end-to-end encryption and vector-clock conflict handling on top of an object store.

  \<^bold>\<open>The program and its model.\<close> A file is cut into chunks that are stored once under the hash of
  their stored bytes; a manifest under the hash of the file lists the chunks; an index object per path
  names the manifest. A state cache on each device remembers what was synced, a daemon serves local
  clients and exchanges events with other devices over NATS, and several front ends (command line, FUSE
  mount, file provider, Cloud Files, terminal interface, MCP server) use the same store. Each part is a
  theory of its own; definitions keep the names of the functions they translate, with a short suffix
  or prefix where HOL or another crate has the name already.

    \<^item> \<^verbatim>\<open>Tcfs_Prelude\<close>: machine integers, results and errors, strings and UTF-8, decimal and line
      formats of the Rust standard library, generic lemmas and the simp collections. \<^verbatim>\<open>Tcfs_BTree\<close>:
      \<^verbatim>\<open>BTreeMap\<close> as a sorted association list (locale \<open>ordered_map\<close>). \<^verbatim>\<open>Tcfs_Fs\<close>: paths and a file
      system with faults on every operation, torn writes, modification times and canonical paths.
    \<^item> \<^verbatim>\<open>Vector_Clock\<close>: \<^verbatim>\<open>tcfs-sync/conflict.rs\<close> (locale \<open>causal_clock\<close>). \<^verbatim>\<open>Sync_Manifest\<close>:
      \<^verbatim>\<open>manifest.rs\<close>. \<^verbatim>\<open>State_Cache\<close>: \<^verbatim>\<open>state.rs\<close> with both backends (locale \<open>state_backend\<close>).
      \<^verbatim>\<open>Git_Safety\<close>: \<^verbatim>\<open>git_safety.rs\<close> with the lock file protocol as a step relation. \<^verbatim>\<open>Sync_Engine\<close>,
      \<^verbatim>\<open>Engine_Props\<close>, \<^verbatim>\<open>Engine_Roundtrip\<close>, \<^verbatim>\<open>Push_Tree\<close>: \<^verbatim>\<open>engine.rs\<close>: upload, download, tree walk, push.
      \<^verbatim>\<open>Nats_Client\<close>: the client of \<^verbatim>\<open>nats.rs\<close>.
    \<^item> \<^verbatim>\<open>Object_Store\<close>: the OpenDAL operator and the hasher as the program uses them. \<^verbatim>\<open>Hex_Codec\<close>,
      \<^verbatim>\<open>Tcfs_Crypto\<close>: \<^verbatim>\<open>tcfs-crypto\<close> (locale \<open>text_codec\<close>). \<^verbatim>\<open>Content_Chunks\<close>, \<^verbatim>\<open>Seekable_Zstd\<close>:
      \<^verbatim>\<open>tcfs-chunks\<close>.
    \<^item> \<^verbatim>\<open>Fuse_Stub\<close>, \<^verbatim>\<open>Fuse_Cache\<close>, \<^verbatim>\<open>Fuse_Driver\<close>: \<^verbatim>\<open>tcfs-fuse\<close>. \<^verbatim>\<open>File_Provider\<close>, \<^verbatim>\<open>Provider_Memory\<close>: the C
      interface of \<^verbatim>\<open>tcfs-file-provider\<close> and the memory it hands out. \<^verbatim>\<open>Cloud_Files\<close>: \<^verbatim>\<open>tcfs-cloudfilter\<close>.
    \<^item> \<^verbatim>\<open>Tcfs_Config\<close>: \<^verbatim>\<open>tcfs-core/config.rs\<close>. \<^verbatim>\<open>Device_Registry\<close> (locale \<open>document_slot\<close>),
      \<^verbatim>\<open>Secret_Store\<close>, \<^verbatim>\<open>Cred_Rotation\<close>: \<^verbatim>\<open>tcfs-secrets\<close>. \<^verbatim>\<open>Storage_Operator\<close>: \<^verbatim>\<open>tcfs-storage\<close>.
      \<^verbatim>\<open>Sops_Sync\<close>: \<^verbatim>\<open>tcfs-sops\<close>.
    \<^item> \<^verbatim>\<open>Daemon_Sync\<close>, \<^verbatim>\<open>Daemon_Service\<close>, \<^verbatim>\<open>Daemon_Start\<close>, \<^verbatim>\<open>Worker_Pool\<close>: \<^verbatim>\<open>tcfsd\<close>: the state event loop,
      the requests, the life of the daemon, the worker mode with its concurrent pool. \<^verbatim>\<open>Fleet\<close>: many
      devices on one bucket, with an interleaving step relation over all these operations.
      \<^verbatim>\<open>Upload_Race\<close>: uploads of the engine as processes that interleave at single storage operations.
    \<^item> \<^verbatim>\<open>Cli_Sync\<close>, \<^verbatim>\<open>Cli_Admin\<close>, \<^verbatim>\<open>Cli_Main\<close>: \<^verbatim>\<open>tcfs-cli\<close>, the commands and \<^verbatim>\<open>main\<close>. \<^verbatim>\<open>Tui_App\<close>, \<^verbatim>\<open>Tui_View\<close>:
      \<^verbatim>\<open>tcfs-tui\<close>, the application and what it draws. \<^verbatim>\<open>Mcp_Server\<close>: \<^verbatim>\<open>tcfs-mcp\<close>.

  \<^bold>\<open>Conventions.\<close> State is passed explicitly: the file system, the remote store, the
  state cache and the records of a component go in and come out updated; every early return and every
  \<^verbatim>\<open>?\<close> is a branch that returns an \<open>err\<close> together with the state
  reached so far. Panics are the error \<open>EPanic\<close>. Integers keep their width where the code
  relies on it. The clock, random bytes, fresh identifiers, the environment, directory listings and the
  answers of other processes are arguments. Asynchronous code is sequential within a task; where tasks
  interleave (the git lock, the worker pool, the fleet, concurrent uploads, device commands, FUSE
  requests) there is a step relation. A mutex is a flag, and waiting for one the own task holds is the
  outcome \<open>Hangs\<close>. File names are UTF-8, so lossy conversion is the identity on them. All
  functions are total by structural recursion or a termination proof; no fuel is used. The one loop that
  may run forever, the conflict prompt, is a partial function whose termination is characterised
  exactly.

  \<^bold>\<open>Code outside the repository\<close> is a parameter, with what the program relies on as
  a named law: the object store (\<open>store_laws\<close>: read after write, frame), directory listings
  of the file system (\<open>lists_below\<close>), RocksDB (\<open>rocks_laws\<close>: put, delete and
  iteration as a map of byte strings), BLAKE3 (\<open>hasher_laws\<close>), FastCDC
  (\<open>cdc_laws\<close>: for sizes in its range, ordered non-empty cuts that cover the data; it
  panics outside), zstd (\<open>zstd_laws\<close>), the authenticated ciphers (\<open>aead_laws\<close>,
  \<open>siv_laws\<close>, \<open>gcm_laws\<close>), base64, HKDF, Argon2 and BIP-39, the serde codecs
  (\<open>manifest_codec_laws\<close>, \<open>state_codec_laws\<close>, \<open>reg_codec_laws\<close>,
  \<open>msg_codec_laws\<close>), YAML, TOML, KeePass, age, the keyring, git, and the JetStream server.
  Collision freedom of the hash is never assumed globally: theorems state it for the set of byte strings
  at hand. Every property with hypotheses has a witness that instantiates the parameters with concrete
  functions.

  \<^bold>\<open>Interfaces.\<close> \<open>ordered_map\<close> (the map behind vector clocks and
  manifests), \<open>causal_clock\<close> (what conflict handling needs of clocks),
  \<open>text_codec\<close> (encoders of bytes), \<open>state_backend\<close> (the state cache as a
  finite map; both backends interpret it), \<open>document_slot\<close> (a document stored as a whole,
  locally or remotely) and \<open>verified_assembly\<close> (assembling a file from checked chunks; the
  engine, the file provider and Cloud Files interpret it, so they agree).

  \<^bold>\<open>What is shown.\<close> Round trips: upload and download, plain and encrypted; push and
  pull through the daemon, the command line and the file provider; flush, shutdown and restart;
  manifests, names, stubs, chunk and SOPS encryption; what one device pushes every device can pull after
  any activity of the fleet that keeps manifests (no \<^verbatim>\<open>keep_local\<close>). Invariants:
  a bucket shared by a fleet stays sound and loses no content, also when uploads interleave operation by
  operation without a lock; the content-addressed store, manifests, index and cache stay consistent
  under every upload and tree push, failing ones included; device names stay unique; the worker pool
  loses no task. Atomicity: downloads, flushes and credential rotation replace a file as a whole or not
  at all. Effects: the files each command of the command line may change (a mount serves requests and
  changes files below its cache directory only), and that only a push writes to the store, below its
  prefix; memory handed out over the C interface is given back exactly; every state of the terminal
  interface can be drawn. Exactness: chunking, range reads, the tree walk, eviction, causal comparison,
  the automatic pull decision, directory listings. Refinement: after any operations both state caches
  hold, and after a restart the database of the RocksDB one still holds, what a plain map holds; the
  mount shows what the engine publishes. Progress and termination: the worker shutdown, the conflict
  prompt. Several theorems and lemmas establish defects, among them: hydration through FUSE rejects
  every manifest the engine writes, empty files cannot be downloaded, upload conflicts are never
  detected, an automatic pull deadlocks the daemon, keeping the local side of a conflict destroys the
  manifest, the file provider serves ciphertext, and pushing through the MCP server rewrites the source
  file.

  \<^bold>\<open>Not modelled.\<close> Placing widgets on the screen (ratatui), progress bars and log
  output, argument parsing by clap, printing sizes with floating point numbers, the Prometheus text, the
  transport of gRPC and of the MCP protocol, FUSE and Windows API bindings below the handlers, generated
  protobuf code, and the type declarations of \<^verbatim>\<open>tcfs-core\<close> nothing uses. These
  observe or transport state the model has and change none.
\<close>

section \<open>Readers of the same store\<close>

text \<open>
  C7: a file the engine uploaded in plain is the same file for every reader. After the upload of a new,
  non-empty file, the engine's own download, hydration through Cloud Files by the file's hash, and
  a fetch through the file provider of any index object that names the file, all return exactly the
  uploaded bytes.
\<close>

theorem plain_upload_read_everywhere:
  assumes "engine_laws E" and "good_rnd rn" and "cas_in E p U s" and "inj_on (hex_of E) U"
    and "upload_blobs_in E rn f lp None U" and "sc_needs_sync (l_hash E) f c lp = Inr (Some why)"
    and "fs_read f lp = Inr data" and "data \<noteq> []" and "trim_end_matches slash p = p"
    and "op_exists (l_op E) s (manifest_key p (hex_of E data)) = Inr False"
    and "upload_file_with_device E rn f s c lp p dev rel None = (Inr r, s', c')"
  shows "(\<exists>m. fetch_verified E s' (ur_remote_path r) p None = Inr (m, data)) \<and>
         handle_fetch_data (l_hash E) (l_mf E) (l_op E) s' p (bytes_of_str (ur_hash r)) = Inr data \<and>
         (\<forall>P item sz n. pv_operator P = l_op E \<and> pv_base P = p \<and>
            op_read (l_op E) s' item = Inr (bytes_of_str (index_text (ur_hash r) sz n)) \<longrightarrow>
              pv_fetch (l_hash E) (l_mf E) P s' item = Inr data)"
proof -
  note N = upload_new_fetch[OF assms(1-8,10,11)]
  note H = engine_lawsD(2)[OF assms(1)]
  obtain m where fv: "fetch_verified E s' (manifest_key p (hex_of E data)) p None = Inr (m, data)"
    using N by auto
  then obtain mb key where mb: "op_read (l_op E) s' (manifest_key p (hex_of E data)) = Inr mb" "from_bytes (l_mf E) mb = Inr m"
    and "chunks m \<noteq> []" and key: "download_key E None (manifest_key p (hex_of E data)) m = Inr key"
    and fc: "fetch_chunks E key s' p 0 (chunks m) = Inr data" and fh: "hex_of E data = file_hash m"
    by (rule fetch_verified_Ok)
  moreover have "key = None" using key by (auto simp: download_key_def split: if_splits option.splits)
  moreover have "from_utf8_lossy (bytes_of_str (hex_of E data)) = hex_of E data"
    by (rule from_utf8_lossy_valid[OF from_utf8_ascii[OF hex_ascii[OF hex_of_digits[OF H]]]])
  ultimately have "handle_fetch_data (l_hash E) (l_mf E) (l_op E) s' p (bytes_of_str (hex_of E data)) = Inr data"
    using handle_fetch_data_iff[of E s' p "bytes_of_str (hex_of E data)" mb m data] assms(9)
    by (simp add: chunk_hashes_def)
  moreover have "pv_fetch (l_hash E) (l_mf E) P s' item = Inr data"
    if "pv_operator P = l_op E" "pv_base P = p" "op_read (l_op E) s' item = Inr (bytes_of_str (index_text (hex_of E data) sz n))"
    for P item sz n
    using pv_fetch_indexed[OF H that(1,3), unfolded that(2), OF mb] pv_assemble_fetch_chunks[OF that(1), of s' "chunks m" data 0]
      fc \<open>key = None\<close> that(2) by simp
  ultimately show ?thesis using N by auto
qed

theorem plain_upload_read_everywhere_witness:
  "\<exists>r s' c'. upload_file_with_device (demo_libs cli_manifest) demo_rnd one_file empty_store demo_state (path_of ''/a'')
       ''p'' [] (Some ''a'') None = (Inr r, s', c') \<and>
     handle_fetch_data toy_hasher (one_manifest_codec cli_manifest) mem_operator s' ''p'' (bytes_of_str (ur_hash r)) = Inr [1, 2]"
proof -
  let ?E = "demo_libs cli_manifest"
  obtain r s' c' where up: "upload_file_with_device ?E demo_rnd one_file empty_store demo_state (path_of ''/a'')
      ''p'' [] (Some ''a'') None = (Inr r, s', c')"
    using demo_plain_write by blast
  have ns: "sc_needs_sync toy_hasher one_file demo_state (path_of ''/a'') = Inr (Some NewFile)"
    and tr: "trim_end_matches slash ''p'' = ''p''"
    by code_simp+
  have "upload_blobs_in ?E demo_rnd one_file (path_of ''/a'') None {[1, 2]}"
    by (auto simp: upload_blobs_in_def demo_chunk_file upload_key_def blobs_in_def upload_blob_def demo_chunk_def)
  from plain_upload_read_everywhere[OF demo_laws demo_rnd_good empty_store_ok(1) _ this _ demo_read _ tr _ up]
  have "handle_fetch_data toy_hasher (one_manifest_codec cli_manifest) mem_operator s' ''p'' (bytes_of_str (ur_hash r)) = Inr [1, 2]"
    using ns by (simp add: mem_operator_def)
  with up show ?thesis by blast
qed

end
